(* ===== verification/Prelude.thy ===== *)
theory Prelude
  imports Main "HOL-Library.Code_Target_Nat"
begin

section \<open>Shared vocabulary of the development\<close>

text \<open>
  What every component uses: the result type of a Rust function that may return \<open>Err\<close> or
  panic, the state-passing form of a function that also touches the outside world, machine
  integers with Rust's two overflow behaviours, and the string operations of the standard
  library. A Rust \<open>String\<close> is the list of its UTF-8 bytes, so \<open>as_bytes\<close> is the identity
  and a literal of the source is the HOL literal of the same characters.
\<close>

named_theorems outcome_simps \<open>inversion of the result combinators\<close>
named_theorems str_simps \<open>evaluation of the string operations\<close>

type_synonym bytes = string

subsection \<open>Results: a value, an error, or a panic\<close>

datatype ('e, 'a) outcome = Ok 'a | Err 'e | Panic

definition and_then :: "('e, 'a) outcome \<Rightarrow> ('a \<Rightarrow> ('e, 'b) outcome) \<Rightarrow> ('e, 'b) outcome" where
  "and_then m f = (case m of Ok x \<Rightarrow> f x | Err e \<Rightarrow> Err e | Panic \<Rightarrow> Panic)"

definition map_err :: "('e \<Rightarrow> 'f) \<Rightarrow> ('e, 'a) outcome \<Rightarrow> ('f, 'a) outcome" where
  "map_err g m = (case m of Ok x \<Rightarrow> Ok x | Err e \<Rightarrow> Err (g e) | Panic \<Rightarrow> Panic)"

definition ok_or :: "'a option \<Rightarrow> 'e \<Rightarrow> ('e, 'a) outcome" where
  "ok_or v e = (case v of Some x \<Rightarrow> Ok x | None \<Rightarrow> Err e)"

definition ensure :: "bool \<Rightarrow> 'e \<Rightarrow> ('e, unit) outcome" where
  "ensure b e = (if b then Ok () else Err e)"

fun of_sum :: "'e + 'a \<Rightarrow> ('e, 'a) outcome" where
  "of_sum (Inl e) = Err e"
| "of_sum (Inr x) = Ok x"

fun is_ok :: "('e, 'a) outcome \<Rightarrow> bool" where
  "is_ok (Ok x) = True"
| "is_ok (Err e) = False"
| "is_ok Panic = False"

lemma and_then_simps [simp]:
  "and_then (Ok x) f = f x"
  "and_then (Err e) f = Err e"
  "and_then Panic f = Panic"
  by (simp_all add: and_then_def)

lemma and_then_iffs [outcome_simps]:
  "and_then m f = Ok y \<longleftrightarrow> (\<exists>x. m = Ok x \<and> f x = Ok y)"
  "and_then m f = Err e \<longleftrightarrow> m = Err e \<or> (\<exists>x. m = Ok x \<and> f x = Err e)"
  "and_then m f = Panic \<longleftrightarrow> m = Panic \<or> (\<exists>x. m = Ok x \<and> f x = Panic)"
  by (cases m; simp)+

lemma map_err_simps [simp]:
  "map_err g (Ok x) = Ok x"
  "map_err g (Err e) = Err (g e)"
  "map_err g Panic = Panic"
  by (simp_all add: map_err_def)

lemma map_err_iffs [outcome_simps]:
  "map_err g m = Ok y \<longleftrightarrow> m = Ok y"
  "map_err g m = Err d \<longleftrightarrow> (\<exists>e. m = Err e \<and> d = g e)"
  "map_err g m = Panic \<longleftrightarrow> m = Panic"
  by (cases m; auto)+

lemma ok_or_simps [simp]:
  "ok_or (Some x) e = Ok x"
  "ok_or None e = Err e"
  by (simp_all add: ok_or_def)

lemma ok_or_iffs [outcome_simps]:
  "ok_or v e = Ok y \<longleftrightarrow> v = Some y"
  "ok_or v e = Err d \<longleftrightarrow> v = None \<and> d = e"
  "ok_or v e = Panic \<longleftrightarrow> False"
  by (cases v; auto)+

lemma ensure_iffs [outcome_simps]:
  "ensure b e = Ok u \<longleftrightarrow> b"
  "ensure b e = Err d \<longleftrightarrow> \<not> b \<and> d = e"
  "ensure b e = Panic \<longleftrightarrow> False"
  by (auto simp: ensure_def)

lemma ensure_simps [simp]:
  "ensure True e = Ok ()"
  "ensure False e = Err e"
  by (simp_all add: ensure_def)

lemma of_sum_iffs [outcome_simps]:
  "of_sum s = Ok y \<longleftrightarrow> s = Inr y"
  "of_sum s = Err e \<longleftrightarrow> s = Inl e"
  "of_sum s = Panic \<longleftrightarrow> False"
  by (cases s; simp)+

lemma is_ok_iff [outcome_simps]: "is_ok m \<longleftrightarrow> (\<exists>x. m = Ok x)"
  by (cases m) simp_all

subsection \<open>Operations on the outside world\<close>

text \<open>
  An operation behind \<open>&self\<close> that reads a clock, locks a mutex or talks to the network takes
  the state of the world and returns the world it leaves. The state survives an error and a
  panic, as the store behind a mutex does.
\<close>

type_synonym ('w, 'e, 'a) io = "'w \<Rightarrow> ('e, 'a) outcome \<times> 'w"

definition lift :: "('e, 'a) outcome \<Rightarrow> ('w, 'e, 'a) io" where
  "lift m = (\<lambda>w. (m, w))"

definition io_bind :: "('w, 'e, 'a) io \<Rightarrow> ('a \<Rightarrow> ('w, 'e, 'b) io) \<Rightarrow> ('w, 'e, 'b) io" where
  "io_bind m f = (\<lambda>w. case m w of (r, w') \<Rightarrow>
     (case r of Ok x \<Rightarrow> f x w' | Err e \<Rightarrow> (Err e, w') | Panic \<Rightarrow> (Panic, w')))"

definition io_map_err :: "('e \<Rightarrow> 'f) \<Rightarrow> ('w, 'e, 'a) io \<Rightarrow> ('w, 'f, 'a) io" where
  "io_map_err g m = (\<lambda>w. case m w of (r, w') \<Rightarrow> (map_err g r, w'))"

lemma lift_apply [simp]: "lift m w = (m, w)"
  by (simp add: lift_def)

lemma io_bind_lift [simp]:
  "io_bind (lift (Ok x)) f = f x"
  "io_bind (lift (Err e)) f = lift (Err e)"
  "io_bind (lift Panic) f = lift Panic"
  by (simp_all add: io_bind_def fun_eq_iff)

lemma io_bind_iffs [outcome_simps]:
  "io_bind m f w = (Ok y, w2) \<longleftrightarrow> (\<exists>x w1. m w = (Ok x, w1) \<and> f x w1 = (Ok y, w2))"
  "io_bind m f w = (Err e, w2) \<longleftrightarrow>
     m w = (Err e, w2) \<or> (\<exists>x w1. m w = (Ok x, w1) \<and> f x w1 = (Err e, w2))"
  "io_bind m f w = (Panic, w2) \<longleftrightarrow>
     m w = (Panic, w2) \<or> (\<exists>x w1. m w = (Ok x, w1) \<and> f x w1 = (Panic, w2))"
  by (auto simp: io_bind_def split: prod.splits outcome.splits)

lemma io_map_err_iffs [outcome_simps]:
  "io_map_err g m w = (Ok y, w1) \<longleftrightarrow> m w = (Ok y, w1)"
  "io_map_err g m w = (Err d, w1) \<longleftrightarrow> (\<exists>e. m w = (Err e, w1) \<and> d = g e)"
  "io_map_err g m w = (Panic, w1) \<longleftrightarrow> m w = (Panic, w1)"
  by (auto simp: io_map_err_def outcome_simps split: prod.splits)

lemma io_bind_step:
  "m w = (Ok x, w1) \<Longrightarrow> io_bind m f w = f x w1"
  "m w = (Err e, w1) \<Longrightarrow> io_bind m f w = (Err e, w1)"
  "m w = (Panic, w1) \<Longrightarrow> io_bind m f w = (Panic, w1)"
  by (simp_all add: io_bind_def)

text \<open>
  What an operation does to the world whatever it returns: it keeps an invariant of the world, and
  it adds at most so much to a measure of it. Both are composed along \<open>io_bind\<close>; the continuation
  may assume that the first operation did return the value it is given.
\<close>

named_theorems io_rules \<open>composition rules for what operations do to the world\<close>

definition preserves :: "('w \<Rightarrow> bool) \<Rightarrow> ('w, 'e, 'a) io \<Rightarrow> bool" where
  "preserves I m \<longleftrightarrow> (\<forall>w r w'. I w \<longrightarrow> m w = (r, w') \<longrightarrow> I w')"

definition costs :: "('w \<Rightarrow> nat) \<Rightarrow> nat \<Rightarrow> ('w, 'e, 'a) io \<Rightarrow> bool" where
  "costs f n m \<longleftrightarrow> (\<forall>w r w'. m w = (r, w') \<longrightarrow> f w' \<le> f w + n)"

definition returns :: "('w, 'e, 'a) io \<Rightarrow> 'a \<Rightarrow> bool" where
  "returns m x \<longleftrightarrow> (\<exists>w w'. m w = (Ok x, w'))"

lemma preserves_lift [io_rules]: "preserves I (lift m)"
  by (simp add: preserves_def)

lemma preserves_map_err [io_rules]: "preserves I m \<Longrightarrow> preserves I (io_map_err g m)"
  by (auto simp: preserves_def io_map_err_def split: prod.splits)

lemma preserves_bind [io_rules]:
  "preserves I m \<Longrightarrow> (\<And>x. returns m x \<Longrightarrow> preserves I (f x)) \<Longrightarrow> preserves I (io_bind m f)"
  by (fastforce simp: preserves_def returns_def io_bind_def split: prod.splits outcome.splits)

lemma costs_lift [io_rules]: "costs f 0 (lift m)"
  by (simp add: costs_def)

lemma costs_map_err [io_rules]: "costs f n m \<Longrightarrow> costs f n (io_map_err g m)"
  by (auto simp: costs_def io_map_err_def split: prod.splits)

lemma costs_bind:
  assumes "costs f k m" "\<And>x. returns m x \<Longrightarrow> costs f n (g x)"
  shows "costs f (k + n) (io_bind m g)"
  unfolding costs_def
proof (intro allI impI)
  fix w r w' assume b: "io_bind m g w = (r, w')"
  obtain q w1 where m: "m w = (q, w1)" by fastforce
  have "f w1 \<le> f w + k" using assms(1) m by (simp add: costs_def)
  moreover have "f w' \<le> f w1 + n"
  proof (cases q)
    case (Ok x)
    then show ?thesis
      using assms(2) [of x] b m by (auto simp: io_bind_def returns_def costs_def)
  qed (use b m in \<open>auto simp: io_bind_def\<close>)
  ultimately show "f w' \<le> f w + (k + n)" by simp
qed

lemma costs_free [io_rules]:
  "costs f 0 m \<Longrightarrow> (\<And>x. returns m x \<Longrightarrow> costs f n (g x)) \<Longrightarrow> costs f n (io_bind m g)"
  using costs_bind [of f 0 m n g] by simp

lemma costs_mono: "costs f k m \<Longrightarrow> k \<le> n \<Longrightarrow> costs f n m"
  by (fastforce simp: costs_def)

lemma pair_of_fst: "fst p = x \<Longrightarrow> p = (x, snd p)"
  by (cases p) simp

lemma returns_lift [simp]: "returns (lift m) x \<longleftrightarrow> m = Ok x"
  by (simp add: returns_def)

subsection \<open>Machine integers\<close>

text \<open>
  An \<open>i64\<close> or \<open>u64\<close> is an \<open>int\<close> in its range. An operation whose exact result leaves the
  range panics where the crate is built with overflow checks (the \<open>dev\<close> and \<open>test\<close>
  profiles) and wraps modulo \<open>2 ^ 64\<close> where it is not (the \<open>release\<close> profile, which
  \<open>Cargo.toml\<close> leaves at its default). The flag \<open>oc\<close> says which build it is.
\<close>

definition in_i64 :: "int \<Rightarrow> bool" where
  "in_i64 x \<longleftrightarrow> - (2 ^ 63) \<le> x \<and> x < 2 ^ 63"

definition wrap_i64 :: "int \<Rightarrow> int" where
  "wrap_i64 x = (x + 2 ^ 63) mod 2 ^ 64 - 2 ^ 63"

definition i64_result :: "bool \<Rightarrow> int \<Rightarrow> ('e, int) outcome" where
  "i64_result oc x = (if in_i64 x then Ok x else if oc then Panic else Ok (wrap_i64 x))"

definition in_u64 :: "int \<Rightarrow> bool" where
  "in_u64 x \<longleftrightarrow> 0 \<le> x \<and> x < 2 ^ 64"

definition u64_result :: "bool \<Rightarrow> int \<Rightarrow> ('e, int) outcome" where
  "u64_result oc x = (if in_u64 x then Ok x else if oc then Panic else Ok (x mod 2 ^ 64))"

text \<open>The bounds as literals, for evaluation.\<close>

lemma i64_u64_code [code]:
  "in_i64 x \<longleftrightarrow> -9223372036854775808 \<le> x \<and> x < 9223372036854775808"
  "wrap_i64 x = (x + 9223372036854775808) mod 18446744073709551616 - 9223372036854775808"
  "in_u64 x \<longleftrightarrow> 0 \<le> x \<and> x < 18446744073709551616"
  "u64_result oc x = (if in_u64 x then Ok x else if oc then Panic else Ok (x mod 18446744073709551616))"
  by (simp_all add: in_i64_def wrap_i64_def in_u64_def u64_result_def)

lemma wrap_i64_id: "in_i64 x \<Longrightarrow> wrap_i64 x = x"
  by (simp add: in_i64_def wrap_i64_def)

lemma in_i64_wrap: "in_i64 (wrap_i64 x)"
  using pos_mod_bound [of "2 ^ 64" "x + 2 ^ 63"] pos_mod_sign [of "2 ^ 64" "x + 2 ^ 63"]
  by (simp add: in_i64_def wrap_i64_def)

lemma i64_result_in [simp]: "in_i64 x \<Longrightarrow> i64_result oc x = Ok x"
  by (simp add: i64_result_def)

lemma i64_result_release: "i64_result False x = Ok (wrap_i64 x)"
  by (simp add: i64_result_def wrap_i64_id)

lemma i64_result_iffs [outcome_simps]:
  "i64_result oc x = Ok y \<longleftrightarrow> (in_i64 x \<or> \<not> oc) \<and> y = wrap_i64 x"
  "i64_result oc x = Err e \<longleftrightarrow> False"
  "i64_result oc x = Panic \<longleftrightarrow> oc \<and> \<not> in_i64 x"
  by (auto simp: i64_result_def wrap_i64_id)

lemma u64_result_in [simp]: "in_u64 x \<Longrightarrow> u64_result oc x = Ok x"
  by (simp add: u64_result_def)

lemma u64_result_iffs [outcome_simps]:
  "u64_result oc x = Ok y \<longleftrightarrow> (in_u64 x \<or> \<not> oc) \<and> y = x mod 2 ^ 64"
  "u64_result oc x = Err e \<longleftrightarrow> False"
  "u64_result oc x = Panic \<longleftrightarrow> oc \<and> \<not> in_u64 x"
  by (auto simp: u64_result_def in_u64_def)

subsection \<open>Strings of the standard library\<close>

definition ascii_lower :: "char \<Rightarrow> char" where
  "ascii_lower c =
     (let n = (of_char c :: nat) in if 65 \<le> n \<and> n \<le> 90 then char_of (n + 32) else c)"

definition is_ascii :: "string \<Rightarrow> bool" where
  "is_ascii s \<longleftrightarrow> (\<forall>c \<in> set s. (of_char c :: nat) < 128)"

definition eq_ignore_ascii_case :: "string \<Rightarrow> string \<Rightarrow> bool" where
  "eq_ignore_ascii_case a b \<longleftrightarrow> map ascii_lower a = map ascii_lower b"

text \<open>\<open>split(c)\<close>: one piece more than there are separators.\<close>

fun split_on :: "char \<Rightarrow> string \<Rightarrow> string list" where
  "split_on c [] = [[]]"
| "split_on c (x # xs) =
     (if x = c then [] # split_on c xs
      else (case split_on c xs of [] \<Rightarrow> [[x]] | y # ys \<Rightarrow> (x # y) # ys))"

fun join_with :: "string \<Rightarrow> string list \<Rightarrow> string" where
  "join_with sep [] = []"
| "join_with sep [x] = x"
| "join_with sep (x # y # ys) = x @ sep @ join_with sep (y # ys)"

text \<open>\<open>replace(k, r)\<close> for a one-byte pattern.\<close>

definition replace_char :: "char \<Rightarrow> string \<Rightarrow> string \<Rightarrow> string" where
  "replace_char k r s = concat (map (\<lambda>c. if c = k then r else [c]) s)"

text \<open>
  \<open>trim\<close> and \<open>split_whitespace\<close> follow Unicode \<open>White_Space\<close>; these are the UTF-8 encodings
  of its 25 code points. UTF-8 is self-synchronising, so matching an encoding at either end of
  a valid string is matching the character.
\<close>

definition whitespace :: "string list" where
  "whitespace =
     [[CHR 0x09], [CHR 0x0A], [CHR 0x0B], [CHR 0x0C], [CHR 0x0D], [CHR 0x20],
      [CHR 0xC2, CHR 0x85], [CHR 0xC2, CHR 0xA0], [CHR 0xE1, CHR 0x9A, CHR 0x80],
      [CHR 0xE2, CHR 0x80, CHR 0x80], [CHR 0xE2, CHR 0x80, CHR 0x81],
      [CHR 0xE2, CHR 0x80, CHR 0x82], [CHR 0xE2, CHR 0x80, CHR 0x83],
      [CHR 0xE2, CHR 0x80, CHR 0x84], [CHR 0xE2, CHR 0x80, CHR 0x85],
      [CHR 0xE2, CHR 0x80, CHR 0x86], [CHR 0xE2, CHR 0x80, CHR 0x87],
      [CHR 0xE2, CHR 0x80, CHR 0x88], [CHR 0xE2, CHR 0x80, CHR 0x89],
      [CHR 0xE2, CHR 0x80, CHR 0x8A], [CHR 0xE2, CHR 0x80, CHR 0xA8],
      [CHR 0xE2, CHR 0x80, CHR 0xA9], [CHR 0xE2, CHR 0x80, CHR 0xAF],
      [CHR 0xE2, CHR 0x81, CHR 0x9F], [CHR 0xE3, CHR 0x80, CHR 0x80]]"

definition leading :: "string list \<Rightarrow> string \<Rightarrow> nat" where
  "leading ws s =
     (case find (\<lambda>e. take (length e) s = e) ws of None \<Rightarrow> 0 | Some e \<Rightarrow> length e)"

function strip_leading :: "string list \<Rightarrow> string \<Rightarrow> string" where
  "strip_leading ws s =
     (if leading ws s = 0 \<or> s = [] then s else strip_leading ws (drop (leading ws s) s))"
  by pat_completeness auto
termination
  by (relation "measure (\<lambda>(ws, s). length s)") auto

declare strip_leading.simps [simp del]

definition trim_start :: "string \<Rightarrow> string" where
  "trim_start s = strip_leading whitespace s"

definition trim_end :: "string \<Rightarrow> string" where
  "trim_end s = rev (strip_leading (map rev whitespace) (rev s))"

definition trim :: "string \<Rightarrow> string" where
  "trim s = trim_end (trim_start s)"

text \<open>\<open>split_whitespace\<close>: the maximal runs of other characters; \<open>acc\<close> is the current run.\<close>

function split_ws :: "string \<Rightarrow> string \<Rightarrow> string list" where
  "split_ws acc s =
     (if s = [] then (if acc = [] then [] else [acc])
      else if leading whitespace s = 0 then split_ws (acc @ [hd s]) (tl s)
      else (if acc = [] then [] else [acc]) @ split_ws [] (drop (leading whitespace s) s))"
  by pat_completeness auto
termination
  by (relation "measure (\<lambda>(acc, s). length s)") auto

declare split_ws.simps [simp del]

definition split_whitespace :: "string \<Rightarrow> string list" where
  "split_whitespace s = split_ws [] s"

text \<open>\<open>trim_start_matches(c)\<close> and \<open>trim_end_matches(c)\<close>.\<close>

definition trim_start_matches :: "char \<Rightarrow> string \<Rightarrow> string" where
  "trim_start_matches c s = dropWhile (\<lambda>x. x = c) s"

definition trim_end_matches :: "char \<Rightarrow> string \<Rightarrow> string" where
  "trim_end_matches c s = rev (dropWhile (\<lambda>x. x = c) (rev s))"

text \<open>\<open>Display\<close> of an unsigned integer.\<close>

fun show_nat :: "nat \<Rightarrow> string" where
  "show_nat n = (if n < 10 then [char_of (48 + n)] else show_nat (n div 10) @ [char_of (48 + n mod 10)])"

declare show_nat.simps [simp del]

lemmas [str_simps] = ascii_lower_def char_of_def bit_Suc_0_iff eq_ignore_ascii_case_def

lemma split_on_not_Nil [simp]: "split_on c s \<noteq> []"
  by (induction s) (auto split: list.splits)

lemma join_split_on: "join_with [c] (split_on c s) = s"
proof (induction s)
  case (Cons x s)
  then show ?case
    by (cases "split_on c s"; cases "tl (split_on c s)") (auto split: list.splits)
qed simp

lemma split_on_free: "p \<in> set (split_on c s) \<Longrightarrow> c \<notin> set p"
  by (induction s arbitrary: p) (auto split: list.splits if_splits)

lemma split_on_id: "c \<notin> set s \<Longrightarrow> split_on c s = [s]"
  by (induction s) auto

lemma split_on_Cons_sep: "c \<notin> set p \<Longrightarrow> split_on c (p @ c # s) = p # split_on c s"
  by (induction p) auto

subsection \<open>Quoted strings\<close>

text \<open>
  Both \<open>error.rs\<close> and \<open>jwk.rs\<close> put a value between double quotes after escaping backslash and
  double quote with two calls of \<open>replace\<close>. \<open>read_quoted\<close> is the reader of such a quoted string
  (RFC 7230 \<open>quoted-string\<close>, JSON restricted to these two escapes): it returns the value and
  what follows the closing quote.
\<close>

definition escape_quotes :: "string \<Rightarrow> string" where
  "escape_quotes s =
     replace_char (CHR 0x22) [CHR 0x5C, CHR 0x22] (replace_char (CHR 0x5C) [CHR 0x5C, CHR 0x5C] s)"

fun read_quoted :: "string \<Rightarrow> (string \<times> string) option" where
  "read_quoted [] = None"
| "read_quoted (c # s) =
     (if c = CHR 0x22 then Some ([], s)
      else if c = CHR 0x5C then
        (case s of [] \<Rightarrow> None | d # s' \<Rightarrow> map_option (\<lambda>(v, r). (d # v, r)) (read_quoted s'))
      else map_option (\<lambda>(v, r). (c # v, r)) (read_quoted s))"

lemma escape_quotes_simps [simp]:
  "escape_quotes [] = []"
  "escape_quotes (c # s) =
     (if c = CHR 0x5C then [CHR 0x5C, CHR 0x5C] else if c = CHR 0x22 then [CHR 0x5C, CHR 0x22]
      else [c]) @ escape_quotes s"
  by (simp_all add: escape_quotes_def replace_char_def)

lemma read_quoted_escape:
  "read_quoted (escape_quotes s @ CHR 0x22 # rest) = Some (s, rest)"
  by (induction s) auto

lemma escape_quotes_cancel:
  assumes "escape_quotes a @ CHR 0x22 # r = escape_quotes b @ CHR 0x22 # t"
  shows "a = b \<and> r = t"
proof -
  have "Some (a, r) = Some (b, t)"
    using assms by (metis read_quoted_escape)
  then show ?thesis by simp
qed

lemma escape_quotes_id:
  "CHR 0x22 \<notin> set s \<Longrightarrow> CHR 0x5C \<notin> set s \<Longrightarrow> escape_quotes s = s"
  by (induction s) auto

end
