(* ===== verification/Errors.thy ===== *)
theory Errors
  imports Prelude
begin

section \<open>Verification errors and the challenge header (error.rs)\<close>

text \<open>
  The error kinds with their status and code, the \<open>VerifyError\<close> record, and the
  \<open>WWW-Authenticate\<close> value built from it. The lemmas show that the header is a well-formed
  list of quoted parameters: whatever the message and the issuers hold, a reader gets them back
  and finds no parameter the verifier did not write.
\<close>

datatype error_kind = InvalidRequest | InvalidToken | ReplayStoreUnavailable

fun code :: "error_kind \<Rightarrow> string" where
  "code InvalidRequest = ''invalid_request''"
| "code InvalidToken = ''invalid_token''"
| "code ReplayStoreUnavailable = ''invalid_token''"

fun kind_status :: "error_kind \<Rightarrow> nat" where
  "kind_status InvalidRequest = 401"
| "kind_status InvalidToken = 401"
| "kind_status ReplayStoreUnavailable = 503"

record verify_error =
  err_kind :: error_kind
  err_message :: string
  err_dpop :: bool

definition new_error :: "error_kind \<Rightarrow> string \<Rightarrow> verify_error" where
  "new_error k m = \<lparr>err_kind = k, err_message = m, err_dpop = False\<rparr>"

definition with_dpop :: "bool \<Rightarrow> verify_error \<Rightarrow> verify_error" where
  "with_dpop d e = e\<lparr>err_dpop := d\<rparr>"

definition status :: "verify_error \<Rightarrow> nat" where
  "status e = kind_status (err_kind e)"

definition invalid_token :: "string \<Rightarrow> verify_error" where
  "invalid_token m = new_error InvalidToken m"

definition invalid_token_dpop :: "string \<Rightarrow> verify_error" where
  "invalid_token_dpop m = with_dpop True (new_error InvalidToken m)"

definition invalid_request :: "string \<Rightarrow> verify_error" where
  "invalid_request m = new_error InvalidRequest m"

definition escape_quoted :: "string \<Rightarrow> string" where
  "escape_quoted value =
     replace_char (CHR 0x22) [CHR 0x5C, CHR 0x22] (replace_char (CHR 0x5C) [CHR 0x5C, CHR 0x5C] value)"

definition param :: "string \<Rightarrow> string \<Rightarrow> string" where
  "param name value = name @ ''='' @ [CHR 0x22] @ value @ [CHR 0x22]"

definition www_authenticate :: "verify_error \<Rightarrow> string list \<Rightarrow> string list \<Rightarrow> bool \<Rightarrow> string" where
  "www_authenticate e trusted_issuers dpop_algs require_dpop =
     (let dpop = err_dpop e \<or> require_dpop;
          scheme = (if dpop then ''DPoP'' else ''Bearer'');
          issuers = join_with '' '' trusted_issuers;
          params = [param ''error'' (code (err_kind e)),
                    param ''error_description'' (escape_quoted (err_message e)),
                    param ''scope'' ''webid'',
                    param ''issuer'' (escape_quoted issuers)]
            @ (if dpop then [param ''algs'' (join_with '' '' dpop_algs)] else [])
      in scheme @ '' '' @ join_with '', '' params)"

text \<open>\<open>Display\<close> for \<open>VerifyError\<close>.\<close>

definition display_error :: "verify_error \<Rightarrow> string" where
  "display_error e = err_message e @ '' ('' @ code (err_kind e) @ '')''"

lemma error_fields [simp]:
  "err_kind (new_error k m) = k" "err_message (new_error k m) = m"
  "err_dpop (new_error k m) = False"
  "err_kind (with_dpop d e) = err_kind e" "err_message (with_dpop d e) = err_message e"
  "err_dpop (with_dpop d e) = d"
  by (simp_all add: new_error_def with_dpop_def)

lemma error_constructors [simp]:
  "err_kind (invalid_token m) = InvalidToken" "err_message (invalid_token m) = m"
  "err_dpop (invalid_token m) = False"
  "err_kind (invalid_token_dpop m) = InvalidToken" "err_message (invalid_token_dpop m) = m"
  "err_dpop (invalid_token_dpop m) = True"
  "err_kind (invalid_request m) = InvalidRequest" "err_message (invalid_request m) = m"
  "err_dpop (invalid_request m) = False"
  by (simp_all add: invalid_token_def invalid_token_dpop_def invalid_request_def)

lemma status_cases: "status e = (if err_kind e = ReplayStoreUnavailable then 503 else 401)"
  by (cases "err_kind e") (simp_all add: status_def)

subsection \<open>Reading the header back\<close>

text \<open>
  The reader a client runs: a scheme up to the first space, then parameters
  \<open>name="quoted-string"\<close> separated by a comma and a space, to the end of the value.
\<close>

definition read_param :: "string \<Rightarrow> ((string \<times> string) \<times> string) option" where
  "read_param s =
     (let name = takeWhile (\<lambda>c. c \<noteq> CHR ''='') s in
      case drop (length name) s of
        e # q # r \<Rightarrow>
          if q = CHR 0x22 then map_option (\<lambda>(v, rest). ((name, v), rest)) (read_quoted r) else None
      | _ \<Rightarrow> None)"

fun read_params :: "nat \<Rightarrow> string \<Rightarrow> (string \<times> string) list option" where
  "read_params 0 s = None"
| "read_params (Suc n) s =
     (case read_param s of
        None \<Rightarrow> None
      | Some (p, rest) \<Rightarrow>
          if rest = [] then Some [p]
          else if take 2 rest = '', '' then map_option ((#) p) (read_params n (drop 2 rest))
          else None)"

definition read_challenge :: "string \<Rightarrow> (string \<times> (string \<times> string) list) option" where
  "read_challenge s =
     (let scheme = takeWhile (\<lambda>c. c \<noteq> CHR '' '') s in
      map_option (Pair scheme) (read_params (length s) (drop (Suc (length scheme)) s)))"

definition quoted_param :: "string \<times> string \<Rightarrow> string" where
  "quoted_param p = param (fst p) (escape_quotes (snd p))"

lemma read_param_quoted:
  assumes "CHR ''='' \<notin> set (fst p)"
  shows "read_param (quoted_param p @ rest) = Some (p, rest)"
proof -
  have tw: "takeWhile (\<lambda>c. c \<noteq> CHR ''='') (fst p @ CHR ''='' # t) = fst p" for t
    using assms by (subst takeWhile_append2) auto
  show ?thesis
    by (simp add: read_param_def quoted_param_def param_def tw read_quoted_escape)
qed

lemma read_params_quoted:
  assumes "\<forall>p \<in> set ps. CHR ''='' \<notin> set (fst p)" and "ps \<noteq> []" and "length ps \<le> n"
  shows "read_params n (join_with '', '' (map quoted_param ps)) = Some ps"
  using assms
proof (induction ps arbitrary: n)
  case (Cons p ps)
  then obtain m where n: "n = Suc m" "length ps \<le> m" by (cases n) auto
  have p: "CHR ''='' \<notin> set (fst p)" using Cons.prems by simp
  show ?case
  proof (cases ps)
    case Nil
    then show ?thesis using n read_param_quoted [OF p, of "[]"] by simp
  next
    case (Cons q qs)
    then have "read_params m (join_with '', '' (map quoted_param ps)) = Some ps"
      using Cons.IH Cons.prems n by simp
    then show ?thesis
      using n Cons read_param_quoted [OF p, of "'', '' @ join_with '', '' (map quoted_param ps)"]
      by simp
  qed
qed simp

lemma length_join_params: "length ps \<le> length (join_with '', '' (map quoted_param ps))"
proof (induction ps)
  case (Cons p ps)
  have "1 \<le> length (quoted_param p)" by (simp add: quoted_param_def param_def)
  with Cons show ?case by (cases ps) (simp_all del: length_greater_0_conv)
qed simp

lemma read_challenge_quoted:
  assumes "CHR '' '' \<notin> set scheme" and "ps \<noteq> []" and "\<forall>p \<in> set ps. CHR ''='' \<notin> set (fst p)"
  shows "read_challenge (scheme @ '' '' @ join_with '', '' (map quoted_param ps)) = Some (scheme, ps)"
proof -
  let ?body = "join_with '', '' (map quoted_param ps)"
  have tw: "takeWhile (\<lambda>c. c \<noteq> CHR '' '') (scheme @ CHR '' '' # ?body) = scheme"
    using assms(1) by (subst takeWhile_append2) auto
  have "length ps \<le> length (scheme @ CHR '' '' # ?body)"
    using length_join_params [of ps] by simp
  then have "read_params (length (scheme @ CHR '' '' # ?body)) ?body = Some ps"
    by (rule read_params_quoted [OF assms(3,2)])
  then show ?thesis
    by (simp add: read_challenge_def tw)
qed

text \<open>C29: the challenge header is injection-free. Whatever bytes the error message and the issuer
  list hold, a client that reads the header gets back the scheme, the error code, the message, the
  issuers joined by spaces and, under DPoP, the algorithms, and no other parameter. The algorithm
  names are written without escaping, so they must hold no quote and no backslash.\<close>
theorem challenge_roundtrip:
  assumes "CHR 0x22 \<notin> set (join_with '' '' algs)" and "CHR 0x5C \<notin> set (join_with '' '' algs)"
  shows "read_challenge (www_authenticate e issuers algs require_dpop) =
     Some (if err_dpop e \<or> require_dpop then ''DPoP'' else ''Bearer'',
           [(''error'', code (err_kind e)), (''error_description'', err_message e),
            (''scope'', ''webid''), (''issuer'', join_with '' '' issuers)]
           @ (if err_dpop e \<or> require_dpop then [(''algs'', join_with '' '' algs)] else []))"
proof -
  let ?d = "err_dpop e \<or> require_dpop"
  let ?ps = "[(''error'', code (err_kind e)), (''error_description'', err_message e),
      (''scope'', ''webid''), (''issuer'', join_with '' '' issuers)]
      @ (if ?d then [(''algs'', join_with '' '' algs)] else [])"
  let ?scheme = "if ?d then ''DPoP'' else ''Bearer''"
  let ?body = "join_with '', '' (map quoted_param ?ps)"
  have code_plain: "escape_quotes (code (err_kind e)) = code (err_kind e)"
    by (cases "err_kind e") simp_all
  have www: "www_authenticate e issuers algs require_dpop = ?scheme @ '' '' @ ?body"
    using assms by (auto simp: www_authenticate_def quoted_param_def code_plain escape_quoted_def
        escape_quotes_id simp flip: escape_quotes_def)
  have "read_challenge (?scheme @ '' '' @ ?body) = Some (?scheme, ?ps)"
    by (rule read_challenge_quoted) auto
  then show ?thesis unfolding www by simp
qed

theorem challenge_roundtrip_witness:
  "read_challenge (www_authenticate (invalid_token_dpop [CHR 0x22, CHR 0x5C]) [''https://idp'']
       [''ES256'', ''RS256''] True) =
     Some (''DPoP'', [(''error'', ''invalid_token''), (''error_description'', [CHR 0x22, CHR 0x5C]),
       (''scope'', ''webid''), (''issuer'', ''https://idp''), (''algs'', ''ES256 RS256'')])"
  using challenge_roundtrip [of "[''ES256'', ''RS256'']"
      "invalid_token_dpop [CHR 0x22, CHR 0x5C]" "[''https://idp'']" True]
  by simp

end
