(* ===== verification/Json.thy ===== *)
theory Json
  imports Prelude
begin

section \<open>JSON values\<close>

text \<open>
  The values \<open>serde_json::Value\<close> that the source matches on, with the accessors it calls. Parsing
  bytes into such a value is \<open>serde_json\<close>'s and stays a parameter (theory \<open>Crates\<close>). An object is
  the list of its members in key order, and a lookup is by key.
\<close>

datatype json_number = PosInt int | NegInt int | Float string

datatype json =
    VNull
  | VBool bool
  | VNumber json_number
  | VString string
  | VArray "json list"
  | VObject "(string \<times> json) list"

type_synonym claims = "(string \<times> json) list"

fun as_str :: "json \<Rightarrow> string option" where
  "as_str (VString s) = Some s"
| "as_str _ = None"

fun as_object :: "json \<Rightarrow> claims option" where
  "as_object (VObject m) = Some m"
| "as_object _ = None"

fun as_array :: "json \<Rightarrow> json list option" where
  "as_array (VArray vs) = Some vs"
| "as_array _ = None"

text \<open>\<open>as_i64\<close>: an integer that fits, never a float and never a larger integer.\<close>

fun as_i64 :: "json \<Rightarrow> int option" where
  "as_i64 (VNumber (PosInt n)) = (if in_i64 n then Some n else None)"
| "as_i64 (VNumber (NegInt n)) = (if in_i64 n then Some n else None)"
| "as_i64 _ = None"

text \<open>\<open>Map::get\<close> on the members, and \<open>Value::get\<close>, which is \<open>None\<close> on anything but an object.\<close>

definition member :: "claims \<Rightarrow> string \<Rightarrow> json option" where
  "member m k = map_of m k"

fun value_get :: "json \<Rightarrow> string \<Rightarrow> json option" where
  "value_get (VObject m) k = member m k"
| "value_get _ k = None"

definition str_claim :: "claims \<Rightarrow> string \<Rightarrow> string option" where
  "str_claim c k = Option.bind (member c k) as_str"

definition i64_claim :: "claims \<Rightarrow> string \<Rightarrow> int option" where
  "i64_claim c k = Option.bind (member c k) as_i64"

lemma as_i64_range: "as_i64 v = Some n \<Longrightarrow> in_i64 n"
  by (cases v rule: as_i64.cases) (auto split: if_splits)

lemma i64_claim_range: "i64_claim c k = Some n \<Longrightarrow> in_i64 n"
  by (auto simp: i64_claim_def bind_eq_Some_conv dest: as_i64_range)

lemma as_object_Some: "as_object v = Some m \<longleftrightarrow> v = VObject m"
  by (cases v) auto

lemma as_str_Some: "as_str v = Some s \<longleftrightarrow> v = VString s"
  by (cases v) auto

end
