(* ===== verification/Crates.thy ===== *)
theory Crates
  imports Json
begin

section \<open>What the crate takes from other crates\<close>

text \<open>
  The code outside \<open>src/\<close> that the verification core calls: \<open>base64\<close> (\<open>URL_SAFE_NO_PAD\<close>),
  \<open>sha2\<close>, \<open>serde_json\<close> (the parser and the derived \<open>Deserialize\<close> of \<open>Jwk\<close>), \<open>jsonwebtoken\<close>,
  \<open>p521\<close> and \<open>url\<close>. Each is a field of a record that the definitions take as an argument, so
  every theorem holds for every behaviour of these crates unless it names a hypothesis. The
  key and signature types of the two crypto backends and the parsed URL are type variables.
\<close>

subsection \<open>The JWK record (jwk.rs)\<close>

record jwk =
  jwk_kty :: string
  jwk_crv :: "string option"
  jwk_x :: "string option"
  jwk_y :: "string option"
  jwk_n :: "string option"
  jwk_e :: "string option"
  jwk_d :: "string option"
  jwk_p :: "string option"
  jwk_q :: "string option"
  jwk_dp :: "string option"
  jwk_dq :: "string option"
  jwk_qi :: "string option"
  jwk_alg :: "string option"
  jwk_use :: "string option"
  jwk_kid :: "string option"

subsection \<open>Signature algorithms of jsonwebtoken\<close>

datatype algorithm = ES256 | ES384 | PS256 | PS384 | PS512 | RS256 | RS384 | RS512 | EdDSA

subsection \<open>The crates as parameters\<close>

text \<open>
  \<open>jwt_decode token key alg\<close> is \<open>jsonwebtoken::decode\<close> with every claim check off and the
  single permitted algorithm \<open>alg\<close>; its error is the text of the crate's error. \<open>es512\<close> is the
  Cargo feature, \<open>overflow_checks\<close> the build profile.
\<close>

record ('k, 'p, 's) crates =
  es512 :: bool
  overflow_checks :: bool
  unicode_lower :: "string \<Rightarrow> string"
  b64_encode :: "bytes \<Rightarrow> string"
  b64_decode :: "string \<Rightarrow> bytes option"
  sha256 :: "bytes \<Rightarrow> bytes"
  json_parse :: "bytes \<Rightarrow> json option"
  jwk_from_value :: "json \<Rightarrow> jwk option"
  key_from_ec :: "string \<Rightarrow> string \<Rightarrow> string + 'k"
  key_from_rsa :: "string \<Rightarrow> string \<Rightarrow> string + 'k"
  key_from_ed :: "string \<Rightarrow> string + 'k"
  jwt_decode :: "string \<Rightarrow> 'k \<Rightarrow> algorithm \<Rightarrow> string + claims"
  p521_key :: "bytes \<Rightarrow> 'p option"
  p521_signature :: "bytes \<Rightarrow> 's option"
  p521_verify :: "'p \<Rightarrow> bytes \<Rightarrow> 's \<Rightarrow> bool"

record 'u url_crate =
  url_parse :: "string \<Rightarrow> 'u option"
  url_to_string :: "'u \<Rightarrow> string"
  url_scheme :: "'u \<Rightarrow> string"
  url_username :: "'u \<Rightarrow> string"
  url_password :: "'u \<Rightarrow> string option"
  url_host_str :: "'u \<Rightarrow> string option"
  url_port_or_known_default :: "'u \<Rightarrow> nat option"
  url_path :: "'u \<Rightarrow> string"
  url_set_path :: "string \<Rightarrow> 'u \<Rightarrow> 'u"
  url_set_query_none :: "'u \<Rightarrow> 'u"
  url_set_fragment_none :: "'u \<Rightarrow> 'u"
  url_set_username :: "string \<Rightarrow> 'u \<Rightarrow> 'u"
  url_set_password_none :: "'u \<Rightarrow> 'u"
  url_join :: "'u \<Rightarrow> string \<Rightarrow> 'u option"

text \<open>
  \<open>str::to_lowercase\<close>: ASCII bytes are lowered one by one; a string with other characters goes
  through the Unicode tables of the standard library, which are not spelled out here.
\<close>

definition to_lowercase :: "('k, 'p, 's) crates \<Rightarrow> string \<Rightarrow> string" where
  "to_lowercase E s = (if is_ascii s then map ascii_lower s else unicode_lower E s)"

end
