(* ===== verification/Samples.thy ===== *)
theory Samples
  imports Crates
begin

section \<open>Concrete crates for the witnesses\<close>

text \<open>
  Small concrete instances of the crate parameters. They satisfy the hypotheses that theorems
  name and let witnesses evaluate the model; no theorem about the program rests on them.
  Base64 and SHA-256 are the identity, parsing looks a payload up in a table, a signature
  verifies when it is the text of the key, and a URL is split by hand.
\<close>

definition sample_decode :: "(bytes \<times> json) list \<Rightarrow> string \<Rightarrow> string \<Rightarrow> string + claims" where
  "sample_decode table token key =
     (case split_on (CHR ''.'') token of
        [h, p, s] \<Rightarrow>
          (if s = key then
             (case map_of table p of Some (VObject m) \<Rightarrow> Inr m | _ \<Rightarrow> Inl ''Json'')
           else Inl ''InvalidSignature'')
      | _ \<Rightarrow> Inl ''InvalidToken'')"

text \<open>The derived \<open>Deserialize\<close> on an object: \<open>kty\<close> is required, a present member is a string.\<close>

definition opt_member :: "claims \<Rightarrow> string \<Rightarrow> string option option" where
  "opt_member m k =
     (case member m k of
        None \<Rightarrow> Some None | Some VNull \<Rightarrow> Some None | Some (VString s) \<Rightarrow> Some (Some s)
      | Some _ \<Rightarrow> None)"

definition sample_jwk :: "json \<Rightarrow> jwk option" where
  "sample_jwk v =
     (case as_object v of
        None \<Rightarrow> None
      | Some m \<Rightarrow>
          (case (str_claim m ''kty'',
                 map (opt_member m) [''crv'', ''x'', ''y'', ''n'', ''e'', ''d'', ''p'', ''q'',
                   ''dp'', ''dq'', ''qi'', ''alg'', ''use'', ''kid'']) of
             (Some kty, [Some crv, Some x, Some y, Some n, Some e, Some d, Some p, Some q,
                Some dp, Some dq, Some qi, Some alg, Some u, Some kid]) \<Rightarrow>
               Some \<lparr>jwk_kty = kty, jwk_crv = crv, jwk_x = x, jwk_y = y, jwk_n = n, jwk_e = e,
                 jwk_d = d, jwk_p = p, jwk_q = q, jwk_dp = dp, jwk_dq = dq, jwk_qi = qi,
                 jwk_alg = alg, jwk_use = u, jwk_kid = kid\<rparr>
           | _ \<Rightarrow> None))"

definition sample_crates :: "(bytes \<times> json) list \<Rightarrow> (string, string, string) crates" where
  "sample_crates table =
     \<lparr>es512 = False, overflow_checks = True, unicode_lower = (\<lambda>s. s),
      b64_encode = (\<lambda>b. b), b64_decode = Some, sha256 = (\<lambda>b. b),
      json_parse = map_of table, jwk_from_value = sample_jwk,
      key_from_ec = (\<lambda>x y. Inr x), key_from_rsa = (\<lambda>n e. Inr n), key_from_ed = Inr,
      jwt_decode = (\<lambda>token key alg. sample_decode table token key),
      p521_key = Some, p521_signature = Some, p521_verify = (\<lambda>k m s. k = s)\<rparr>"

definition ec_jwk :: "string \<Rightarrow> jwk" where
  "ec_jwk key = \<lparr>jwk_kty = ''EC'', jwk_crv = Some ''P-256'', jwk_x = Some key, jwk_y = Some ''y'',
     jwk_n = None, jwk_e = None, jwk_d = None, jwk_p = None, jwk_q = None, jwk_dp = None,
     jwk_dq = None, jwk_qi = None, jwk_alg = None, jwk_use = None, jwk_kid = None\<rparr>"

text \<open>A URL as scheme, userinfo, host and the rest (path, query and fragment).\<close>

type_synonym sample_url = "string \<times> string \<times> string \<times> string"

definition sample_url_parse :: "string \<Rightarrow> sample_url option" where
  "sample_url_parse s =
     (let scheme = takeWhile (\<lambda>c. c \<noteq> CHR '':'') s;
          rest = drop (length scheme) s;
          auth = takeWhile (\<lambda>c. c \<noteq> CHR ''/'') (drop 3 rest);
          tail = drop (length auth) (drop 3 rest);
          user = (if CHR ''@'' \<in> set auth then takeWhile (\<lambda>c. c \<noteq> CHR ''@'') auth else [])
      in if take 3 rest = ''://'' \<and> auth \<noteq> []
         then Some (scheme, user, (if user = [] then auth else drop (Suc (length user)) auth), tail)
         else None)"

definition sample_url_crate :: "sample_url url_crate" where
  "sample_url_crate =
     \<lparr>url_parse = sample_url_parse,
      url_to_string = (\<lambda>(s, u, h, t). s @ ''://'' @ (if u = [] then [] else u @ ''@'') @ h @ t),
      url_scheme = (\<lambda>(s, u, h, t). s),
      url_username = (\<lambda>(s, u, h, t). u), url_password = (\<lambda>_. None),
      url_host_str = (\<lambda>(s, u, h, t). Some h), url_port_or_known_default = (\<lambda>_. Some 443),
      url_path = (\<lambda>(s, u, h, t). takeWhile (\<lambda>c. c \<noteq> CHR ''?'' \<and> c \<noteq> CHR ''#'') t),
      url_set_path = (\<lambda>p (s, u, h, t). (s, u, h, p)),
      url_set_query_none = (\<lambda>(s, u, h, t). (s, u, h, takeWhile (\<lambda>c. c \<noteq> CHR ''?'') t)),
      url_set_fragment_none = (\<lambda>(s, u, h, t). (s, u, h, takeWhile (\<lambda>c. c \<noteq> CHR ''#'') t)),
      url_set_username = (\<lambda>n (s, u, h, t). (s, n, h, t)), url_set_password_none = (\<lambda>x. x),
      url_join = (\<lambda>(s, u, h, t) r. Some (s, u, h, t @ r))\<rparr>"

lemmas sample_simps = sample_crates_def sample_decode_def sample_jwk_def opt_member_def
  sample_url_crate_def sample_url_parse_def ec_jwk_def

end
