(* ===== verification/Jwk.thy ===== *)
theory Jwk
  imports Errors Samples
begin

section \<open>JWKs, the algorithm allowlist and RFC 7638 thumbprints (jwk.rs)\<close>

text \<open>
  The policy allowlist, the predicate that says which of its algorithms can be verified in this
  build, the tests for private and symmetric keys, and the SHA-256 thumbprint over the canonical
  JSON of a key. The main lemma is that the canonical JSON determines the public key, so two keys
  with one thumbprint are the same key unless SHA-256 collides.
\<close>

definition SIGNING_ALGS :: "string list" where
  "SIGNING_ALGS = [''ES256'', ''ES384'', ''ES512'', ''PS256'', ''PS384'', ''PS512'', ''RS256'',
     ''RS384'', ''RS512'', ''EdDSA'']"

definition DPOP_ALGS :: "string list" where
  "DPOP_ALGS = SIGNING_ALGS"

definition ES512_KNOWN_NARROWING :: string where
  "ES512_KNOWN_NARROWING = ''ES512 is in the policy allowlist but unverifiable without the `es512` feature; rejected (see KNOWN NARROWING).''"

definition alg_is_verifiable :: "('k, 'p, 's) crates \<Rightarrow> string \<Rightarrow> bool" where
  "alg_is_verifiable E alg =
     (if alg \<in> set [''ES256'', ''ES384'', ''PS256'', ''PS384'', ''PS512'', ''RS256'', ''RS384'',
        ''RS512'', ''EdDSA''] then True
      else if es512 E \<and> alg = ''ES512'' then True else False)"

definition alg_in_policy :: "string \<Rightarrow> bool" where
  "alg_in_policy alg \<longleftrightarrow> alg \<in> set SIGNING_ALGS"

definition has_private_material :: "jwk \<Rightarrow> bool" where
  "has_private_material k \<longleftrightarrow>
     jwk_d k \<noteq> None \<or> jwk_p k \<noteq> None \<or> jwk_q k \<noteq> None \<or> jwk_dp k \<noteq> None \<or>
     jwk_dq k \<noteq> None \<or> jwk_qi k \<noteq> None"

definition is_symmetric :: "jwk \<Rightarrow> bool" where
  "is_symmetric k \<longleftrightarrow> eq_ignore_ascii_case (jwk_kty k) ''oct''"

datatype jwk_error = MissingMember string | UnsupportedKty string

fun display_jwk_error :: "jwk_error \<Rightarrow> string" where
  "display_jwk_error (MissingMember m) = ''JWK is missing the required member '' @ [CHR 0x27] @ m @ [CHR 0x27]"
| "display_jwk_error (UnsupportedKty k) = ''unsupported JWK key type '' @ [CHR 0x27] @ k @ [CHR 0x27]"

definition json_escape :: "string \<Rightarrow> string" where
  "json_escape s =
     replace_char (CHR 0x22) [CHR 0x5C, CHR 0x22] (replace_char (CHR 0x5C) [CHR 0x5C, CHR 0x5C] s)"

text \<open>A member \<open>"name":"value"\<close> of the canonical JSON.\<close>

definition json_member :: "string \<Rightarrow> string \<Rightarrow> string" where
  "json_member name v = [CHR 0x22] @ name @ [CHR 0x22] @ '':'' @ [CHR 0x22] @ v @ [CHR 0x22]"

definition canonical_jwk :: "jwk \<Rightarrow> (jwk_error, string) outcome" where
  "canonical_jwk k =
     (if jwk_kty k = ''EC'' then
        and_then (ok_or (jwk_crv k) (MissingMember ''crv'')) (\<lambda>crv.
        and_then (ok_or (jwk_x k) (MissingMember ''x'')) (\<lambda>x.
        and_then (ok_or (jwk_y k) (MissingMember ''y'')) (\<lambda>y.
        Ok (''{'' @ json_member ''crv'' (json_escape crv) @ '','' @ json_member ''kty'' ''EC'' @ '','' @
            json_member ''x'' (json_escape x) @ '','' @ json_member ''y'' (json_escape y) @ ''}''))))
      else if jwk_kty k = ''RSA'' then
        and_then (ok_or (jwk_e k) (MissingMember ''e'')) (\<lambda>e.
        and_then (ok_or (jwk_n k) (MissingMember ''n'')) (\<lambda>n.
        Ok (''{'' @ json_member ''e'' (json_escape e) @ '','' @ json_member ''kty'' ''RSA'' @ '','' @
            json_member ''n'' (json_escape n) @ ''}'')))
      else if jwk_kty k = ''OKP'' then
        and_then (ok_or (jwk_crv k) (MissingMember ''crv'')) (\<lambda>crv.
        and_then (ok_or (jwk_x k) (MissingMember ''x'')) (\<lambda>x.
        Ok (''{'' @ json_member ''crv'' (json_escape crv) @ '','' @ json_member ''kty'' ''OKP'' @ '','' @
            json_member ''x'' (json_escape x) @ ''}'')))
      else Err (UnsupportedKty (jwk_kty k)))"

definition thumbprint_sha256 :: "('k, 'p, 's) crates \<Rightarrow> jwk \<Rightarrow> (jwk_error, string) outcome" where
  "thumbprint_sha256 E k =
     and_then (canonical_jwk k) (\<lambda>canonical. Ok (b64_encode E (sha256 E canonical)))"

lemma alg_verifiable_in_policy: "alg_is_verifiable E alg \<Longrightarrow> alg_in_policy alg"
  by (auto simp: alg_is_verifiable_def alg_in_policy_def SIGNING_ALGS_def split: if_splits)

lemma alg_is_verifiable_ES512 [simp]: "alg_is_verifiable E ''ES512'' \<longleftrightarrow> es512 E"
  by (simp add: alg_is_verifiable_def)

lemma alg_in_policy_cases:
  "alg_in_policy alg \<Longrightarrow> alg_is_verifiable E alg \<or> alg = ''ES512'' \<and> \<not> es512 E"
  by (auto simp: alg_is_verifiable_def alg_in_policy_def SIGNING_ALGS_def)

subsection \<open>The canonical JSON determines the key\<close>

text \<open>The public key a JWK stands for: its type and the members RFC 7638 requires for it.\<close>

definition public_key :: "jwk \<Rightarrow> string \<times> (string \<times> string option) list" where
  "public_key k =
     (jwk_kty k,
      if jwk_kty k = ''EC'' then [(''crv'', jwk_crv k), (''x'', jwk_x k), (''y'', jwk_y k)]
      else if jwk_kty k = ''RSA'' then [(''e'', jwk_e k), (''n'', jwk_n k)]
      else if jwk_kty k = ''OKP'' then [(''crv'', jwk_crv k), (''x'', jwk_x k)]
      else [])"

lemma json_escape_cancel:
  "json_escape a @ CHR 0x22 # r = json_escape b @ CHR 0x22 # t \<longleftrightarrow> a = b \<and> r = t"
  using escape_quotes_cancel [of a r b t] by (auto simp: json_escape_def simp flip: escape_quotes_def)

lemma json_escape_inj: "json_escape a = json_escape b \<longleftrightarrow> a = b"
  using json_escape_cancel [of a "[]" b "[]"] by auto

lemma canonical_jwk_inj:
  assumes "canonical_jwk a = Ok s" and "canonical_jwk b = Ok s"
  shows "public_key a = public_key b"
  using assms
  by (auto simp: canonical_jwk_def outcome_simps json_member_def json_escape_cancel json_escape_inj
      public_key_def       split: if_splits)

text \<open>C30: a thumbprint identifies the key. If two JWKs have the same RFC 7638 thumbprint, then they
  have the same key type and the same required members, whatever characters the members hold,
  provided base64url encoding is injective and SHA-256 does not collide on their two canonical
  forms. So \<open>cnf.jkt\<close> binds a token to one public key.\<close>
theorem thumbprint_binds_key:
  assumes "thumbprint_sha256 E a = Ok t" and "thumbprint_sha256 E b = Ok t"
    and "\<And>u v. b64_encode E u = b64_encode E v \<Longrightarrow> u = v"
    and "\<And>u v. canonical_jwk a = Ok u \<Longrightarrow> canonical_jwk b = Ok v \<Longrightarrow> sha256 E u = sha256 E v \<Longrightarrow> u = v"
  shows "public_key a = public_key b"
proof -
  obtain u v where "canonical_jwk a = Ok u" "canonical_jwk b = Ok v"
    and "b64_encode E (sha256 E u) = b64_encode E (sha256 E v)"
    using assms(1,2) by (auto simp: thumbprint_sha256_def outcome_simps)
  then show ?thesis
    using assms(3,4) canonical_jwk_inj by metis
qed

theorem thumbprint_binds_key_witness:
  "public_key (ec_jwk ''k'') = public_key (ec_jwk ''k''\<lparr>jwk_kid := Some ''1''\<rparr>)"
proof (rule thumbprint_binds_key [where E = "sample_crates []" and a = "ec_jwk ''k''"
      and t = "case canonical_jwk (ec_jwk ''k'') of Ok u \<Rightarrow> u"])
qed (simp_all add: thumbprint_sha256_def sample_simps canonical_jwk_def)

end
