(* ===== verification/Ipaddr.thy ===== *)
theory Ipaddr
  imports Prelude "HOL-Library.Word"
begin

section \<open>IP addresses of the standard library\<close>

text \<open>
  \<open>std::net::Ipv4Addr\<close> as its four octets, \<open>Ipv6Addr\<close> as its eight segments, and \<open>FromStr\<close> of
  both: the parser of \<open>core::net\<close>, which reads decimal octets without leading zeros, hexadecimal
  groups of at most four digits, one \<open>::\<close>, and a trailing dotted quad.
\<close>

unbundle bit_operations_syntax

type_synonym u8 = "8 word"
type_synonym u16 = "16 word"
type_synonym u32 = "32 word"
type_synonym u128 = "128 word"

datatype ipv4 = V4 u8 u8 u8 u8

type_synonym ipv6 = "u16 list"

datatype ip_addr = IpV4 ipv4 | IpV6 ipv6

fun octets :: "ipv4 \<Rightarrow> u8 list" where
  "octets (V4 a b c d) = [a, b, c, d]"

definition ipv4_from_u32 :: "u32 \<Rightarrow> ipv4" where
  "ipv4_from_u32 v = V4 (ucast (drop_bit 24 v)) (ucast (drop_bit 16 v)) (ucast (drop_bit 8 v)) (ucast v)"

definition LOCALHOST :: ipv6 where
  "LOCALHOST = [0, 0, 0, 0, 0, 0, 0, 1]"

definition UNSPECIFIED :: ipv6 where
  "UNSPECIFIED = [0, 0, 0, 0, 0, 0, 0, 0]"

definition high_byte :: "u16 \<Rightarrow> u8" where
  "high_byte s = ucast (drop_bit 8 s)"

definition low_byte :: "u16 \<Rightarrow> u8" where
  "low_byte s = ucast (s AND 0xff)"

text \<open>\<open>Ipv6Addr::to_ipv4_mapped\<close>: the prefix \<open>::ffff:0:0/96\<close> exactly.\<close>

definition to_ipv4_mapped :: "ipv6 \<Rightarrow> ipv4 option" where
  "to_ipv4_mapped a =
     (if take 6 a = [0, 0, 0, 0, 0, 0xffff]
      then Some (V4 (high_byte (a ! 6)) (low_byte (a ! 6)) (high_byte (a ! 7)) (low_byte (a ! 7)))
      else None)"

subsection \<open>Parsing\<close>

definition digit_value :: "char \<Rightarrow> nat option" where
  "digit_value c =
     (let n = (of_char c :: nat) in
      if 48 \<le> n \<and> n \<le> 57 then Some (n - 48)
      else if 97 \<le> n \<and> n \<le> 102 then Some (n - 87)
      else if 65 \<le> n \<and> n \<le> 70 then Some (n - 55)
      else None)"

definition is_digit :: "nat \<Rightarrow> char \<Rightarrow> bool" where
  "is_digit radix c \<longleftrightarrow> (case digit_value c of Some v \<Rightarrow> v < radix | None \<Rightarrow> False)"

definition digits_value :: "nat \<Rightarrow> string \<Rightarrow> nat" where
  "digits_value radix ds = foldl (\<lambda>r c. r * radix + the (digit_value c)) 0 ds"

text \<open>\<open>read_number\<close>: all the digits there are, at most \<open>max_digits\<close> of them.\<close>

definition read_number :: "nat \<Rightarrow> nat \<Rightarrow> bool \<Rightarrow> nat \<Rightarrow> string \<Rightarrow> (nat \<times> string) option" where
  "read_number radix max_digits allow_zero_prefix max_value s =
     (let ds = takeWhile (is_digit radix) s in
      if ds = [] \<or> max_digits < length ds then None
      else if \<not> allow_zero_prefix \<and> hd ds = CHR ''0'' \<and> 1 < length ds then None
      else if max_value < digits_value radix ds then None
      else Some (digits_value radix ds, drop (length ds) s))"

fun read_given_char :: "char \<Rightarrow> string \<Rightarrow> string option" where
  "read_given_char c [] = None"
| "read_given_char c (x # s) = (if x = c then Some s else None)"

definition read_separator :: "char \<Rightarrow> nat \<Rightarrow> (string \<Rightarrow> ('a \<times> string) option) \<Rightarrow> string \<Rightarrow> ('a \<times> string) option" where
  "read_separator sep index inner s =
     (if 0 < index then Option.bind (read_given_char sep s) inner else inner s)"

definition read_octet :: "nat \<Rightarrow> string \<Rightarrow> (nat \<times> string) option" where
  "read_octet i = read_separator (CHR ''.'') i (read_number 10 3 False 255)"

definition read_ipv4_addr :: "string \<Rightarrow> (ipv4 \<times> string) option" where
  "read_ipv4_addr s =
     Option.bind (read_octet 0 s) (\<lambda>(a, s).
     Option.bind (read_octet 1 s) (\<lambda>(b, s).
     Option.bind (read_octet 2 s) (\<lambda>(c, s).
     Option.bind (read_octet 3 s) (\<lambda>(d, s).
     Some (V4 (of_nat a) (of_nat b) (of_nat c) (of_nat d), s)))))"

definition v4_groups :: "ipv4 \<Rightarrow> u16 list" where
  "v4_groups v = (case v of V4 a b c d \<Rightarrow>
     [push_bit 8 (ucast a) OR ucast b, push_bit 8 (ucast c) OR ucast d])"

text \<open>
  \<open>read_groups\<close>: groups from index \<open>i\<close> to \<open>limit\<close>, the result with the groups read so far in
  front and a flag for a trailing dotted quad. The first argument is \<open>limit - i\<close>.
\<close>

fun read_groups :: "nat \<Rightarrow> nat \<Rightarrow> u16 list \<Rightarrow> string \<Rightarrow> u16 list \<times> bool \<times> string" where
  "read_groups 0 i acc s = (acc, False, s)"
| "read_groups (Suc left) i acc s =
     (case (if 0 < left then read_separator (CHR '':'') i read_ipv4_addr s else None) of
        Some (v, s') \<Rightarrow> (acc @ v4_groups v, True, s')
      | None \<Rightarrow>
          (case read_separator (CHR '':'') i (read_number 16 4 True 0xffff) s of
             Some (g, s') \<Rightarrow> read_groups left (Suc i) (acc @ [of_nat g]) s'
           | None \<Rightarrow> (acc, False, s)))"

definition read_ipv6_addr :: "string \<Rightarrow> (ipv6 \<times> string) option" where
  "read_ipv6_addr s =
     (case read_groups 8 0 [] s of (head, head_ipv4, s1) \<Rightarrow>
        if length head = 8 then Some (head, s1)
        else if head_ipv4 then None
        else
          Option.bind (Option.bind (read_given_char (CHR '':'') s1) (read_given_char (CHR '':'')))
            (\<lambda>s2. case read_groups (7 - length head) 0 [] s2 of (tail, _, s3) \<Rightarrow>
               Some (head @ replicate (8 - length head - length tail) 0 @ tail, s3)))"

definition parse_ipv4 :: "string \<Rightarrow> ipv4 option" where
  "parse_ipv4 s =
     (if 15 < length s then None
      else (case read_ipv4_addr s of Some (v, rest) \<Rightarrow> if rest = [] then Some v else None | None \<Rightarrow> None))"

definition parse_ipv6 :: "string \<Rightarrow> ipv6 option" where
  "parse_ipv6 s =
     (case read_ipv6_addr s of Some (v, rest) \<Rightarrow> if rest = [] then Some v else None | None \<Rightarrow> None)"

definition parse_ip_addr :: "string \<Rightarrow> ip_addr option" where
  "parse_ip_addr s =
     (case read_ipv4_addr s of
        Some (v, rest) \<Rightarrow> if rest = [] then Some (IpV4 v) else None
      | None \<Rightarrow>
          (case read_ipv6_addr s of
             Some (v, rest) \<Rightarrow> if rest = [] then Some (IpV6 v) else None | None \<Rightarrow> None))"

lemma read_groups_length: "read_groups n i acc s = (gs, f, r) \<Longrightarrow> length gs \<le> length acc + n"
proof (induction n arbitrary: i acc s)
  case (Suc n)
  then show ?case
    by (fastforce simp: v4_groups_def split: option.splits prod.splits if_splits ipv4.splits)
qed auto

lemma read_ipv6_length:
  assumes "read_ipv6_addr s = Some (a, r)"
  shows "length a = 8"
proof -
  obtain hd4 f s1 where h: "read_groups 8 0 [] s = (hd4, f, s1)"
    by (cases "read_groups 8 0 [] s") auto
  have *: "length hd4 \<le> 8"
    using read_groups_length [OF h] by simp
  show ?thesis
  proof (cases "length hd4 = 8")
    case True
    then show ?thesis using assms h by (simp add: read_ipv6_addr_def)
  next
    case False
    then obtain s2 where s2: "(case read_groups (7 - length hd4) 0 [] s2 of (tl4, _, s3) \<Rightarrow>
        Some (hd4 @ replicate (8 - length hd4 - length tl4) 0 @ tl4, s3)) = Some (a, r)"
      using assms h by (auto simp: read_ipv6_addr_def bind_eq_Some_conv split: if_splits)
    obtain tl4 g s3 where t: "read_groups (7 - length hd4) 0 [] s2 = (tl4, g, s3)"
      by (cases "read_groups (7 - length hd4) 0 [] s2") auto
    then have "a = hd4 @ replicate (8 - length hd4 - length tl4) 0 @ tl4"
      using s2 by simp
    then show ?thesis
      using read_groups_length [OF t] * False by simp
  qed
qed

lemma parse_ipv6_length: "parse_ipv6 s = Some a \<Longrightarrow> length a = 8"
  by (auto simp: parse_ipv6_def split: option.splits if_splits dest: read_ipv6_length)

text \<open>The two bytes of a segment.\<close>

lemma bit_bytes:
  "j < 8 \<Longrightarrow> bit (low_byte s) j \<longleftrightarrow> bit s j"
  "j < 8 \<Longrightarrow> bit (high_byte s) j \<longleftrightarrow> bit s (8 + j)"
proof -
  have m: "0xff = (mask 8 :: u16)"
    by (simp add: mask_eq_exp_minus_1)
  show "j < 8 \<Longrightarrow> bit (low_byte s) j \<longleftrightarrow> bit s j"
    unfolding low_byte_def m by (auto simp: bit_simps)
qed (auto simp: high_byte_def bit_simps)

lemma segment_of_bytes: "push_bit 8 (ucast (high_byte s)) OR ucast (low_byte s) = s"
proof (rule bit_word_eqI)
  fix n assume "n < LENGTH(16)"
  then show "bit (push_bit 8 (ucast (high_byte s)) OR ucast (low_byte s) :: u16) n \<longleftrightarrow> bit s n"
    using bit_bytes(1) [of n s] bit_bytes(2) [of "n - 8" s] bit_imp_le_length [of "low_byte s" n]
    by (cases "n < 8") (auto simp: bit_simps)
qed

end
