(* ===== verification/Ssrf.thy ===== *)
theory Ssrf
  imports Ipaddr
begin

section \<open>Public-address classification: \<open>ssrf.rs\<close>\<close>

text \<open>
  The classifier that decides which addresses the network layer may contact, and the operator's
  NAT64 prefixes (RFC 6052): their parser, the masking and the bit loop that decodes the embedded
  IPv4 address. Then the specifications: the list of refused IPv4 blocks in CIDR form, the address
  classes of the IPv6 branch, and the RFC 6052 layout.
\<close>

subsection \<open>NAT64 prefixes\<close>

record nat64_nsp =
  nsp_masked :: ipv6
  nsp_prefix_len :: u8

definition VALID_LENGTHS :: "u8 list" where
  "VALID_LENGTHS = [32, 40, 48, 56, 64, 96]"

text \<open>The loop of \<open>mask_segments\<close>; the first argument is \<open>bits_remaining\<close>.\<close>

fun mask_from :: "int \<Rightarrow> u16 list \<Rightarrow> u16 list" where
  "mask_from bits_remaining [] = []"
| "mask_from bits_remaining (seg # segs) =
     (if 16 \<le> bits_remaining then seg # mask_from (bits_remaining - 16) segs
      else if bits_remaining \<le> 0 then 0 # mask_from bits_remaining segs
      else (seg AND push_bit (nat (16 - bits_remaining)) (NOT 0)) # mask_from 0 segs)"

definition mask_segments :: "ipv6 \<Rightarrow> u8 \<Rightarrow> ipv6" where
  "mask_segments segments prefix_len = mask_from (uint prefix_len) segments"

definition ipv6_bits :: "ipv6 \<Rightarrow> u128" where
  "ipv6_bits s =
     push_bit 112 (ucast (s ! 0)) OR push_bit 96 (ucast (s ! 1)) OR push_bit 80 (ucast (s ! 2))
     OR push_bit 64 (ucast (s ! 3)) OR push_bit 48 (ucast (s ! 4)) OR push_bit 32 (ucast (s ! 5))
     OR push_bit 16 (ucast (s ! 6)) OR ucast (s ! 7)"

text \<open>The loop of \<open>decode_embedded_v4\<close>: \<open>taken\<close> bits read, the next one at \<open>pos\<close>.\<close>

function decode_loop :: "u128 \<Rightarrow> u32 \<Rightarrow> nat \<Rightarrow> nat \<Rightarrow> u32" where
  "decode_loop bits v4 taken pos =
     (if taken < 32 then
        if 64 \<le> pos \<and> pos < 72 then decode_loop bits v4 taken 72
        else decode_loop bits (push_bit 1 v4 OR ucast (drop_bit (127 - pos) bits AND 1))
               (taken + 1) (pos + 1)
      else v4)"
  by pat_completeness auto
termination
  by (relation "measure (\<lambda>(bits, v4, taken, pos). 2 * (32 - taken) + (if 64 \<le> pos \<and> pos < 72 then 1 else 0))")
    auto

declare decode_loop.simps [simp del]

definition decode_embedded_v4 :: "ipv6 \<Rightarrow> u8 \<Rightarrow> ipv4" where
  "decode_embedded_v4 segments prefix_len =
     ipv4_from_u32 (decode_loop (ipv6_bits segments) 0 0 (unat prefix_len))"

definition nsp_new :: "ipv6 \<Rightarrow> u8 \<Rightarrow> string + nat64_nsp" where
  "nsp_new prefix prefix_len =
     (if prefix_len \<notin> set VALID_LENGTHS then
        Inl (''prefix length /'' @ show_nat (unat prefix_len) @ '' is not an RFC 6052 '' @
             [CHR 0xC2, CHR 0xA7] @ ''2.2 embedding length (one of 32/40/48/56/64/96)'')
      else Inr \<lparr>nsp_masked = mask_segments prefix prefix_len, nsp_prefix_len = prefix_len\<rparr>)"

text \<open>\<open>str::split_once\<close> and \<open>u8::from_str\<close> (an optional plus sign, then decimal digits).\<close>

definition split_once :: "char \<Rightarrow> string \<Rightarrow> (string \<times> string) option" where
  "split_once c s =
     (if c \<in> set s then Some (takeWhile (\<lambda>x. x \<noteq> c) s, tl (dropWhile (\<lambda>x. x \<noteq> c) s)) else None)"

definition parse_u8 :: "string \<Rightarrow> u8 option" where
  "parse_u8 s =
     (let ds = (if hd s = CHR ''+'' \<and> 1 < length s then tl s else s) in
      if s = [] \<or> \<not> list_all (is_digit 10) ds \<or> 255 < digits_value 10 ds then None
      else Some (of_nat (digits_value 10 ds)))"

definition nsp_parse :: "string \<Rightarrow> string + nat64_nsp" where
  "nsp_parse cidr =
     (case split_once (CHR ''/'') cidr of
        None \<Rightarrow> Inl (''expected `<ipv6>/<len>` form, got `'' @ cidr @ ''`'')
      | Some (addr_str, len_str) \<Rightarrow>
          (case parse_u8 (trim len_str) of
             None \<Rightarrow> Inl (''prefix length is not a number: `'' @ len_str @ ''`'')
           | Some prefix_len \<Rightarrow>
               (case parse_ipv6 (trim addr_str) of
                  None \<Rightarrow> Inl (''prefix is not an IPv6 address: `'' @ addr_str @ ''`'')
                | Some addr \<Rightarrow> nsp_new addr prefix_len)))"

definition nsp_embedded_v4 :: "nat64_nsp \<Rightarrow> ipv6 \<Rightarrow> ipv4 option" where
  "nsp_embedded_v4 nsp segments =
     (if mask_segments segments (nsp_prefix_len nsp) \<noteq> nsp_masked nsp then None
      else Some (decode_embedded_v4 segments (nsp_prefix_len nsp)))"

subsection \<open>The policy\<close>

record nat64_policy =
  nsps :: "nat64_nsp list"

definition strict :: nat64_policy where
  "strict = \<lparr>nsps = []\<rparr>"

definition with_nsps :: "nat64_nsp list \<Rightarrow> nat64_policy" where
  "with_nsps ns = \<lparr>nsps = ns\<rparr>"

fun parse_all :: "string list \<Rightarrow> string + nat64_nsp list" where
  "parse_all [] = Inr []"
| "parse_all (c # cs) =
     (case nsp_parse c of Inl e \<Rightarrow> Inl e
      | Inr n \<Rightarrow> (case parse_all cs of Inl e \<Rightarrow> Inl e | Inr ns \<Rightarrow> Inr (n # ns)))"

definition from_cidrs :: "string list \<Rightarrow> string + nat64_policy" where
  "from_cidrs cidrs = (case parse_all cidrs of Inl e \<Rightarrow> Inl e | Inr ns \<Rightarrow> Inr \<lparr>nsps = ns\<rparr>)"

definition policy_is_empty :: "nat64_policy \<Rightarrow> bool" where
  "policy_is_empty p \<longleftrightarrow> nsps p = []"

fun find_map :: "('a \<Rightarrow> 'b option) \<Rightarrow> 'a list \<Rightarrow> 'b option" where
  "find_map f [] = None"
| "find_map f (x # xs) = (case f x of Some y \<Rightarrow> Some y | None \<Rightarrow> find_map f xs)"

definition policy_embedded_v4 :: "nat64_policy \<Rightarrow> ipv6 \<Rightarrow> ipv4 option" where
  "policy_embedded_v4 p segments = find_map (\<lambda>nsp. nsp_embedded_v4 nsp segments) (nsps p)"

subsection \<open>Classification\<close>

fun is_public_ipv4 :: "ipv4 \<Rightarrow> bool \<Rightarrow> bool" where
  "is_public_ipv4 (V4 a b c d) allow_loopback =
     (if a = 0 then False
      else if a = 127 then allow_loopback
      else if a = 10 then False
      else if a = 172 \<and> 16 \<le> b \<and> b \<le> 31 then False
      else if a = 192 \<and> b = 168 then False
      else if a = 169 \<and> b = 254 then False
      else if a = 100 \<and> 64 \<le> b \<and> b \<le> 127 then False
      else if 224 \<le> a \<and> a \<le> 239 then False
      else if 240 \<le> a then False
      else if a = 192 \<and> b = 0 \<and> c = 2 then False
      else if a = 198 \<and> (b = 18 \<or> b = 19) then False
      else if a = 198 \<and> b = 51 \<and> c = 100 then False
      else if a = 203 \<and> b = 0 \<and> c = 113 then False
      else True)"

definition v4_of_segments :: "u16 \<Rightarrow> u16 \<Rightarrow> ipv4" where
  "v4_of_segments s t = V4 (high_byte s) (low_byte s) (high_byte t) (low_byte t)"

definition nat64_well_known_embedded_v4 :: "ipv6 \<Rightarrow> ipv4 option" where
  "nat64_well_known_embedded_v4 segments =
     (if segments ! 0 = 0x64 \<and> segments ! 1 = 0xff9b \<and> segments ! 2 = 0 \<and> segments ! 3 = 0
         \<and> segments ! 4 = 0 \<and> segments ! 5 = 0
      then Some (v4_of_segments (segments ! 6) (segments ! 7)) else None)"

definition is_public_ipv6 :: "ipv6 \<Rightarrow> bool \<Rightarrow> nat64_policy \<Rightarrow> bool" where
  "is_public_ipv6 addr allow_loopback nat64 =
     (if addr = LOCALHOST then allow_loopback
      else if addr = UNSPECIFIED then False
      else case to_ipv4_mapped addr of Some v4 \<Rightarrow> is_public_ipv4 v4 allow_loopback
      | None \<Rightarrow>
        if list_all (\<lambda>s. s = 0) (take 6 addr)
        then is_public_ipv4 (v4_of_segments (addr ! 6) (addr ! 7)) allow_loopback
        else
          (let high = addr ! 0 in
           if high AND 0xffc0 = 0xfe80 then False
           else if high AND 0xfe00 = 0xfc00 then False
           else if high AND 0xff00 = 0xff00 then False
           else if high = 0x2002
             then is_public_ipv4 (v4_of_segments (addr ! 1) (addr ! 2)) allow_loopback
           else case nat64_well_known_embedded_v4 addr of
                  Some v4 \<Rightarrow> is_public_ipv4 v4 allow_loopback
                | None \<Rightarrow>
                    (case policy_embedded_v4 nat64 addr of
                       Some v4 \<Rightarrow> if \<not> is_public_ipv4 v4 allow_loopback then False else True
                     | None \<Rightarrow> True)))"

definition is_public_address_with_nat64 :: "string \<Rightarrow> bool \<Rightarrow> nat64_policy \<Rightarrow> bool" where
  "is_public_address_with_nat64 address allow_loopback nat64 =
     (case parse_ipv4 address of Some v4 \<Rightarrow> is_public_ipv4 v4 allow_loopback
      | None \<Rightarrow>
          (case parse_ipv6 address of Some v6 \<Rightarrow> is_public_ipv6 v6 allow_loopback nat64
           | None \<Rightarrow> False))"

definition is_public_address :: "string \<Rightarrow> bool \<Rightarrow> bool" where
  "is_public_address address allow_loopback =
     is_public_address_with_nat64 address allow_loopback strict"

definition is_loopback_address :: "string \<Rightarrow> bool" where
  "is_loopback_address address =
     (case parse_ipv4 address of Some v4 \<Rightarrow> octets v4 ! 0 = 127
      | None \<Rightarrow>
          (case parse_ipv6 address of
             Some v6 \<Rightarrow>
               if v6 = LOCALHOST then True
               else (case to_ipv4_mapped v6 of Some v4 \<Rightarrow> octets v4 ! 0 = 127 | None \<Rightarrow> False)
           | None \<Rightarrow> False))"

subsection \<open>The refused IPv4 blocks\<close>

fun ipv4_nat :: "ipv4 \<Rightarrow> nat" where
  "ipv4_nat (V4 a b c d) = ((unat a * 256 + unat b) * 256 + unat c) * 256 + unat d"

definition in_block :: "ipv4 \<Rightarrow> ipv4 \<times> nat \<Rightarrow> bool" where
  "in_block v blk = (case blk of (net, len) \<Rightarrow>
     ipv4_nat v div 2 ^ (32 - len) = ipv4_nat net div 2 ^ (32 - len))"

definition loopback_block :: "ipv4 \<times> nat" where
  "loopback_block = (V4 127 0 0 0, 8)"

definition refused_blocks :: "(ipv4 \<times> nat) list" where
  "refused_blocks =
     [(V4 0 0 0 0, 8), (V4 10 0 0 0, 8), (V4 172 16 0 0, 12), (V4 192 168 0 0, 16),
      (V4 169 254 0 0, 16), (V4 100 64 0 0, 10), (V4 224 0 0 0, 4), (V4 240 0 0 0, 4),
      (V4 192 0 2 0, 24), (V4 198 18 0 0, 15), (V4 198 51 100 0, 24), (V4 203 0 113 0, 24)]"

lemma u8_less [simp]: "unat (a :: u8) < 256"
  using unsigned_less [of a, where 'a = nat] by simp

lemma ipv4_nat_div:
  fixes a b c d :: u8
  shows "ipv4_nat (V4 a b c d) div 256 = (unat a * 256 + unat b) * 256 + unat c"
    "ipv4_nat (V4 a b c d) div 65536 = unat a * 256 + unat b"
    "ipv4_nat (V4 a b c d) div 131072 = unat a * 128 + unat b div 2"
    "ipv4_nat (V4 a b c d) div 1048576 = unat a * 16 + unat b div 16"
    "ipv4_nat (V4 a b c d) div 4194304 = unat a * 4 + unat b div 64"
    "ipv4_nat (V4 a b c d) div 16777216 = unat a"
    "ipv4_nat (V4 a b c d) div 268435456 = unat a div 16"
proof -
  let ?n = "ipv4_nat (V4 a b c d)"
  show 1: "?n div 256 = (unat a * 256 + unat b) * 256 + unat c"
    using u8_less [of d] by (simp del: u8_less)
  have "?n div 65536 = ?n div 256 div 256"
    by (simp only: div_mult2_eq [symmetric] numeral_times_numeral) simp
  then show 2: "?n div 65536 = unat a * 256 + unat b"
    unfolding 1 using u8_less [of c] by (simp del: u8_less)
  have 3: "?n div (65536 * k) = (unat a * 256 + unat b) div k" for k
    by (simp only: div_mult2_eq 2)
  have b: "unat b < 256" by simp
  show "?n div 131072 = unat a * 128 + unat b div 2"
    using 3 [of 2] b by simp
  show "?n div 1048576 = unat a * 16 + unat b div 16"
    using 3 [of 16] b by simp
  show "?n div 4194304 = unat a * 4 + unat b div 64"
    using 3 [of 64] b by simp
  show 4: "?n div 16777216 = unat a"
    using 3 [of 256] b by simp
  have "?n div 268435456 = ?n div 16777216 div 16"
    by (simp only: div_mult2_eq [symmetric] numeral_times_numeral) simp
  then show "?n div 268435456 = unat a div 16"
    unfolding 4 .
qed

lemma digits_eq_iff:
  fixes x y m k :: nat
  assumes "y < m"
  shows "x * m + y = k \<longleftrightarrow> x = k div m \<and> y = k mod m"
proof -
  have "(x * m + y) div m = x" "(x * m + y) mod m = y"
    using assms by simp_all
  then show ?thesis
    using div_mult_mod_eq [of k m] by metis
qed

lemma three_digits_eq_iff:
  fixes x y z k :: nat
  assumes "y < 256" "z < 256"
  shows "65536 * x + y * 256 + z = k \<longleftrightarrow>
    x = k div 65536 \<and> y = k div 256 mod 256 \<and> z = k mod 256"
proof -
  have "65536 * x + y * 256 + z = k \<longleftrightarrow> (x * 256 + y) * 256 + z = k"
    by (simp add: algebra_simps)
  also have "\<dots> \<longleftrightarrow> x * 256 + y = k div 256 \<and> z = k mod 256"
    by (rule digits_eq_iff [OF assms(2)])
  also have "\<dots> \<longleftrightarrow> (x = k div 256 div 256 \<and> y = k div 256 mod 256) \<and> z = k mod 256"
    by (simp only: digits_eq_iff [OF assms(1)])
  finally show ?thesis
    by (simp add: div_mult2_eq [symmetric])
qed

lemma quotient_eq_iff:
  fixes b :: nat
  shows "b div 16 = 0 \<longleftrightarrow> b < 16" "b div 16 = Suc 0 \<longleftrightarrow> 16 \<le> b \<and> b \<le> 31"
    "b div 16 = 14 \<longleftrightarrow> 224 \<le> b \<and> b \<le> 239" "b div 16 = 15 \<longleftrightarrow> 240 \<le> b \<and> b \<le> 255"
    "b div 64 = Suc 0 \<longleftrightarrow> 64 \<le> b \<and> b \<le> 127" "b div 2 = 9 \<longleftrightarrow> b = 18 \<or> b = 19"
  by linarith+

lemma in_block_iffs:
  fixes a b c d :: u8
  shows "in_block (V4 a b c d) (V4 0 0 0 0, 8) \<longleftrightarrow> a = 0"
    "in_block (V4 a b c d) (V4 127 0 0 0, 8) \<longleftrightarrow> a = 127"
    "in_block (V4 a b c d) (V4 10 0 0 0, 8) \<longleftrightarrow> a = 10"
    "in_block (V4 a b c d) (V4 192 168 0 0, 16) \<longleftrightarrow> a = 192 \<and> b = 168"
    "in_block (V4 a b c d) (V4 169 254 0 0, 16) \<longleftrightarrow> a = 169 \<and> b = 254"
    "in_block (V4 a b c d) (V4 172 16 0 0, 12) \<longleftrightarrow> a = 172 \<and> 16 \<le> b \<and> b \<le> 31"
    "in_block (V4 a b c d) (V4 100 64 0 0, 10) \<longleftrightarrow> a = 100 \<and> 64 \<le> b \<and> b \<le> 127"
    "in_block (V4 a b c d) (V4 198 18 0 0, 15) \<longleftrightarrow> a = 198 \<and> (b = 18 \<or> b = 19)"
    "in_block (V4 a b c d) (V4 224 0 0 0, 4) \<longleftrightarrow> 224 \<le> a \<and> a \<le> 239"
    "in_block (V4 a b c d) (V4 240 0 0 0, 4) \<longleftrightarrow> 240 \<le> a"
    "in_block (V4 a b c d) (V4 192 0 2 0, 24) \<longleftrightarrow> a = 192 \<and> b = 0 \<and> c = 2"
    "in_block (V4 a b c d) (V4 198 51 100 0, 24) \<longleftrightarrow> a = 198 \<and> b = 51 \<and> c = 100"
    "in_block (V4 a b c d) (V4 203 0 113 0, 24) \<longleftrightarrow> a = 203 \<and> b = 0 \<and> c = 113"
  using u8_less [of a] u8_less [of b] u8_less [of c]
  by (simp_all add: in_block_def ipv4_nat_div word_unat_eq_iff word_le_nat_alt
      digits_eq_iff three_digits_eq_iff quotient_eq_iff less_mult_imp_div_less del: ipv4_nat.simps u8_less)

lemma is_public_ipv4_blocks: "is_public_ipv4 v allow_loopback =
    (if in_block v loopback_block then allow_loopback
     else list_all (\<lambda>b. \<not> in_block v b) refused_blocks)"
  by (cases v) (auto simp: in_block_iffs loopback_block_def refused_blocks_def)

lemma is_public_ipv4_mono: "is_public_ipv4 v False \<Longrightarrow> is_public_ipv4 v allow_loopback"
  by (cases v) (auto split: if_splits)

lemma is_public_ipv4_loopback:
  "is_public_ipv4 v True \<Longrightarrow> \<not> is_public_ipv4 v False \<Longrightarrow> in_block v loopback_block"
  by (cases v) (auto simp: in_block_iffs loopback_block_def split: if_splits)

subsection \<open>The address classes of IPv6\<close>

definition ipv6_nat :: "ipv6 \<Rightarrow> nat" where
  "ipv6_nat a = foldl (\<lambda>n s. n * 65536 + unat s) 0 a"

definition in_block6 :: "ipv6 \<Rightarrow> ipv6 \<times> nat \<Rightarrow> bool" where
  "in_block6 a blk = (case blk of (net, len) \<Rightarrow>
     ipv6_nat a div 2 ^ (128 - len) = ipv6_nat net div 2 ^ (128 - len))"

definition refused_blocks6 :: "(ipv6 \<times> nat) list" where
  "refused_blocks6 =
     [([0xfe80, 0, 0, 0, 0, 0, 0, 0], 10), ([0xfc00, 0, 0, 0, 0, 0, 0, 0], 7),
      ([0xff00, 0, 0, 0, 0, 0, 0, 0], 8)]"

text \<open>The IPv4 address carried by the address forms every node recognises.\<close>

definition transition_v4 :: "ipv6 \<Rightarrow> ipv4 option" where
  "transition_v4 a =
     (if in_block6 a ([0, 0, 0, 0, 0, 0xffff, 0, 0], 96)
         \<or> in_block6 a ([0, 0, 0, 0, 0, 0, 0, 0], 96)
         \<or> in_block6 a ([0x64, 0xff9b, 0, 0, 0, 0, 0, 0], 96)
      then Some (v4_of_segments (a ! 6) (a ! 7))
      else if in_block6 a ([0x2002, 0, 0, 0, 0, 0, 0, 0], 16)
      then Some (v4_of_segments (a ! 1) (a ! 2))
      else None)"

lemma u16_less [simp]: "unat (s :: u16) < 65536"
  using unsigned_less [of s, where 'a = nat] by simp

lemma segment_list: "length a = 8 \<longleftrightarrow>
   (\<exists>s0 s1 s2 s3 s4 s5 s6 s7. a = [s0, s1, s2, s3, s4, s5, s6, s7])"
  by (auto simp: numeral_eq_Suc length_Suc_conv)

lemma ipv6_nat_div:
  shows "ipv6_nat [s0, s1, s2, s3, s4, s5, s6, s7] div 2 ^ 32 = ipv6_nat [s0, s1, s2, s3, s4, s5]"
    "ipv6_nat [s0, s1, s2, s3, s4, s5, s6, s7] div 2 ^ 112 = unat s0"
proof -
  have shave: "ipv6_nat (as @ [s]) div 2 ^ 16 = ipv6_nat as" for as s
    using u16_less [of s] by (simp add: ipv6_nat_def del: u16_less)
  have split: "n div 2 ^ (k + l) = n div 2 ^ k div 2 ^ l" for n k l :: nat
    by (simp add: power_add div_mult2_eq)
  have two: "ipv6_nat [s0, s1, s2, s3, s4, s5, s6, s7] div 2 ^ (16 + 16) = ipv6_nat [s0, s1, s2, s3, s4, s5]"
    unfolding split using shave [of "[s0, s1, s2, s3, s4, s5, s6]" s7] shave [of "[s0, s1, s2, s3, s4, s5]" s6]
    by simp
  then show "ipv6_nat [s0, s1, s2, s3, s4, s5, s6, s7] div 2 ^ 32 = ipv6_nat [s0, s1, s2, s3, s4, s5]"
    by simp
  have "ipv6_nat [s0, s1, s2, s3, s4, s5, s6, s7] div 2 ^ ((16 + 16) + (16 + (16 + (16 + (16 + 16))))) = unat s0"
    unfolding split [of _ "16 + 16"] two
    unfolding split using shave [of "[s0, s1, s2, s3, s4]" s5] shave [of "[s0, s1, s2, s3]" s4]
      shave [of "[s0, s1, s2]" s3] shave [of "[s0, s1]" s2] shave [of "[s0]" s1] 
    by (simp add: ipv6_nat_def)
  then show "ipv6_nat [s0, s1, s2, s3, s4, s5, s6, s7] div 2 ^ 112 = unat s0"
    by simp
qed

lemma ipv6_nat_inject:
  "length as = length bs \<Longrightarrow> ipv6_nat as = ipv6_nat bs \<longleftrightarrow> as = bs"
proof (induction as arbitrary: bs rule: rev_induct)
  case (snoc s as)
  then obtain t bs' where bs: "bs = bs' @ [t]" "length as = length bs'"
    by (cases bs rule: rev_cases) auto
  have "ipv6_nat (as @ [s]) = ipv6_nat as * 65536 + unat s" for as s
    by (simp add: ipv6_nat_def)
  then have "ipv6_nat (as @ [s]) = ipv6_nat (bs' @ [t]) \<longleftrightarrow>
      ipv6_nat as = ipv6_nat bs' \<and> unat s = unat t"
    using digits_eq_iff [of "unat s" 65536 "ipv6_nat as"] digits_eq_iff [of "unat t" 65536 "ipv6_nat bs'"] by auto
  then show ?case
    using snoc.IH [OF bs(2)] bs by (simp add: word_unat_eq_iff)
qed (simp add: ipv6_nat_def)

lemma in_block6_96:
  "length a = 8 \<Longrightarrow> length n = 8 \<Longrightarrow> in_block6 a (n, 96) \<longleftrightarrow> take 6 a = take 6 n"
  by (auto simp: segment_list in_block6_def ipv6_nat_div ipv6_nat_inject simp del: power_numeral)

lemma in_block6_first:
  assumes "length a = 8" "length n = 8" "len \<le> 16"
  shows "in_block6 a (n, len) \<longleftrightarrow> unat (a ! 0) div 2 ^ (16 - len) = unat (n ! 0) div 2 ^ (16 - len)"
proof -
  have "128 - len = 112 + (16 - len)" using assms(3) by simp
  then have "ipv6_nat a div 2 ^ (128 - len) = ipv6_nat a div 2 ^ 112 div 2 ^ (16 - len)" for a
    by (simp only: power_add div_mult2_eq)
  then show ?thesis
    using assms(1,2) by (auto simp: segment_list in_block6_def ipv6_nat_div simp del: power_numeral)
qed

lemma and_mask_eq:
  fixes s t :: u16
  assumes "n < 16" "m = NOT (mask n)" "t AND m = t"
  shows "s AND m = t \<longleftrightarrow> unat s div 2 ^ n = unat t div 2 ^ n"
proof -
  have *: "unat s div 2 ^ n = unat t div 2 ^ n \<longleftrightarrow> drop_bit n s = drop_bit n t" for s t :: u16
    by (simp add: word_unat_eq_iff unat_drop_bit_eq drop_bit_eq_div [where 'a = nat])
  have "s AND m = push_bit n (drop_bit n s)" for s :: u16
    unfolding assms(2) by (rule bit_word_eqI) (auto simp: bit_simps)
  moreover have "drop_bit n (push_bit n (drop_bit n s)) = drop_bit n s" for s :: u16
    by (rule bit_word_eqI) (auto simp: bit_simps dest: bit_imp_le_length)
  ultimately show ?thesis
    unfolding * using assms(3) by metis
qed

lemma high_block_iffs:
  fixes s :: u16
  shows "s AND 0xffc0 = 0xfe80 \<longleftrightarrow> unat s div 2 ^ 6 = unat (0xfe80 :: u16) div 2 ^ 6"
    "s AND 0xfe00 = 0xfc00 \<longleftrightarrow> unat s div 2 ^ 9 = unat (0xfc00 :: u16) div 2 ^ 9"
    "s AND 0xff00 = 0xff00 \<longleftrightarrow> unat s div 2 ^ 8 = unat (0xff00 :: u16) div 2 ^ 8"
  by (rule and_mask_eq; simp add: mask_eq_exp_minus_1)+

lemma is_public_ipv6_classes:
  assumes "length a = 8"
  shows "is_public_ipv6 a al pol =
    (if a = LOCALHOST then al
     else if a = UNSPECIFIED then False
     else case transition_v4 a of
            Some v4 \<Rightarrow> is_public_ipv4 v4 al
          | None \<Rightarrow> list_all (\<lambda>b. \<not> in_block6 a b) refused_blocks6
              \<and> (case policy_embedded_v4 pol a of Some v4 \<Rightarrow> is_public_ipv4 v4 al | None \<Rightarrow> True))"
proof -
  have t6: "take 6 a = [x0, x1, x2, x3, x4, x5] \<longleftrightarrow> a ! 0 = x0 \<and> a ! 1 = x1 \<and> a ! 2 = x2 \<and> a ! 3 = x3
     \<and> a ! 4 = x4 \<and> a ! 5 = x5" for x0 x1 x2 x3 x4 x5
    using assms by (auto simp: segment_list)
  have z6: "list_all (\<lambda>s. s = 0) (take 6 a) \<longleftrightarrow> take 6 a = [0, 0, 0, 0, 0, 0]"
    using assms by (auto simp: segment_list)
  have h: "high_byte 0 = 0" by (simp add: high_byte_def)
  note blocks = in_block6_96 [OF assms] in_block6_first [OF assms]
  show ?thesis
    unfolding is_public_ipv6_def transition_v4_def refused_blocks6_def to_ipv4_mapped_def nat64_well_known_embedded_v4_def Let_def
      high_block_iffs
    by (auto simp add: blocks t6 z6 word_unat_eq_iff [of "a ! 0"] v4_of_segments_def split: option.splits)
qed

text \<open>C12: The classifier of an address text, branch by branch: an IPv4 address is public exactly when
  no block of the refused list (read as CIDR blocks of the 32-bit value) contains it, 127.0.0.0/8
  following the flag; an IPv6 address that carries an IPv4 address in a form every node recognises
  is judged by that IPv4 address (so the mapped form of a public one is public, though the module's header
  lists the mapped form among the refused ones), every other one by the refused IPv6 blocks and, where a configured
  NAT64 prefix covers it, by the decoded address; any other text is refused.\<close>

theorem public_address_spec: "is_public_address_with_nat64 address allow_loopback nat64 =
    (case parse_ipv4 address of
       Some v4 \<Rightarrow> if in_block v4 loopback_block then allow_loopback
                   else list_all (\<lambda>b. \<not> in_block v4 b) refused_blocks
     | None \<Rightarrow>
         (case parse_ipv6 address of None \<Rightarrow> False
          | Some a \<Rightarrow>
              if a = LOCALHOST then allow_loopback
              else if a = UNSPECIFIED then False
              else (case transition_v4 a of
                      Some v4 \<Rightarrow> is_public_ipv4 v4 allow_loopback
                    | None \<Rightarrow> list_all (\<lambda>b. \<not> in_block6 a b) refused_blocks6
                        \<and> (case policy_embedded_v4 nat64 a of
                             Some v4 \<Rightarrow> is_public_ipv4 v4 allow_loopback | None \<Rightarrow> True))))"
  by (simp add: is_public_address_with_nat64_def is_public_ipv4_blocks is_public_ipv6_classes
      parse_ipv6_length split: option.split)

subsection \<open>What the policy and the flag can change\<close>

lemma policy_strict [simp]: "policy_embedded_v4 strict a = None"
  by (simp add: policy_embedded_v4_def strict_def)

lemma mapped_public_v4_is_public:
  "is_public_address ''::ffff:8.8.8.8'' False" "\<not> is_public_address ''::ffff:10.0.0.1'' False"
  by code_simp+

lemma is_public_ipv6_strict: "is_public_ipv6 a al pol \<Longrightarrow> is_public_ipv6 a al strict"
  unfolding is_public_ipv6_def Let_def by (auto split: option.splits if_splits)

text \<open>Configuring NAT64 prefixes never admits an address that the strict policy refuses.\<close>

theorem nat64_policy_only_stricter:
  assumes "is_public_address_with_nat64 address allow_loopback nat64"
  shows "is_public_address address allow_loopback"
  using assms is_public_ipv6_strict
  by (auto simp: is_public_address_def is_public_address_with_nat64_def split: option.splits)

theorem nat64_policy_only_stricter_witness:
  "is_public_address ''2606:4700::1'' False"
  by (rule nat64_policy_only_stricter
      [of _ _ "with_nsps [\<lparr>nsp_masked = [0x2001, 0xdb8, 0, 0, 0, 0, 0, 0], nsp_prefix_len = 32\<rparr>]"])
    code_simp

definition carries_loopback6 :: "nat64_policy \<Rightarrow> ipv6 \<Rightarrow> bool" where
  "carries_loopback6 nat64 a \<longleftrightarrow> a = LOCALHOST
     \<or> (case transition_v4 a of Some v4 \<Rightarrow> in_block v4 loopback_block
        | None \<Rightarrow> (case policy_embedded_v4 nat64 a of
             Some v4 \<Rightarrow> in_block v4 loopback_block | None \<Rightarrow> False))"

definition carries_loopback :: "nat64_policy \<Rightarrow> string \<Rightarrow> bool" where
  "carries_loopback nat64 address =
     (case parse_ipv4 address of Some v4 \<Rightarrow> in_block v4 loopback_block
      | None \<Rightarrow>
          (case parse_ipv6 address of Some a \<Rightarrow> carries_loopback6 nat64 a | None \<Rightarrow> False))"

lemma is_public_ipv6_loopback:
  assumes "length a = 8" "is_public_ipv6 a True pol" "\<not> is_public_ipv6 a False pol"
  shows "carries_loopback6 pol a"
  using assms(2,3) unfolding is_public_ipv6_classes [OF assms(1)] carries_loopback6_def
  by (auto split: option.splits if_splits dest: is_public_ipv4_loopback)

text \<open>The flag that admits loopback changes the verdict only of an address that is the loopback
  address or carries an IPv4 address of 127.0.0.0/8.\<close>

theorem allow_loopback_only_loopback:
  assumes "is_public_address_with_nat64 address True nat64"
    and "\<not> is_public_address_with_nat64 address False nat64"
  shows "carries_loopback nat64 address"
  using assms is_public_ipv4_loopback is_public_ipv6_loopback [OF parse_ipv6_length]
  by (auto simp: is_public_address_with_nat64_def carries_loopback_def split: option.splits)

theorem allow_loopback_only_loopback_witness: "carries_loopback strict ''::ffff:127.0.0.1''"
  by (rule allow_loopback_only_loopback; code_simp)

text \<open>
  The module's documentation lists 127/8, \<open>::1\<close> and the mapped form; the code also admits the
  compatible, 6to4 and NAT64 forms of 127/8, which \<open>is_loopback_address\<close> does not recognise.
\<close>

lemma nat64_loopback_admitted:
  "is_public_address ''64:ff9b::7f00:1'' True \<and> \<not> is_loopback_address ''64:ff9b::7f00:1''"
  by code_simp

end
