(* ===== verification/Webid.thy ===== *)
theory Webid
  imports Errors Samples Ssrf
begin

section \<open>WebID claims, the URL gate and the profile's issuers: \<open>webid.rs\<close>\<close>

text \<open>
  The shape check of the WebID claim, the canonical profile URL, the gate every fetched URL
  passes (scheme, userinfo, literal hosts), the policy applied to each resolved address, and the
  collection of the \<open>solid:oidcIssuer\<close> objects. The URL parser is the \<open>url\<close> crate (a parameter),
  the Turtle parser is \<open>oxttl\<close> (a parameter: the sequence of results its iterator yields).
\<close>

datatype bidirectional_mode = Strict | Warn | Off

definition SOLID_OIDC_ISSUER :: string where
  "SOLID_OIDC_ISSUER = ''http://www.w3.org/ns/solid/terms#oidcIssuer''"

definition em_dash :: string where
  "em_dash = [CHR 0xE2, CHR 0x80, CHR 0x94]"

subsection \<open>The claim\<close>

definition has_userinfo :: "'u url_crate \<Rightarrow> 'u \<Rightarrow> bool" where
  "has_userinfo U url \<longleftrightarrow> url_username U url \<noteq> [] \<or> url_password U url \<noteq> None"

definition validate_webid_claim :: "'u url_crate \<Rightarrow> string \<Rightarrow> (verify_error, string) outcome" where
  "validate_webid_claim U raw =
     (if raw = [] then Err (invalid_token ''Token is missing the webid claim.'')
      else case url_parse U raw of
        None \<Rightarrow> Err (invalid_token ''WebID claim is not a valid URL.'')
      | Some url \<Rightarrow>
          if url_scheme U url \<noteq> ''https'' then Err (invalid_token ''WebID claim must be an https: URL.'')
          else if has_userinfo U url then Err (invalid_token ''WebID claim must not include userinfo.'')
          else Ok raw)"

definition canonicalise_profile_url :: "'u url_crate \<Rightarrow> string \<Rightarrow> string" where
  "canonicalise_profile_url U web_id =
     (case url_parse U web_id of
        Some url \<Rightarrow> url_to_string U
          (url_set_password_none U (url_set_username U [] (url_set_fragment_none U url)))
      | None \<Rightarrow> hd (split_on (CHR ''#'') web_id))"

subsection \<open>The gate\<close>

definition classify_resolved_address_with_nat64 ::
  "'u url_crate \<Rightarrow> string \<Rightarrow> 'u \<Rightarrow> bool \<Rightarrow> nat64_policy \<Rightarrow> (string, unit) outcome" where
  "classify_resolved_address_with_nat64 U address url allow_loopback nat64 =
     (if url_scheme U url = ''http'' \<and> allow_loopback \<and> \<not> is_loopback_address address then
        Err (''WebID profile URL refused '' @ em_dash
          @ '' http: WebID allowed only when ALL resolved addresses are loopback (got '' @ address
          @ ''). Use https: in production.'')
      else if \<not> is_public_address_with_nat64 address allow_loopback nat64 then
        Err (''WebID profile URL refused '' @ em_dash @ '' ''
          @ (case url_host_str U url of Some h \<Rightarrow> h | None \<Rightarrow> [])
          @ '' resolves to a non-public address ('' @ address @ '').'')
      else Ok ())"

definition classify_resolved_address ::
  "'u url_crate \<Rightarrow> string \<Rightarrow> 'u \<Rightarrow> bool \<Rightarrow> (string, unit) outcome" where
  "classify_resolved_address U address url allow_loopback =
     classify_resolved_address_with_nat64 U address url allow_loopback strict"

definition strip_brackets :: "string \<Rightarrow> string" where
  "strip_brackets host = trim_end_matches (CHR '']'') (trim_start_matches (CHR ''['') host)"

definition is_literal :: "string \<Rightarrow> bool" where
  "is_literal s \<longleftrightarrow> parse_ipv4 s \<noteq> None \<or> parse_ipv6 s \<noteq> None"

definition ssrf_gate_static_with_nat64 ::
  "'u url_crate \<Rightarrow> string \<Rightarrow> bool \<Rightarrow> nat64_policy \<Rightarrow> (string, unit) outcome" where
  "ssrf_gate_static_with_nat64 U raw_url allow_loopback nat64 =
     and_then (ok_or (url_parse U raw_url) (''WebID profile URL is malformed: '' @ raw_url @ ''.'')) (\<lambda>url.
     and_then
       (if url_scheme U url = ''https'' then Ok ()
        else if url_scheme U url = ''http'' then
          (if \<not> allow_loopback then
             Err (''WebID profile URL must be https: (got http: ''
               @ (case url_host_str U url of Some h \<Rightarrow> h | None \<Rightarrow> [])
               @ ''). HTTP is permitted only when allowLoopback=true (dev/IT).'')
           else Ok ())
        else Err (''WebID profile URL must be http/https (got '' @ url_scheme U url @ '':).'')) (\<lambda>_.
     if has_userinfo U url then Err ''WebID profile URL must not carry userinfo.''
     else case url_host_str U url of
        None \<Rightarrow> Ok ()
      | Some host \<Rightarrow>
          (let stripped = strip_brackets host in
           if is_literal stripped
           then classify_resolved_address_with_nat64 U stripped url allow_loopback nat64
           else Ok ())))"

definition ssrf_gate_static :: "'u url_crate \<Rightarrow> string \<Rightarrow> bool \<Rightarrow> (string, unit) outcome" where
  "ssrf_gate_static U raw_url allow_loopback =
     ssrf_gate_static_with_nat64 U raw_url allow_loopback strict"

subsection \<open>The issuers of a profile\<close>

datatype rdf_subject = NamedSubject string | OtherSubject
datatype rdf_term = NamedTerm string | OtherTerm

record triple =
  subject_of :: rdf_subject
  predicate_of :: string
  object_of :: rdf_term

text \<open>
  \<open>base_iri_ok\<close> says whether \<open>with_base_iri\<close> takes a base, \<open>turtle_results\<close> is what
  \<open>for_slice\<close> yields under that base: triples, or an error.
\<close>

record turtle_crate =
  base_iri_ok :: "string \<Rightarrow> bool"
  turtle_results :: "string option \<Rightarrow> bytes \<Rightarrow> (unit + triple) list"

text \<open>The loop over the parser's results; \<open>issuers\<close> is the set collected so far.\<close>

fun collect_issuers ::
  "string \<Rightarrow> string \<Rightarrow> string set \<Rightarrow> (unit + triple) list \<Rightarrow> (string, string set) outcome" where
  "collect_issuers web_id profile_url issuers [] = Ok issuers"
| "collect_issuers web_id profile_url issuers (Inl _ # rest) =
     Err ''WebID profile is not valid Turtle.''"
| "collect_issuers web_id profile_url issuers (Inr t # rest) =
     (if predicate_of t \<noteq> SOLID_OIDC_ISSUER then collect_issuers web_id profile_url issuers rest
      else case subject_of t of
        OtherSubject \<Rightarrow> collect_issuers web_id profile_url issuers rest
      | NamedSubject s \<Rightarrow>
          if s \<noteq> web_id \<and> s \<noteq> profile_url then collect_issuers web_id profile_url issuers rest
          else collect_issuers web_id profile_url
            (case object_of t of NamedTerm n \<Rightarrow> insert n issuers | OtherTerm \<Rightarrow> issuers) rest)"

definition parse_oidc_issuers ::
  "turtle_crate \<Rightarrow> bytes \<Rightarrow> string \<Rightarrow> string \<Rightarrow> string \<Rightarrow> (string, string set) outcome" where
  "parse_oidc_issuers T body base_url web_id profile_url =
     collect_issuers web_id profile_url {}
       (turtle_results T (if base_iri_ok T base_url then Some base_url else None) body)"

subsection \<open>What the gate lets through\<close>

lemma classify_Ok_iff [outcome_simps]:
  "classify_resolved_address_with_nat64 U address url al pol = Ok u \<longleftrightarrow>
     is_public_address_with_nat64 address al pol
     \<and> (url_scheme U url = ''http'' \<and> al \<longrightarrow> is_loopback_address address)"
  "classify_resolved_address_with_nat64 U address url al pol = Panic \<longleftrightarrow> False"
  by (auto simp: classify_resolved_address_with_nat64_def)

lemma gate_Ok_iff [outcome_simps]:
  "ssrf_gate_static_with_nat64 U raw al pol = Ok u \<longleftrightarrow>
     (\<exists>url. url_parse U raw = Some url
        \<and> (url_scheme U url = ''https'' \<or> url_scheme U url = ''http'' \<and> al)
        \<and> \<not> has_userinfo U url
        \<and> (\<forall>h. url_host_str U url = Some h \<and> is_literal (strip_brackets h) \<longrightarrow>
             classify_resolved_address_with_nat64 U (strip_brackets h) url al pol = Ok ()))"
proof (cases "url_parse U raw")
  case (Some url)
  then show ?thesis
    by (cases "url_scheme U url = ''https''"; cases "url_scheme U url = ''http''"; cases "has_userinfo U url";
        cases "url_host_str U url")
      (simp_all add: ssrf_gate_static_with_nat64_def Let_def)
qed (simp add: ssrf_gate_static_with_nat64_def)

lemma gate_not_Panic [simp]: "ssrf_gate_static_with_nat64 U raw al pol \<noteq> Panic"
  by (simp add: ssrf_gate_static_with_nat64_def outcome_simps Let_def split: option.split)

text \<open>The WebID claim is accepted exactly when it is non-empty and parses as an \<open>https\<close> URL
  without userinfo; it is returned unchanged, and every rejection is a 401 \<open>invalid_token\<close>.\<close>

theorem validate_webid_claim_iff:
  "(validate_webid_claim U raw = Ok w \<longleftrightarrow>
     w = raw \<and> raw \<noteq> [] \<and> (\<exists>url. url_parse U raw = Some url \<and> url_scheme U url = ''https''
        \<and> url_username U url = [] \<and> url_password U url = None))
   \<and> validate_webid_claim U raw \<noteq> Panic
   \<and> (case validate_webid_claim U raw of Err e \<Rightarrow> err_kind e = InvalidToken \<and> status e = 401 | _ \<Rightarrow> True)"
  by (auto simp: validate_webid_claim_def has_userinfo_def status_def split: option.split)

text \<open>The URL gate accepts exactly the URLs whose scheme is \<open>https\<close> (or \<open>http\<close> when loopback
  is allowed), that carry no userinfo, and whose host, when it is an address literal, is public and
  for \<open>http\<close> a loopback address.\<close>

theorem ssrf_gate_static_iff:
  "ssrf_gate_static_with_nat64 U raw_url allow_loopback nat64 = Ok () \<longleftrightarrow>
     (\<exists>url. url_parse U raw_url = Some url
        \<and> (url_scheme U url = ''https'' \<or> url_scheme U url = ''http'' \<and> allow_loopback)
        \<and> url_username U url = [] \<and> url_password U url = None
        \<and> (case url_host_str U url of None \<Rightarrow> True
           | Some h \<Rightarrow>
              if parse_ipv4 (strip_brackets h) = None \<and> parse_ipv6 (strip_brackets h) = None then True
              else is_public_address_with_nat64 (strip_brackets h) allow_loopback nat64
                \<and> (if url_scheme U url = ''http'' then is_loopback_address (strip_brackets h) else True)))"
  unfolding gate_Ok_iff classify_Ok_iff has_userinfo_def is_literal_def
  by (auto split: option.split)

subsection \<open>What the issuer set means\<close>

definition lists_issuer :: "string \<Rightarrow> string \<Rightarrow> string \<Rightarrow> triple \<Rightarrow> bool" where
  "lists_issuer web_id profile_url i t \<longleftrightarrow>
     predicate_of t = SOLID_OIDC_ISSUER \<and> object_of t = NamedTerm i
     \<and> (subject_of t = NamedSubject web_id \<or> subject_of t = NamedSubject profile_url)"

lemma listed_by_triple:
  "{i. lists_issuer web_id profile_url i t} =
     (if predicate_of t = SOLID_OIDC_ISSUER
         \<and> (subject_of t = NamedSubject web_id \<or> subject_of t = NamedSubject profile_url)
      then (case object_of t of NamedTerm n \<Rightarrow> {n} | OtherTerm \<Rightarrow> {}) else {})"
  by (cases "object_of t") (auto simp: lists_issuer_def)

lemma collect_issuers_Ok:
  "collect_issuers web_id profile_url acc rs = Ok is \<longleftrightarrow>
     (\<exists>ts. rs = map Inr ts
        \<and> is = acc \<union> {i. \<exists>t \<in> set ts. lists_issuer web_id profile_url i t})"
proof (induction rs arbitrary: acc)
  case (Cons r rs)
  show ?case
  proof (cases r)
    case (Inr t)
    have *: "collect_issuers web_id profile_url acc (r # rs) =
      collect_issuers web_id profile_url (acc \<union> {i. lists_issuer web_id profile_url i t}) rs"
      unfolding Inr collect_issuers.simps listed_by_triple
      by (cases "subject_of t"; cases "object_of t") simp_all
    show ?thesis
      unfolding * Cons.IH using Inr by (auto simp: Cons_eq_map_conv)
  qed auto
qed auto

text \<open>The issuer set of a profile is exactly the set of IRIs that a \<open>solid:oidcIssuer\<close> triple
  about the WebID itself or about the profile document lists; triples about any other subject,
  other predicates and literal objects contribute nothing, and one syntax error refuses the whole
  profile.\<close>

theorem parse_oidc_issuers_scoped:
  "parse_oidc_issuers T body base_url web_id profile_url = Ok issuers \<longleftrightarrow>
     (\<exists>ts. turtle_results T (if base_iri_ok T base_url then Some base_url else None) body = map Inr ts
        \<and> issuers = {i. \<exists>t \<in> set ts. lists_issuer web_id profile_url i t})"
  unfolding parse_oidc_issuers_def by (simp add: collect_issuers_Ok)

end
