(* ===== verification/Config.thy ===== *)
theory Config
  imports Jwk Webid
begin

section \<open>Configuration and the static key provider: \<open>config.rs\<close>\<close>

text \<open>
  The verifier's configuration with its constructor, validation, builder setters and the replay
  window; the \<open>JwksProvider\<close> contract as a locale, and the static provider that implements it. A
  \<open>u64\<close> number of seconds is an \<open>int\<close> in the range of \<open>u64\<close>.
\<close>

definition DPOP_PROOF_MAX_AGE_SECS :: int where
  "DPOP_PROOF_MAX_AGE_SECS = 300"

definition DEFAULT_CLOCK_TOLERANCE_SECS :: int where
  "DEFAULT_CLOCK_TOLERANCE_SECS = 5"

record webid_profile =
  issuers :: "string set"

type_synonym 'w webid_resolver = "string \<Rightarrow> ('w, string, webid_profile) io"

record 'w verifier_config =
  trusted_issuers :: "string list"
  webid_claim :: string
  require_dpop :: bool
  allow_missing_ath :: bool
  clock_tolerance_secs :: int
  audience :: string
  authorized_parties :: "string list"
  bidirectional_mode :: bidirectional_mode
  webid_resolver :: "'w webid_resolver option"
  replay_fail_closed :: bool

definition new_config :: "string list \<Rightarrow> string \<Rightarrow> 'w verifier_config" where
  "new_config issuers_list aud =
     \<lparr>trusted_issuers = issuers_list, webid_claim = ''webid'', require_dpop = True,
      allow_missing_ath = False, clock_tolerance_secs = DEFAULT_CLOCK_TOLERANCE_SECS,
      audience = aud, authorized_parties = [], bidirectional_mode = Off,
      webid_resolver = None, replay_fail_closed = True\<rparr>"

text \<open>\<open>Duration::from_secs\<close> of the window, in nanoseconds; each \<open>u64\<close> operation in its order.\<close>

definition replay_ttl :: "bool \<Rightarrow> 'w verifier_config \<Rightarrow> (verify_error, nat) outcome" where
  "replay_ttl oc cfg =
     and_then (u64_result oc (DPOP_PROOF_MAX_AGE_SECS + clock_tolerance_secs cfg)) (\<lambda>window.
     and_then (u64_result oc (2 * window)) (\<lambda>doubled.
     and_then (u64_result oc (doubled + 1)) (\<lambda>secs. Ok (nat secs * 10 ^ 9))))"

definition validate :: "'w verifier_config \<Rightarrow> (string, unit) outcome" where
  "validate cfg =
     (if trusted_issuers cfg = [] then Err ''at least one trusted issuer is required''
      else if audience cfg = [] then Err ''an audience (the resource server's identity) is required''
      else if (bidirectional_mode cfg = Strict \<or> bidirectional_mode cfg = Warn)
              \<and> webid_resolver cfg = None
        then Err ''bidirectional mode strict/warn requires a webid_resolver (use Off to disable the check)''
      else Ok ())"

subsection \<open>The builder\<close>

definition set_webid_claim :: "string \<Rightarrow> 'w verifier_config \<Rightarrow> 'w verifier_config" where
  "set_webid_claim claim cfg = cfg\<lparr>webid_claim := claim\<rparr>"

definition set_require_dpop :: "bool \<Rightarrow> 'w verifier_config \<Rightarrow> 'w verifier_config" where
  "set_require_dpop v cfg = cfg\<lparr>require_dpop := v\<rparr>"

definition set_allow_missing_ath :: "bool \<Rightarrow> 'w verifier_config \<Rightarrow> 'w verifier_config" where
  "set_allow_missing_ath v cfg = cfg\<lparr>allow_missing_ath := v\<rparr>"

definition set_clock_tolerance_secs :: "int \<Rightarrow> 'w verifier_config \<Rightarrow> 'w verifier_config" where
  "set_clock_tolerance_secs v cfg = cfg\<lparr>clock_tolerance_secs := v\<rparr>"

definition set_authorized_parties :: "string list \<Rightarrow> 'w verifier_config \<Rightarrow> 'w verifier_config" where
  "set_authorized_parties v cfg = cfg\<lparr>authorized_parties := v\<rparr>"

definition bidirectional ::
  "bidirectional_mode \<Rightarrow> 'w webid_resolver \<Rightarrow> 'w verifier_config \<Rightarrow> 'w verifier_config" where
  "bidirectional mode resolver cfg =
     cfg\<lparr>bidirectional_mode := mode, webid_resolver := Some resolver\<rparr>"

definition set_replay_fail_closed :: "bool \<Rightarrow> 'w verifier_config \<Rightarrow> 'w verifier_config" where
  "set_replay_fail_closed v cfg = cfg\<lparr>replay_fail_closed := v\<rparr>"

lemmas builder_defs = set_webid_claim_def set_require_dpop_def set_allow_missing_ath_def
  set_clock_tolerance_secs_def set_authorized_parties_def bidirectional_def set_replay_fail_closed_def

text \<open>Every configuration that \<open>new\<close> and any sequence of setters can produce.\<close>

inductive built :: "string list \<Rightarrow> string \<Rightarrow> 'w verifier_config \<Rightarrow> bool" for iss aud where
  built_new: "built iss aud (new_config iss aud)"
| built_webid_claim: "built iss aud cfg \<Longrightarrow> built iss aud (set_webid_claim c cfg)"
| built_require_dpop: "built iss aud cfg \<Longrightarrow> built iss aud (set_require_dpop v cfg)"
| built_allow_missing_ath: "built iss aud cfg \<Longrightarrow> built iss aud (set_allow_missing_ath v cfg)"
| built_clock_tolerance: "built iss aud cfg \<Longrightarrow> in_u64 n \<Longrightarrow> built iss aud (set_clock_tolerance_secs n cfg)"
| built_authorized_parties: "built iss aud cfg \<Longrightarrow> built iss aud (set_authorized_parties ps cfg)"
| built_bidirectional: "built iss aud cfg \<Longrightarrow> built iss aud (bidirectional m r cfg)"
| built_replay_fail_closed: "built iss aud cfg \<Longrightarrow> built iss aud (set_replay_fail_closed v cfg)"

lemma validate_Ok_iff [outcome_simps]:
  "validate cfg = Ok u \<longleftrightarrow> trusted_issuers cfg \<noteq> [] \<and> audience cfg \<noteq> []
     \<and> (bidirectional_mode cfg = Off \<or> webid_resolver cfg \<noteq> None)"
  by (cases "bidirectional_mode cfg") (auto simp: validate_def)

lemma built_fields:
  assumes "built iss aud cfg"
  shows "trusted_issuers cfg = iss \<and> audience cfg = aud
    \<and> (bidirectional_mode cfg = Off \<or> webid_resolver cfg \<noteq> None) \<and> in_u64 (clock_tolerance_secs cfg)"
  using assms
  by (induction rule: built.induct)
    (auto simp: builder_defs new_config_def in_u64_def DEFAULT_CLOCK_TOLERANCE_SECS_def)

text \<open>A configuration is accepted exactly when it names a trusted issuer and an audience and
  does not ask for the WebID check without a resolver; the builder never disables the check by
  omission, so what it builds is accepted exactly when issuers and audience were given.\<close>

theorem validate_built_config:
  assumes "built iss aud cfg"
  shows "(validate cfg = Ok ()) = (iss \<noteq> [] \<and> aud \<noteq> [])"
  using built_fields [OF assms] by (simp add: validate_Ok_iff)

theorem validate_built_config_witness:
  "validate (bidirectional Strict (\<lambda>_. lift (Err ''down''))
     (set_require_dpop False (new_config [''https://idp''] ''https://rs''))) = Ok ()"
proof -
  have "built [''https://idp''] ''https://rs'' (bidirectional Strict (\<lambda>_. lift (Err ''down''))
     (set_require_dpop False (new_config [''https://idp''] ''https://rs'')))"
    by (intro built.intros)
  from validate_built_config [OF this] show ?thesis by simp
qed

subsection \<open>The contract of a key provider\<close>

type_synonym 'w jwks_provider = "string \<Rightarrow> ('w, string, jwk list) io"

text \<open>The worlds that a sequence of calls, for whatever issuers, leads to.\<close>

inductive provider_calls :: "'w jwks_provider \<Rightarrow> 'w \<Rightarrow> 'w \<Rightarrow> bool" for kf w0 where
  no_call: "provider_calls kf w0 w0"
| one_more: "provider_calls kf w0 w \<Longrightarrow> kf issuer w = (r, w') \<Longrightarrow> provider_calls kf w0 w'"

text \<open>
  What the verifier relies on: while \<open>inv\<close> holds of the provider's world, the keys it hands out
  for an issuer are keys that issuer has (\<open>keyset\<close>), and no call breaks \<open>inv\<close>.
\<close>

locale jwks_provider =
  fixes keys_for :: "'w jwks_provider"
    and inv :: "'w \<Rightarrow> bool"
    and keyset :: "string \<Rightarrow> jwk list \<Rightarrow> bool"
  assumes keys_inv: "inv w \<Longrightarrow> keys_for issuer w = (r, w') \<Longrightarrow> inv w'"
    and keys_authentic: "inv w \<Longrightarrow> keys_for issuer w = (Ok ks, w') \<Longrightarrow> keyset issuer ks"
begin

lemma calls_inv: "provider_calls keys_for w0 w \<Longrightarrow> inv w0 \<Longrightarrow> inv w"
  by (induction rule: provider_calls.induct) (auto intro: keys_inv)

lemma keys_after_calls:
  "inv w0 \<Longrightarrow> provider_calls keys_for w0 w \<Longrightarrow> keys_for issuer w = (Ok ks, w') \<Longrightarrow> keyset issuer ks"
  using calls_inv keys_authentic by blast

end

subsection \<open>The static provider\<close>

record static_provider =
  entries :: "string \<rightharpoonup> jwk list"

definition new_static :: static_provider where
  "new_static = \<lparr>entries = Map.empty\<rparr>"

definition with_issuer :: "string \<Rightarrow> jwk list \<Rightarrow> static_provider \<Rightarrow> static_provider" where
  "with_issuer issuer keys p = p\<lparr>entries := (entries p)(issuer \<mapsto> keys)\<rparr>"

definition static_keys_for :: "static_provider \<Rightarrow> 'w jwks_provider" where
  "static_keys_for p issuer =
     lift (ok_or (entries p issuer) (''no JWKS configured for issuer '' @ issuer))"

interpretation static: jwks_provider "static_keys_for p" "\<lambda>_. True" "\<lambda>issuer ks. entries p issuer = Some ks"
  for p
  by unfold_locales (auto simp: static_keys_for_def outcome_simps)

lemma static_keys_iff [outcome_simps]:
  "static_keys_for p issuer w = (Ok ks, w') \<longleftrightarrow> w' = w \<and> entries p issuer = Some ks"
  by (auto simp: static_keys_for_def outcome_simps)

end
