(* ===== verification/Jwt.thy ===== *)
theory Jwt
  imports Jwk
begin

section \<open>Compact JWS decoding and signature verification (jwt.rs)\<close>

text \<open>
  The unverified look at a token (\<open>peek_*\<close>), the mapping from the \<open>alg\<close> text to an algorithm of
  \<open>jsonwebtoken\<close>, the construction of a key from a JWK, and the verification of a token against
  candidate keys on the two backends: \<open>jsonwebtoken\<close>, and \<open>p521\<close> for ES512 when the feature is on.
  The lemmas give the shape of every success (which key verified what) and of every rejection.
\<close>

record header =
  hdr_alg :: string
  hdr_typ :: "string option"
  hdr_jwk :: "jwk option"

definition split_compact :: "string \<Rightarrow> (verify_error, string \<times> string \<times> string) outcome" where
  "split_compact token =
     (case split_on (CHR ''.'') token of
        [h, p, s] \<Rightarrow>
          if h \<noteq> [] \<and> p \<noteq> [] \<and> s \<noteq> [] then Ok (h, p, s) else Err (invalid_token ''Malformed token.'')
      | _ \<Rightarrow> Err (invalid_token ''Malformed token.''))"

definition b64url_decode :: "('k, 'p, 's) crates \<Rightarrow> string \<Rightarrow> bytes option" where
  "b64url_decode E seg = b64_decode E seg"

definition peek_header :: "('k, 'p, 's) crates \<Rightarrow> string \<Rightarrow> (verify_error, header) outcome" where
  "peek_header E token =
     and_then (split_compact token) (\<lambda>(h, _, _).
     and_then (ok_or (b64url_decode E h) (invalid_token ''Malformed token header.'')) (\<lambda>bytes.
     and_then (ok_or (json_parse E bytes) (invalid_token ''Malformed token header.'')) (\<lambda>v.
     and_then (ok_or (Option.bind (value_get v ''alg'') as_str)
                 (invalid_token ''Token header has no alg.'')) (\<lambda>alg.
     and_then
       (case value_get v ''jwk'' of
          Some j \<Rightarrow>
            if j \<noteq> VNull then
              and_then (ok_or (jwk_from_value E j)
                  (invalid_token ''DPoP proof jwk header parameter must be a JSON object.''))
                (\<lambda>k. Ok (Some k))
            else Ok None
        | None \<Rightarrow> Ok None) (\<lambda>jwk.
     Ok \<lparr>hdr_alg = alg, hdr_typ = Option.bind (value_get v ''typ'') as_str, hdr_jwk = jwk\<rparr>)))))"

definition peek_claims :: "('k, 'p, 's) crates \<Rightarrow> string \<Rightarrow> claims option" where
  "peek_claims E token =
     (case split_compact token of
        Ok (_, p, _) \<Rightarrow>
          Option.bind (b64url_decode E p) (\<lambda>bytes. Option.bind (json_parse E bytes) as_object)
      | _ \<Rightarrow> None)"

definition peek_issuer :: "('k, 'p, 's) crates \<Rightarrow> string \<Rightarrow> (verify_error, string) outcome" where
  "peek_issuer E token =
     and_then (ok_or (peek_claims E token) (invalid_token ''Malformed access token.'')) (\<lambda>claims.
     (case str_claim claims ''iss'' of
        Some s \<Rightarrow> if s \<noteq> [] then Ok s else Err (invalid_token ''Access token has no issuer.'')
      | None \<Rightarrow> Err (invalid_token ''Access token has no issuer.'')))"

definition proof_has_ath :: "('k, 'p, 's) crates \<Rightarrow> string \<Rightarrow> bool" where
  "proof_has_ath E token =
     (case Option.bind (peek_claims E token) (\<lambda>c. str_claim c ''ath'') of
        Some a \<Rightarrow> a \<noteq> [] | None \<Rightarrow> False)"

definition map_algorithm :: "('k, 'p, 's) crates \<Rightarrow> string \<Rightarrow> (verify_error, algorithm) outcome" where
  "map_algorithm E alg =
     (if \<not> alg_in_policy alg then
        Err (invalid_token (''Unsupported or non-asymmetric signature algorithm: '' @ alg @ ''.''))
      else if alg = ''ES512'' then Err (invalid_token ES512_KNOWN_NARROWING)
      else if \<not> alg_is_verifiable E alg then Err (invalid_token ES512_KNOWN_NARROWING)
      else if alg = ''ES256'' then Ok ES256
      else if alg = ''ES384'' then Ok ES384
      else if alg = ''PS256'' then Ok PS256
      else if alg = ''PS384'' then Ok PS384
      else if alg = ''PS512'' then Ok PS512
      else if alg = ''RS256'' then Ok RS256
      else if alg = ''RS384'' then Ok RS384
      else if alg = ''RS512'' then Ok RS512
      else if alg = ''EdDSA'' then Ok EdDSA
      else Err (invalid_token (''Unsupported signature algorithm: '' @ alg @ ''.'')))"

definition enforce_typ :: "header \<Rightarrow> string option \<Rightarrow> (verify_error, unit) outcome" where
  "enforce_typ hdr expected_typ =
     (case expected_typ of
        None \<Rightarrow> Ok ()
      | Some want \<Rightarrow>
          (case hdr_typ hdr of
             Some got \<Rightarrow>
               if eq_ignore_ascii_case got want then Ok ()
               else Err (invalid_token (''Unexpected token typ (want '' @ want @ '').''))
           | None \<Rightarrow> Err (invalid_token (''Unexpected token typ (want '' @ want @ '').''))))"

definition decoding_key_from_jwk :: "('k, 'p, 's) crates \<Rightarrow> jwk \<Rightarrow> (verify_error, 'k) outcome" where
  "decoding_key_from_jwk E k =
     (if is_symmetric k then Err (invalid_token ''Symmetric keys are not accepted.'')
      else if has_private_material k then
        Err (invalid_token ''Key contains private material; only a public key is accepted.'')
      else if jwk_kty k = ''EC'' then
        and_then (ok_or (jwk_x k) (invalid_token ''EC JWK missing x.'')) (\<lambda>x.
        and_then (ok_or (jwk_y k) (invalid_token ''EC JWK missing y.'')) (\<lambda>y.
        map_err (\<lambda>e. invalid_token (''Invalid EC public key: '' @ e @ ''.'')) (of_sum (key_from_ec E x y))))
      else if jwk_kty k = ''RSA'' then
        and_then (ok_or (jwk_n k) (invalid_token ''RSA JWK missing n.'')) (\<lambda>n.
        and_then (ok_or (jwk_e k) (invalid_token ''RSA JWK missing e.'')) (\<lambda>e.
        map_err (\<lambda>r. invalid_token (''Invalid RSA public key: '' @ r @ ''.'')) (of_sum (key_from_rsa E n e))))
      else if jwk_kty k = ''OKP'' then
        and_then (ok_or (jwk_x k) (invalid_token ''OKP JWK missing x.'')) (\<lambda>x.
        map_err (\<lambda>e. invalid_token (''Invalid OKP public key: '' @ e @ ''.'')) (of_sum (key_from_ed E x)))
      else Err (invalid_token (''Unsupported JWK key type: '' @ jwk_kty k @ ''.'')))"

text \<open>
  The loop over the candidate keys, shared by the two backends: \<open>f\<close> is one iteration, \<open>last_err\<close> the
  variable of that name. The first key that verifies wins.
\<close>

fun try_keys ::
  "(jwk \<Rightarrow> (verify_error, claims) outcome) \<Rightarrow> jwk list \<Rightarrow> verify_error option \<Rightarrow>
   (verify_error, claims) outcome" where
  "try_keys f [] last_err =
     Err (case last_err of Some e \<Rightarrow> e | None \<Rightarrow> invalid_token ''signature verification failed'')"
| "try_keys f (k # ks) last_err =
     (case f k of Ok c \<Rightarrow> Ok c | Err e \<Rightarrow> try_keys f ks (Some e) | Panic \<Rightarrow> Panic)"

definition attempt_jws ::
  "('k, 'p, 's) crates \<Rightarrow> string \<Rightarrow> algorithm \<Rightarrow> jwk \<Rightarrow> (verify_error, claims) outcome" where
  "attempt_jws E token alg k =
     and_then (decoding_key_from_jwk E k) (\<lambda>key.
       map_err (\<lambda>e. invalid_token (''signature verification failed: '' @ e))
         (of_sum (jwt_decode E token key alg)))"

definition P521_COORD_LEN :: nat where
  "P521_COORD_LEN = 66"

definition p521_verifying_key_from_jwk :: "('k, 'p, 's) crates \<Rightarrow> jwk \<Rightarrow> (verify_error, 'p) outcome" where
  "p521_verifying_key_from_jwk E k =
     (if is_symmetric k then Err (invalid_token ''Symmetric keys are not accepted.'')
      else if has_private_material k then
        Err (invalid_token ''Key contains private material; only a public key is accepted.'')
      else if \<not> eq_ignore_ascii_case (jwk_kty k) ''EC'' then
        Err (invalid_token ''ES512 requires an EC key.'')
      else if jwk_crv k \<noteq> Some ''P-521'' then
        Err (invalid_token ''ES512 requires an EC key on curve P-521.'')
      else
        and_then (ok_or (jwk_x k) (invalid_token ''EC JWK missing x.'')) (\<lambda>x64.
        and_then (ok_or (jwk_y k) (invalid_token ''EC JWK missing y.'')) (\<lambda>y64.
        and_then (ok_or (b64url_decode E x64) (invalid_token ''EC JWK x is not valid base64url.'')) (\<lambda>x.
        and_then (ok_or (b64url_decode E y64) (invalid_token ''EC JWK y is not valid base64url.'')) (\<lambda>y.
        if length x \<noteq> P521_COORD_LEN \<or> length y \<noteq> P521_COORD_LEN then
          Err (invalid_token ''ES512 EC coordinate is not the expected 66-byte P-521 length.'')
        else
          ok_or (p521_key E ([CHR 0x04] @ x @ y)) (invalid_token ''Invalid P-521 public key.''))))))"

definition attempt_es512 ::
  "('k, 'p, 's) crates \<Rightarrow> bytes \<Rightarrow> 's \<Rightarrow> claims \<Rightarrow> jwk \<Rightarrow> (verify_error, claims) outcome" where
  "attempt_es512 E signing_input signature claims_map k =
     and_then (p521_verifying_key_from_jwk E k) (\<lambda>key.
       if p521_verify E key signing_input signature then Ok claims_map
       else Err (invalid_token ''signature verification failed''))"

definition verify_es512_over_candidates ::
  "('k, 'p, 's) crates \<Rightarrow> string \<Rightarrow> jwk list \<Rightarrow> (verify_error, claims) outcome" where
  "verify_es512_over_candidates E token candidate_keys =
     (if candidate_keys = [] then Err (invalid_token ''No verification key available for issuer.'')
      else
        and_then (split_compact token) (\<lambda>(h, p, s).
        and_then (ok_or (b64url_decode E s) (invalid_token ''ES512 signature is not valid base64url.''))
          (\<lambda>sig_bytes.
        if length sig_bytes \<noteq> 2 * P521_COORD_LEN then
          Err (invalid_token ''ES512 signature is not the expected 132-byte (r||s) length.'')
        else
          and_then (ok_or (p521_signature E sig_bytes) (invalid_token ''ES512 signature is malformed.''))
            (\<lambda>signature.
          and_then (ok_or (peek_claims E token) (invalid_token ''Malformed token payload.''))
            (\<lambda>claims_map.
          try_keys (attempt_es512 E (h @ ''.'' @ p) signature claims_map) candidate_keys None)))))"

definition verify_signature ::
  "('k, 'p, 's) crates \<Rightarrow> string \<Rightarrow> jwk list \<Rightarrow> string option \<Rightarrow> (verify_error, claims) outcome" where
  "verify_signature E token candidate_keys expected_typ =
     and_then (peek_header E token) (\<lambda>hdr.
       if es512 E \<and> hdr_alg hdr = ''ES512'' then
         and_then (enforce_typ hdr expected_typ) (\<lambda>_.
           verify_es512_over_candidates E token candidate_keys)
       else
         and_then (map_algorithm E (hdr_alg hdr)) (\<lambda>alg.
         and_then (enforce_typ hdr expected_typ) (\<lambda>_.
           if candidate_keys = [] then Err (invalid_token ''No verification key available for issuer.'')
           else try_keys (attempt_jws E token alg) candidate_keys None)))"

definition verify_proof_with_embedded_jwk ::
  "('k, 'p, 's) crates \<Rightarrow> string \<Rightarrow> string \<Rightarrow> (verify_error, claims \<times> jwk) outcome" where
  "verify_proof_with_embedded_jwk E proof_token expected_typ =
     and_then (peek_header E proof_token) (\<lambda>hdr.
     and_then (ok_or (hdr_jwk hdr)
         (invalid_token ''DPoP proof jwk header parameter must be a JSON object.'')) (\<lambda>k.
       if has_private_material k then
         Err (invalid_token ''DPoP proof embedded a private key; only a public key is accepted.'')
       else if is_symmetric k then Err (invalid_token ''DPoP proof embedded a symmetric key.'')
       else
         and_then (verify_signature E proof_token [k] (Some expected_typ)) (\<lambda>claims. Ok (claims, k))))"

subsection \<open>Splitting a token\<close>

lemma split_compact_Ok:
  "split_compact t = Ok (h, p, s) \<longleftrightarrow> split_on (CHR ''.'') t = [h, p, s] \<and> h \<noteq> [] \<and> p \<noteq> [] \<and> s \<noteq> []"
  by (auto simp: split_compact_def split: list.splits if_splits)

lemma split_compact_not_Panic [simp]: "split_compact t \<noteq> Panic"
  by (simp add: split_compact_def split: list.splits)

text \<open>\<open>split_compact\<close> accepts exactly the three-segment compact form: it returns the segments
  \<open>h\<close>, \<open>p\<close>, \<open>s\<close> if and only if the token is \<open>h.p.s\<close>, none of them is empty and none holds a dot.
  So the split loses nothing and the three segments are the only ones a token can have.\<close>
theorem split_compact_iff:
  "split_compact token = Ok (h, p, s) \<longleftrightarrow>
     token = h @ ''.'' @ p @ ''.'' @ s \<and> h \<noteq> [] \<and> p \<noteq> [] \<and> s \<noteq> [] \<and>
     CHR ''.'' \<notin> set h \<union> set p \<union> set s"
proof
  assume "split_compact token = Ok (h, p, s)"
  then have *: "split_on (CHR ''.'') token = [h, p, s]" and ne: "h \<noteq> [] \<and> p \<noteq> [] \<and> s \<noteq> []"
    by (auto simp: split_compact_Ok)
  have "token = h @ ''.'' @ p @ ''.'' @ s"
    using join_split_on [of "CHR ''.''" token] * by simp
  moreover have "CHR ''.'' \<notin> set h \<union> set p \<union> set s"
    using split_on_free [of _ "CHR ''.''" token] * by auto
  ultimately show "token = h @ ''.'' @ p @ ''.'' @ s \<and> h \<noteq> [] \<and> p \<noteq> [] \<and> s \<noteq> [] \<and>
      CHR ''.'' \<notin> set h \<union> set p \<union> set s"
    using ne by simp
next
  assume "token = h @ ''.'' @ p @ ''.'' @ s \<and> h \<noteq> [] \<and> p \<noteq> [] \<and> s \<noteq> [] \<and>
      CHR ''.'' \<notin> set h \<union> set p \<union> set s"
  then show "split_compact token = Ok (h, p, s)"
    by (simp add: split_compact_Ok split_on_Cons_sep split_on_id)
qed

subsection \<open>The candidate loop\<close>

lemma try_keys_Ok:
  "try_keys f ks l = Ok c \<Longrightarrow>
     \<exists>pre k post. ks = pre @ k # post \<and> f k = Ok c \<and> (\<forall>j \<in> set pre. \<not> is_ok (f j))"
proof (induction ks arbitrary: l)
  case (Cons k ks)
  show ?case
  proof (cases "f k")
    case (Ok d)
    then show ?thesis using Cons.prems by (auto intro!: exI [of _ "[]"])
  next
    case (Err e)
    then obtain pre j post where "ks = pre @ j # post" "f j = Ok c" "\<forall>i \<in> set pre. \<not> is_ok (f i)"
      using Cons by fastforce
    with Err show ?thesis by (intro exI [of _ "k # pre"]) auto
  qed (use Cons.prems in simp)
qed simp

lemma try_keys_first:
  assumes "f k = Ok c" and "\<forall>j \<in> set pre. \<not> is_ok (f j) \<and> f j \<noteq> Panic"
  shows "try_keys f (pre @ k # post) l = Ok c"
  using assms by (induction pre arbitrary: l) (auto split: outcome.splits)

lemma try_keys_Panic: "try_keys f ks l = Panic \<Longrightarrow> \<exists>k \<in> set ks. f k = Panic"
  by (induction ks arbitrary: l) (auto split: outcome.splits)

lemma decoding_key_usable:
  "decoding_key_from_jwk E k = Ok key \<Longrightarrow> \<not> is_symmetric k \<and> \<not> has_private_material k"
  by (auto simp: decoding_key_from_jwk_def split: if_splits)

lemma p521_key_usable:
  "p521_verifying_key_from_jwk E k = Ok key \<Longrightarrow>
     \<not> is_symmetric k \<and> \<not> has_private_material k \<and> jwk_crv k = Some ''P-521''"
  by (auto simp: p521_verifying_key_from_jwk_def split: if_splits)

lemma key_builders_not_Panic [simp]:
  "decoding_key_from_jwk E k \<noteq> Panic" "p521_verifying_key_from_jwk E k \<noteq> Panic"
  by (simp_all add: decoding_key_from_jwk_def p521_verifying_key_from_jwk_def outcome_simps)

lemma attempt_jws_iffs [outcome_simps]:
  "attempt_jws E token alg k = Ok c \<longleftrightarrow>
     (\<exists>key. decoding_key_from_jwk E k = Ok key \<and> jwt_decode E token key alg = Inr c)"
  "attempt_jws E token alg k = Panic \<longleftrightarrow> False"
  by (auto simp: attempt_jws_def outcome_simps)

lemma attempt_es512_iffs [outcome_simps]:
  "attempt_es512 E m s c0 k = Ok c \<longleftrightarrow>
     c = c0 \<and> (\<exists>key. p521_verifying_key_from_jwk E k = Ok key \<and> p521_verify E key m s)"
  "attempt_es512 E m s c0 k = Panic \<longleftrightarrow> False"
  by (auto simp: attempt_es512_def outcome_simps)

lemma map_algorithm_Ok_iff:
  "(\<exists>a. map_algorithm E alg = Ok a) \<longleftrightarrow> alg_is_verifiable E alg \<and> alg \<noteq> ''ES512''"
  by (auto simp: map_algorithm_def alg_is_verifiable_def alg_in_policy_def SIGNING_ALGS_def)

lemma map_algorithm_not_Panic [simp]: "map_algorithm E alg \<noteq> Panic"
  by (simp add: map_algorithm_def)

lemma enforce_typ_Ok_iff:
  "enforce_typ hdr t = Ok u \<longleftrightarrow>
     (\<forall>want. t = Some want \<longrightarrow> (\<exists>got. hdr_typ hdr = Some got \<and> eq_ignore_ascii_case got want))"
  by (auto simp: enforce_typ_def split: option.splits)

lemma enforce_typ_not_Panic [simp]: "enforce_typ hdr t \<noteq> Panic"
  by (simp add: enforce_typ_def split: option.splits)

lemma peek_header_not_Panic [simp]: "peek_header E token \<noteq> Panic"
  by (auto simp: peek_header_def outcome_simps split: option.splits)

subsection \<open>What a verified signature means\<close>

text \<open>
  Key \<open>k\<close> verifies \<open>token\<close> under the header algorithm \<open>alg\<close>, and the verified claims are \<open>c\<close>: on
  \<open>p521\<close> for ES512 with the feature on, on \<open>jsonwebtoken\<close> for everything else.
\<close>

definition verified_by ::
  "('k, 'p, 's) crates \<Rightarrow> string \<Rightarrow> string \<Rightarrow> jwk \<Rightarrow> claims \<Rightarrow> bool" where
  "verified_by E token alg k c \<longleftrightarrow>
     (if es512 E \<and> alg = ''ES512'' then
        (\<exists>h p s sig_bytes sg key. split_compact token = Ok (h, p, s) \<and>
           b64url_decode E s = Some sig_bytes \<and> length sig_bytes = 132 \<and>
           p521_signature E sig_bytes = Some sg \<and> p521_verifying_key_from_jwk E k = Ok key \<and>
           p521_verify E key (h @ ''.'' @ p) sg \<and> peek_claims E token = Some c)
      else
        (\<exists>a key. map_algorithm E alg = Ok a \<and> decoding_key_from_jwk E k = Ok key \<and>
           jwt_decode E token key a = Inr c))"

lemma verified_by_usable:
  "verified_by E token alg k c \<Longrightarrow>
     \<not> is_symmetric k \<and> \<not> has_private_material k \<and> alg_is_verifiable E alg \<and>
     (alg = ''ES512'' \<longrightarrow> es512 E \<and> jwk_crv k = Some ''P-521'')"
  using map_algorithm_Ok_iff [of E alg] decoding_key_usable [of E k] p521_key_usable [of E k]
  by (fastforce simp: verified_by_def alg_is_verifiable_def split: if_splits)

lemma es512_candidates_iff:
  "verify_es512_over_candidates E token ks = Ok c \<longleftrightarrow>
     (\<exists>pre k post h p s sig_bytes sg. ks = pre @ k # post \<and> split_compact token = Ok (h, p, s) \<and>
        b64url_decode E s = Some sig_bytes \<and> length sig_bytes = 132 \<and>
        p521_signature E sig_bytes = Some sg \<and> peek_claims E token = Some c \<and>
        is_ok (attempt_es512 E (h @ ''.'' @ p) sg c k) \<and>
        (\<forall>j \<in> set pre. \<not> is_ok (attempt_es512 E (h @ ''.'' @ p) sg c j)))"
  (is "?l \<longleftrightarrow> ?r")
proof
  assume ?l
  then obtain h p s sb sg c0 where
    *: "split_compact token = Ok (h, p, s)" "b64url_decode E s = Some sb" "length sb = 132"
      "p521_signature E sb = Some sg" "peek_claims E token = Some c0" and
    t: "try_keys (attempt_es512 E (h @ ''.'' @ p) sg c0) ks None = Ok c"
    by (auto simp: verify_es512_over_candidates_def P521_COORD_LEN_def outcome_simps split: if_splits)
  obtain pre k post where
    "ks = pre @ k # post" and k: "attempt_es512 E (h @ ''.'' @ p) sg c0 k = Ok c"
    and "\<forall>j \<in> set pre. \<not> is_ok (attempt_es512 E (h @ ''.'' @ p) sg c0 j)"
    using try_keys_Ok [OF t] by blast
  moreover have "c = c0" using k by (simp add: outcome_simps)
  ultimately show ?r using * by (metis is_ok.simps(1))
next
  assume ?r
  then obtain pre k post h p s sb sg where
    "ks = pre @ k # post" and *: "split_compact token = Ok (h, p, s)"
      "b64url_decode E s = Some sb" "length sb = 132" "p521_signature E sb = Some sg"
      "peek_claims E token = Some c" "is_ok (attempt_es512 E (h @ ''.'' @ p) sg c k)" and
    pre: "\<forall>j \<in> set pre. \<not> is_ok (attempt_es512 E (h @ ''.'' @ p) sg c j)"
    by blast
  moreover have "attempt_es512 E (h @ ''.'' @ p) sg c k = Ok c"
    using *(6) by (auto simp: outcome_simps)
  ultimately show ?l
    by (simp add: verify_es512_over_candidates_def P521_COORD_LEN_def try_keys_first outcome_simps)
qed

lemma jws_candidates_iff:
  assumes "map_algorithm E alg = Ok a" and "\<not> (es512 E \<and> alg = ''ES512'')"
  shows "try_keys (attempt_jws E token a) ks None = Ok c \<longleftrightarrow>
     (\<exists>pre k post. ks = pre @ k # post \<and> verified_by E token alg k c \<and>
        (\<forall>j \<in> set pre. \<forall>d. \<not> verified_by E token alg j d))"
    (is "?l \<longleftrightarrow> ?r")
proof -
  have v: "verified_by E token alg k d \<longleftrightarrow> attempt_jws E token a k = Ok d" for k d
    using assms by (auto simp: verified_by_def outcome_simps)
  show ?thesis
  proof
    assume ?l
    then show ?r using try_keys_Ok [of "attempt_jws E token a" ks None c]
      by (auto simp: v is_ok_iff)
  next
    assume ?r
    then obtain pre k post where "ks = pre @ k # post" "attempt_jws E token a k = Ok c"
      and "\<forall>j \<in> set pre. \<not> is_ok (attempt_jws E token a j) \<and> attempt_jws E token a j \<noteq> Panic"
      by (auto simp: v is_ok_iff attempt_jws_iffs(2))
    then show ?l using try_keys_first by simp
  qed
qed

lemma es512_verified_iff:
  assumes "es512 E"
  shows "verify_es512_over_candidates E token ks = Ok c \<longleftrightarrow>
     (\<exists>pre k post. ks = pre @ k # post \<and> verified_by E token ''ES512'' k c \<and>
        (\<forall>j \<in> set pre. \<forall>d. \<not> verified_by E token ''ES512'' j d))"
  unfolding es512_candidates_iff using assms
  by (auto simp: verified_by_def is_ok_iff outcome_simps) blast+

lemma verify_signature_Ok_iff:
  "verify_signature E token ks typ = Ok c \<longleftrightarrow>
     (\<exists>hdr pre k post. peek_header E token = Ok hdr \<and> alg_is_verifiable E (hdr_alg hdr) \<and>
        enforce_typ hdr typ = Ok () \<and> ks = pre @ k # post \<and>
        verified_by E token (hdr_alg hdr) k c \<and>
        (\<forall>j \<in> set pre. \<forall>d. \<not> verified_by E token (hdr_alg hdr) j d))"
proof (cases "peek_header E token")
  case (Ok hdr)
  show ?thesis
  proof (cases "es512 E \<and> hdr_alg hdr = ''ES512''")
    case True
    then show ?thesis
      using Ok by (auto simp: verify_signature_def outcome_simps es512_verified_iff
          alg_is_verifiable_def)
  next
    case False
    show ?thesis
    proof (cases "map_algorithm E (hdr_alg hdr)")
      case a: (Ok a)
      then have ver: "alg_is_verifiable E (hdr_alg hdr)" using map_algorithm_Ok_iff by blast
      have "verify_signature E token ks typ = Ok c \<longleftrightarrow>
          enforce_typ hdr typ = Ok () \<and> try_keys (attempt_jws E token a) ks None = Ok c"
        using False by (cases "ks = []") (auto simp: verify_signature_def Ok a outcome_simps)
      then show ?thesis
        unfolding jws_candidates_iff [OF a False] by (simp add: Ok ver)
    next
      case (Err e)
      then have "\<not> alg_is_verifiable E (hdr_alg hdr)"
        using False map_algorithm_Ok_iff [of E "hdr_alg hdr"] by fastforce
      then show ?thesis using Ok False Err by (auto simp: verify_signature_def)
    qed simp
  qed
qed (simp_all add: verify_signature_def)

text \<open>C34: exactly what the signature primitive accepts. It returns claims if and only if the header
  parses, its algorithm is one this build can verify, its \<open>typ\<close> is the expected one, and some
  candidate key verifies the token; the claims are those of the first key that does, so an unusable
  or foreign key earlier in the set neither blocks nor replaces it.\<close>
theorem verify_signature_iff:
  "verify_signature E token ks typ = Ok c \<longleftrightarrow>
     (\<exists>hdr pre k post. peek_header E token = Ok hdr \<and> alg_is_verifiable E (hdr_alg hdr) \<and>
        enforce_typ hdr typ = Ok () \<and> ks = pre @ k # post \<and>
        verified_by E token (hdr_alg hdr) k c \<and>
        (\<forall>j \<in> set pre. \<forall>d. \<not> verified_by E token (hdr_alg hdr) j d))"
  by (rule verify_signature_Ok_iff)

text \<open>The tokens of the witnesses: three segments, parsed by the table.\<close>

definition sample_header :: "string \<Rightarrow> string \<Rightarrow> (string \<times> json) list" where
  "sample_header alg typ = [(''alg'', VString alg), (''typ'', VString typ)]"

definition token_table :: "(bytes \<times> json) list" where
  "token_table =
     [(''h'', VObject (sample_header ''ES256'' ''at+jwt'')),
      (''p'', VObject [(''iss'', VString ''https://idp'')])]"

theorem verify_signature_iff_witness:
  "verify_signature (sample_crates token_table) ''h.p.k'' [ec_jwk ''j'', ec_jwk ''k''] (Some ''AT+JWT'')
     = Ok [(''iss'', VString ''https://idp'')]"
proof -
  let ?E = "sample_crates token_table"
  have hdr: "peek_header ?E ''h.p.k'' = Ok \<lparr>hdr_alg = ''ES256'', hdr_typ = Some ''at+jwt'', hdr_jwk = None\<rparr>"
    by (simp add: peek_header_def split_compact_def b64url_decode_def sample_simps token_table_def
        sample_header_def member_def)
  have v: "verified_by ?E ''h.p.k'' ''ES256'' (ec_jwk x) d \<longleftrightarrow>
      x = ''k'' \<and> d = [(''iss'', VString ''https://idp'')]" for x d
    by (auto simp: verified_by_def map_algorithm_def alg_in_policy_def SIGNING_ALGS_def
        alg_is_verifiable_def decoding_key_from_jwk_def is_symmetric_def eq_ignore_ascii_case_def
        has_private_material_def sample_simps token_table_def)
  show ?thesis
    unfolding verify_signature_iff
    by (rule exI [of _ "\<lparr>hdr_alg = ''ES256'', hdr_typ = Some ''at+jwt'', hdr_jwk = None\<rparr>"],
        rule exI [of _ "[ec_jwk ''j'']"], rule exI [of _ "ec_jwk ''k''"], rule exI [of _ "[]"])
      (simp add: hdr v alg_is_verifiable_def enforce_typ_def str_simps)
qed

text \<open>C14: no algorithm confusion and no key confusion. A token whose signature is accepted has an
  algorithm of the asymmetric policy list (never \<open>none\<close> or \<open>HS*\<close>), ES512 only when the feature is
  on and then only with a P-521 key, and the key that verified it is one of the candidates, is not
  symmetric and carries no private material.\<close>
theorem verify_signature_sound:
  assumes "verify_signature E token ks typ = Ok c"
  shows "\<exists>hdr k. peek_header E token = Ok hdr \<and> k \<in> set ks \<and> verified_by E token (hdr_alg hdr) k c \<and>
     alg_in_policy (hdr_alg hdr) \<and> hdr_alg hdr \<notin> {''none'', ''HS256'', ''HS384'', ''HS512''} \<and>
     \<not> is_symmetric k \<and> \<not> has_private_material k \<and>
     (hdr_alg hdr = ''ES512'' \<longrightarrow> es512 E \<and> jwk_crv k = Some ''P-521'')"
proof -
  obtain hdr pre k post where *: "peek_header E token = Ok hdr" "alg_is_verifiable E (hdr_alg hdr)"
      "ks = pre @ k # post" "verified_by E token (hdr_alg hdr) k c"
    using assms by (auto simp: verify_signature_Ok_iff)
  have "alg_in_policy (hdr_alg hdr)" using *(2) by (rule alg_verifiable_in_policy)
  moreover from this have "hdr_alg hdr \<notin> {''none'', ''HS256'', ''HS384'', ''HS512''}"
    by (auto simp: alg_in_policy_def SIGNING_ALGS_def)
  ultimately show ?thesis
    using * verified_by_usable [OF *(4)] by (intro exI [of _ hdr] exI [of _ k]) simp
qed

theorem verify_signature_sound_witness:
  "\<exists>hdr k. peek_header (sample_crates token_table) ''h.p.k'' = Ok hdr \<and> k \<in> {ec_jwk ''k''} \<and>
     alg_in_policy (hdr_alg hdr) \<and> \<not> is_symmetric k"
proof -
  have "verify_signature (sample_crates token_table) ''h.p.k'' [ec_jwk ''k''] (Some ''at+jwt'')
      = Ok [(''iss'', VString ''https://idp'')]"
    by code_simp
  from verify_signature_sound [OF this] show ?thesis by auto
qed

end
