(* ===== verification/Replay.thy ===== *)
theory Replay
  imports Prelude "HOL-Library.AList"
begin

section \<open>The DPoP jti replay store (replay.rs)\<close>

text \<open>
  The contract of the \<open>ReplayStore\<close> trait as a locale, and the in-memory store that implements it.
  Time is the monotonic clock in nanoseconds. The mutex makes every call atomic and the clock is
  read inside the critical section, so a concurrent history is a sequence of calls whose clock
  readings never go back; \<open>store_history\<close> generates all of them. A panic inside the critical
  section poisons the mutex, which every later call reports as an error.
\<close>

datatype mark_result = New | Replay

type_synonym 's mark_op = "nat \<Rightarrow> string \<Rightarrow> nat \<Rightarrow> 's \<Rightarrow> (string, mark_result) outcome \<times> 's"
type_synonym 's contains_op = "nat \<Rightarrow> string \<Rightarrow> 's \<Rightarrow> (string, bool) outcome \<times> 's"

subsection \<open>The in-memory store\<close>

text \<open>The \<open>HashMap\<close> as its entries (one per key), the cap, and the poison flag of the mutex.\<close>

record mem_store =
  ms_entries :: "(string \<times> nat) list"
  ms_max_entries :: nat
  ms_poisoned :: bool

text \<open>\<open>usize\<close> of a 64-bit target, and the last \<open>Instant\<close> the platform can represent
  (an \<open>i64\<close> of seconds); adding a \<open>Duration\<close> beyond it panics.\<close>

definition usize_max :: nat where
  "usize_max = 2 ^ 64 - 1"

definition instant_max :: nat where
  "instant_max = 2 ^ 63 * 10 ^ 9 - 1"

lemma clock_bounds_code [code]:
  "usize_max = 18446744073709551615" "instant_max = 9223372036854775807999999999"
  by (simp_all add: usize_max_def instant_max_def)

definition with_clock :: "nat \<Rightarrow> mem_store" where
  "with_clock max_entries = \<lparr>ms_entries = [], ms_max_entries = max_entries, ms_poisoned = False\<rparr>"

definition new_store :: "nat \<Rightarrow> nat \<Rightarrow> mem_store" where
  "new_store max_entries ttl = with_clock max_entries"

definition with_window :: "nat \<Rightarrow> mem_store" where
  "with_window ttl = new_store 100000 ttl"

definition cap :: "mem_store \<Rightarrow> nat" where
  "cap s = (if ms_max_entries s \<le> usize_max then ms_max_entries s else usize_max)"

definition prune_expired :: "nat \<Rightarrow> (string \<times> nat) list \<Rightarrow> (string \<times> nat) list" where
  "prune_expired now m = filter (\<lambda>(_, expiry). now < expiry) m"

definition mark :: "mem_store mark_op" where
  "mark now jti ttl s =
     (if ms_poisoned s then (Err ''replay store mutex poisoned'', s)
      else if (case map_of (ms_entries s) jti of Some expiry \<Rightarrow> now < expiry | None \<Rightarrow> False)
        then (Ok Replay, s)
      else if 0 < ttl then
        (let full = map_of (ms_entries s) jti = None \<and> cap s \<le> length (ms_entries s);
             m = (if full then prune_expired now (ms_entries s) else ms_entries s)
         in if full \<and> cap s \<le> length m then
              (Err ''replay store at capacity; refusing to evict live jti (fail-closed)'',
               s\<lparr>ms_entries := m\<rparr>)
            else if now + ttl \<le> instant_max then
              (Ok New, s\<lparr>ms_entries := AList.update jti (now + ttl) m\<rparr>)
            else (Panic, s\<lparr>ms_entries := m, ms_poisoned := True\<rparr>))
      else (Ok New, s))"

definition contains :: "mem_store contains_op" where
  "contains now jti s =
     (if ms_poisoned s then (Err ''replay store mutex poisoned'', s)
      else (Ok (case map_of (ms_entries s) jti of Some expiry \<Rightarrow> now < expiry | None \<Rightarrow> False), s))"

subsection \<open>Histories of a store\<close>

text \<open>
  All histories of a store that any number of threads share: the clock moves on, a thread marks a
  \<open>jti\<close>, a thread probes one. The log holds every mark with its clock reading and result, the
  latest first.
\<close>

type_synonym mark_event = "nat \<times> string \<times> nat \<times> (string, mark_result) outcome"

inductive store_history ::
  "'s mark_op \<Rightarrow> 's contains_op \<Rightarrow> 's \<Rightarrow> 's \<Rightarrow> nat \<Rightarrow> mark_event list \<Rightarrow> bool"
  for mk :: "'s mark_op" and ct :: "'s contains_op" and s0 :: 's where
  start: "store_history mk ct s0 s0 t []"
| tick: "store_history mk ct s0 s t log \<Longrightarrow> t \<le> t' \<Longrightarrow> store_history mk ct s0 s t' log"
| mark_call: "store_history mk ct s0 s t log \<Longrightarrow> mk t j ttl s = (r, s') \<Longrightarrow>
     store_history mk ct s0 s' t ((t, j, ttl, r) # log)"
| contains_call: "store_history mk ct s0 s t log \<Longrightarrow> ct t j s = (r, s') \<Longrightarrow>
     store_history mk ct s0 s' t log"

subsection \<open>The contract of a replay store\<close>

text \<open>
  \<open>live s j t\<close> says that at clock reading \<open>t\<close> the store in state \<open>s\<close> still remembers \<open>j\<close>. A store
  promises: a \<open>New\<close> is given only to a \<open>jti\<close> that is not live and makes it live for the whole
  \<open>ttl\<close>; a live entry never goes before its time, whatever is marked; a \<open>Replay\<close> is true and
  changes nothing; a probe changes nothing and tells the truth.
\<close>

locale replay_store =
  fixes mk :: "'s mark_op"
    and ct :: "'s contains_op"
    and live :: "'s \<Rightarrow> string \<Rightarrow> nat \<Rightarrow> bool"
  assumes mark_New: "mk now j ttl s = (Ok New, s') \<Longrightarrow>
      \<not> live s j now \<and> (\<forall>t. now \<le> t \<and> t < now + ttl \<longrightarrow> live s' j t)"
    and mark_Replay: "mk now j ttl s = (Ok Replay, s') \<Longrightarrow> s' = s \<and> live s j now"
    and mark_keeps: "mk now i ttl s = (r, s') \<Longrightarrow> now \<le> t \<Longrightarrow> live s j t \<Longrightarrow> live s' j t"
    and contains_pure: "ct now j s = (q, s') \<Longrightarrow> s' = s \<and> (\<forall>b. q = Ok b \<longrightarrow> b = live s j now)"
begin

text \<open>Everything marked \<open>New\<close> in a history is still live until its time is over.\<close>

lemma history_live:
  assumes "store_history mk ct s0 s now log" and "(t, j, ttl, Ok New) \<in> set log"
    and "now \<le> t'" and "t' < t + ttl"
  shows "live s j t'"
  using assms
proof (induction arbitrary: t' rule: store_history.induct)
  case (mark_call s now log i d r s')
  show ?case
  proof (cases "(t, j, ttl, Ok New) \<in> set log")
    case True
    then show ?thesis using mark_call mark_keeps by blast
  next
    case False
    then show ?thesis using mark_call.prems mark_call.hyps mark_New by fastforce
  qed
next
  case (contains_call s now log i r s')
  then show ?case using contains_pure by blast
qed auto

lemma history_clock:
  assumes "store_history mk ct s0 s now log" and "(t, j, ttl, r) \<in> set log"
  shows "t \<le> now"
  using assms by (induction rule: store_history.induct) auto

text \<open>Two \<open>New\<close> results for one \<open>jti\<close> are a whole \<open>ttl\<close> apart.\<close>

lemma history_New_apart:
  assumes "store_history mk ct s0 s now log"
    and "log = later @ (t2, j, ttl2, Ok New) # mid @ (t1, j, ttl1, Ok New) # earlier"
  shows "t1 + ttl1 \<le> t2"
  using assms
proof (induction arbitrary: later rule: store_history.induct)
  case (mark_call s now log i d r s')
  show ?case
  proof (cases later)
    case Nil
    then have log: "log = mid @ (t1, j, ttl1, Ok New) # earlier" and
      now: "t2 = now" "i = j" "mk now j d s = (Ok New, s')"
      using mark_call by auto
    have "\<not> live s j now" using now mark_New by blast
    then show ?thesis
      using history_live [OF mark_call.hyps(1), of t1 j ttl1 now] log now by force
  qed (use mark_call in auto)
qed auto

text \<open>A probe that says yes announces a mark that will not say \<open>New\<close>.\<close>

lemma contains_then_mark:
  "ct now j s = (Ok True, s1) \<Longrightarrow> fst (mk now j ttl s1) \<noteq> Ok New"
  using contains_pure mark_New by (metis fst_conv surj_pair)

end

subsection \<open>The in-memory store keeps the contract\<close>

definition live_mem :: "mem_store \<Rightarrow> string \<Rightarrow> nat \<Rightarrow> bool" where
  "live_mem s j t \<longleftrightarrow> (case map_of (ms_entries s) j of Some expiry \<Rightarrow> t < expiry | None \<Rightarrow> False)"

lemma live_mem_iff: "live_mem s j t \<longleftrightarrow> (\<exists>e. map_of (ms_entries s) j = Some e \<and> t < e)"
  by (auto simp: live_mem_def split: option.splits)

lemma prune_keeps:
  "map_of m j = Some e \<Longrightarrow> now < e \<Longrightarrow> map_of (prune_expired now m) j = Some e"
  by (induction m) (auto simp: prune_expired_def split: if_splits)

lemma poison_only: "s\<lparr>ms_poisoned := b\<rparr> = s\<lparr>ms_entries := ms_entries s, ms_poisoned := b\<rparr>"
  by simp

text \<open>The ways a call of \<open>mark\<close> can go, with the state each leaves.\<close>

lemma mark_cases:
  assumes "mark now j ttl s = (r, s')"
  obtains (poisoned) "ms_poisoned s" "r = Err ''replay store mutex poisoned''" "s' = s"
  | (replay) "\<not> ms_poisoned s" "live_mem s j now" "r = Ok Replay" "s' = s"
  | (stale) "\<not> ms_poisoned s" "\<not> live_mem s j now" "ttl = 0" "r = Ok New" "s' = s"
  | (full) "\<not> ms_poisoned s" "\<not> live_mem s j now" "0 < ttl"
      "r = Err ''replay store at capacity; refusing to evict live jti (fail-closed)''"
      "map_of (ms_entries s) j = None" "cap s \<le> length (prune_expired now (ms_entries s))"
      "s' = s\<lparr>ms_entries := prune_expired now (ms_entries s)\<rparr>"
  | (stored) m where "\<not> ms_poisoned s" "\<not> live_mem s j now" "0 < ttl"
      "m = ms_entries s \<and> (map_of (ms_entries s) j \<noteq> None \<or> length (ms_entries s) < cap s)
       \<or> m = prune_expired now (ms_entries s) \<and> length m < cap s"
      "now + ttl \<le> instant_max" "r = Ok New"
      "s' = s\<lparr>ms_entries := AList.update j (now + ttl) m\<rparr>"
  | (panic) m where "\<not> ms_poisoned s" "\<not> live_mem s j now" "0 < ttl"
      "m = ms_entries s \<or> m = prune_expired now (ms_entries s)"
      "instant_max < now + ttl" "r = Panic" "s' = s\<lparr>ms_entries := m, ms_poisoned := True\<rparr>"
  using assms
  by (auto simp: mark_def Let_def simp flip: live_mem_def split: if_splits)
    (use poison_only in blast)+

lemma live_prune: "live_mem s j t \<Longrightarrow> now \<le> t \<Longrightarrow> live_mem (s\<lparr>ms_entries := prune_expired now (ms_entries s)\<rparr>) j t"
  using prune_keeps by (fastforce simp: live_mem_iff)

interpretation mem: replay_store mark contains live_mem
proof unfold_locales
  fix now j ttl s s'
  assume "mark now j ttl s = (Ok New, s')"
  then show "\<not> live_mem s j now \<and> (\<forall>t. now \<le> t \<and> t < now + ttl \<longrightarrow> live_mem s' j t)"
    by (cases rule: mark_cases) (auto simp: live_mem_iff update_conv')
next
  fix now j ttl s s'
  assume "mark now j ttl s = (Ok Replay, s')"
  then show "s' = s \<and> live_mem s j now" by (cases rule: mark_cases) auto
next
  fix now i ttl s r s' t j
  assume m: "mark now i ttl s = (r, s')" and t: "now \<le> t" and l: "live_mem s j t"
  have pr: "live_mem (s\<lparr>ms_entries := prune_expired now (ms_entries s)\<rparr>) j t"
    using l t by (rule live_prune)
  have "live_mem s i now" if "i = j" using l t that by (force simp: live_mem_iff)
  with m l pr show "live_mem s' j t"
    by (cases rule: mark_cases) (auto simp: live_mem_iff update_conv')
next
  fix now j s q s'
  assume "contains now j s = (q, s')"
  then show "s' = s \<and> (\<forall>b. q = Ok b \<longrightarrow> b = live_mem s j now)"
    by (auto simp: contains_def live_mem_def split: if_splits)
qed

text \<open>C9: a \<open>jti\<close> is never accepted twice within its window. In every history of the in-memory
  store, under any interleaving of concurrent \<open>mark\<close> and \<open>contains\<close> calls and any capacity
  pressure, two \<open>New\<close> results for the same \<open>jti\<close> are at least the first one's \<open>ttl\<close> apart.\<close>
theorem mark_New_once_per_window:
  assumes "store_history mark contains s0 s now log"
    and "log = later @ (t2, j, ttl2, Ok New) # mid @ (t1, j, ttl1, Ok New) # earlier"
  shows "t1 + ttl1 \<le> t2"
  using assms by (rule mem.history_New_apart)

theorem mark_New_once_per_window_witness: "(5::nat) + 10 \<le> 20"
proof -
  let ?s0 = "with_clock 2"
  let ?s1 = "?s0\<lparr>ms_entries := [(''a'', 15)]\<rparr>" and ?s2 = "?s0\<lparr>ms_entries := [(''a'', 30)]\<rparr>"
  have a: "store_history mark contains ?s0 ?s0 5 []" by (rule store_history.start)
  have b: "store_history mark contains ?s0 ?s1 5 [(5, ''a'', 10, Ok New)]"
    by (rule store_history.mark_call [OF a]) (simp add: mark_def with_clock_def cap_def usize_max_def instant_max_def)
  have c: "store_history mark contains ?s0 ?s1 20 [(5, ''a'', 10, Ok New)]"
    by (rule store_history.tick [OF b]) simp
  have d: "store_history mark contains ?s0 ?s2 20 [(20, ''a'', 10, Ok New), (5, ''a'', 10, Ok New)]"
    by (rule store_history.mark_call [OF c]) (simp add: mark_def with_clock_def cap_def usize_max_def instant_max_def)
  show ?thesis
    by (rule mark_New_once_per_window [OF d, of "[]" 20 "''a''" 10 "[]" 5 10 "[]"]) simp
qed

text \<open>\<open>contains\<close> is a read-only and truthful probe. It returns the store unchanged, and its
  answer at a clock reading is exactly whether \<open>mark\<close> of the same \<open>jti\<close> at that reading would
  report a replay.\<close>
theorem contains_is_pure_probe:
  assumes "contains now j s = (r, s')"
  shows "s' = s \<and> r = (if ms_poisoned s then Err ''replay store mutex poisoned''
                      else Ok (fst (mark now j ttl s) = Ok Replay))"
  using assms
  by (auto simp: contains_def mark_def Let_def split: option.splits)

theorem contains_is_pure_probe_witness:
  "fst (mark 5 ''a'' 10 \<lparr>ms_entries = [(''a'', 9)], ms_max_entries = 1, ms_poisoned = False\<rparr>) = Ok Replay"
proof -
  let ?s = "\<lparr>ms_entries = [(''a'', 9)], ms_max_entries = 1, ms_poisoned = False\<rparr>"
  have "contains 5 ''a'' ?s = (Ok True, ?s)" by (simp add: contains_def)
  from contains_is_pure_probe [OF this, of 10] show ?thesis by simp
qed

subsection \<open>Capacity, and what the store implements\<close>

definition mem_inv :: "mem_store \<Rightarrow> bool" where
  "mem_inv s \<longleftrightarrow> distinct (map fst (ms_entries s)) \<and> length (ms_entries s) \<le> cap s"

text \<open>The abstract state: the live entries at a clock reading.\<close>

definition live_map :: "nat \<Rightarrow> mem_store \<Rightarrow> string \<rightharpoonup> nat" where
  "live_map now s = (\<lambda>j. case map_of (ms_entries s) j of
     Some e \<Rightarrow> if now < e then Some e else None | None \<Rightarrow> None)"

text \<open>
  What a bounded replay store promises, with no trace of lazy pruning: remember at most \<open>limit\<close>
  live entries and refuse a new one beyond that.
\<close>

definition spec_mark ::
  "nat \<Rightarrow> nat \<Rightarrow> string \<Rightarrow> nat \<Rightarrow> (string \<rightharpoonup> nat) \<Rightarrow> (string, mark_result) outcome \<times> (string \<rightharpoonup> nat)" where
  "spec_mark limit now j ttl L =
     (if L j \<noteq> None then (Ok Replay, L)
      else if ttl = 0 then (Ok New, L)
      else if limit \<le> card (dom L) then
        (Err ''replay store at capacity; refusing to evict live jti (fail-closed)'', L)
      else (Ok New, L(j \<mapsto> now + ttl)))"

lemma length_update:
  "length (AList.update k v m) = (if k \<in> fst ` set m then length m else Suc (length m))"
  by (induction m) auto

lemma distinct_prune: "distinct (map fst m) \<Longrightarrow> distinct (map fst (prune_expired now m))"
  by (simp add: prune_expired_def distinct_map_filter)

lemma length_prune: "length (prune_expired now m) \<le> length m"
  by (simp add: prune_expired_def)

lemma map_of_prune:
  "distinct (map fst m) \<Longrightarrow>
   map_of (prune_expired now m) j = (case map_of m j of Some e \<Rightarrow> if now < e then Some e else None | None \<Rightarrow> None)"
  by (induction m) (auto simp: prune_expired_def map_of_eq_None_iff split: option.splits)

lemma live_map_iff: "live_map now s j \<noteq> None \<longleftrightarrow> live_mem s j now"
  by (auto simp: live_map_def live_mem_def split: option.splits)

lemma live_map_prune:
  "mem_inv s \<Longrightarrow> live_map now (s\<lparr>ms_entries := prune_expired now (ms_entries s)\<rparr>) = live_map now s"
  by (auto simp: live_map_def mem_inv_def map_of_prune fun_eq_iff split: option.splits)

lemma card_live:
  assumes "mem_inv s"
  shows "card (dom (live_map now s)) = length (prune_expired now (ms_entries s))"
proof -
  let ?m = "prune_expired now (ms_entries s)"
  have d: "distinct (map fst ?m)" using assms distinct_prune by (auto simp: mem_inv_def)
  have "live_map now s = map_of ?m"
    using assms by (simp add: live_map_def mem_inv_def map_of_prune fun_eq_iff)
  then have "dom (live_map now s) = set (map fst ?m)" by (simp add: dom_map_of_conv_image_fst)
  then show ?thesis using distinct_card [OF d] by simp
qed

lemma mark_inv:
  assumes "mark now j ttl s = (r, s')" and inv: "mem_inv s"
  shows "mem_inv s' \<and> cap s' = cap s"
  using assms(1)
proof (cases rule: mark_cases)
  case (stored m)
  then have "distinct (map fst m)" "j \<notin> fst ` set m \<longrightarrow> length m < cap s" "length m \<le> cap s"
    using inv distinct_prune length_prune by (auto simp: mem_inv_def map_of_eq_None_iff)
  then show ?thesis
    using stored by (auto simp: mem_inv_def cap_def length_update distinct_update)
qed (use inv distinct_prune length_prune [of now "ms_entries s"] in \<open>auto simp: mem_inv_def cap_def\<close>)

lemma history_inv:
  assumes "store_history mark contains s0 s now log" and "mem_inv s0"
  shows "mem_inv s \<and> cap s = cap s0"
  using assms
proof (induction rule: store_history.induct)
  case (mark_call s t log j ttl r s')
  then show ?case using mark_inv by metis
next
  case (contains_call s t log j r s')
  then show ?case using mem.contains_pure by metis
qed auto

lemma with_clock_inv [simp]: "mem_inv (with_clock n)"
  by (simp add: mem_inv_def with_clock_def)

lemma live_map_update:
  assumes "now < e"
  shows "live_map now (s\<lparr>ms_entries := AList.update j e m\<rparr>)
    = (live_map now (s\<lparr>ms_entries := m\<rparr>))(j \<mapsto> e)"
  using assms by (auto simp: live_map_def update_conv' fun_eq_iff)

lemma not_live_few:
  assumes "mem_inv s" and "\<not> live_mem s j now" and "map_of (ms_entries s) j \<noteq> None"
  shows "card (dom (live_map now s)) < cap s"
proof -
  obtain e where e: "(j, e) \<in> set (ms_entries s)" "\<not> now < e"
    using assms(2,3) by (auto simp: live_mem_iff dest: map_of_SomeD)
  then have "length (prune_expired now (ms_entries s)) < length (ms_entries s)"
    by (auto simp: prune_expired_def intro!: length_filter_less)
  then show ?thesis using assms(1) card_live [OF assms(1), of now] by (simp add: mem_inv_def)
qed

text \<open>C10: the lazily pruned, capacity-bounded map implements the abstract replay store. From any
  well-formed state whose mutex is not poisoned, and as long as the expiry is representable, \<open>mark\<close>
  returns what the specification returns on the live entries and leaves exactly the live entries the
  specification leaves; the state stays well-formed. So pruning is invisible, a live entry is never
  evicted, and a new \<open>jti\<close> is refused only when \<open>cap\<close> live ones are held.\<close>
theorem mark_refines_spec:
  assumes "mem_inv s" and "\<not> ms_poisoned s" and "now + ttl \<le> instant_max"
    and "mark now j ttl s = (r, s')"
  shows "spec_mark (cap s) now j ttl (live_map now s) = (r, live_map now s') \<and>
     mem_inv s' \<and> cap s' = cap s \<and> \<not> ms_poisoned s'"
proof -
  have inv: "mem_inv s' \<and> cap s' = cap s" using mark_inv assms(1,4) by blast
  have few: "length (prune_expired now (ms_entries s)) = card (dom (live_map now s))"
    using card_live [OF assms(1)] by simp
  from assms(4) show ?thesis
  proof (cases rule: mark_cases)
    case (stored m)
    have "card (dom (live_map now s)) < cap s"
      using stored(4) not_live_few [OF assms(1) stored(2)] length_prune [of now "ms_entries s"] few
      by auto
    moreover have "live_map now (s\<lparr>ms_entries := m\<rparr>) = live_map now s"
      using stored(4) live_map_prune [OF assms(1)] by auto
    ultimately show ?thesis
      using stored inv live_map_iff [of now s j] by (simp add: spec_mark_def live_map_update)
  qed (use assms inv few live_map_iff [of now s j] live_map_prune [OF assms(1)]
      in \<open>auto simp: spec_mark_def\<close>)
qed

theorem mark_refines_spec_witness:
  "fst (spec_mark 1 5 ''b'' 10 (live_map 5 \<lparr>ms_entries = [(''a'', 5)], ms_max_entries = 1, ms_poisoned = False\<rparr>))
     = Ok New"
proof -
  let ?s = "\<lparr>ms_entries = [(''a'', 5)], ms_max_entries = 1, ms_poisoned = False\<rparr>"
  have m: "mark 5 ''b'' 10 ?s = (Ok New, ?s\<lparr>ms_entries := [(''b'', 15)]\<rparr>)"
    by (simp add: mark_def cap_def usize_max_def instant_max_def prune_expired_def)
  show ?thesis
    using mark_refines_spec [OF _ _ _ m] by (simp add: mem_inv_def cap_def usize_max_def instant_max_def)
qed

text \<open>the store fails closed and only under real overload. In every history from a new store of
  capacity \<open>n\<close>, the map never holds more than the capacity; and a \<open>mark\<close> that returns an error
  either found the mutex poisoned or found exactly \<open>cap\<close> live entries, none of which it evicts.\<close>
theorem mark_error_only_when_full:
  assumes "store_history mark contains (with_clock n) s now log" and "mark now j ttl s = (Err e, s')"
  shows "length (ms_entries s) \<le> min n usize_max \<and>
     (ms_poisoned s \<and> s' = s \<or>
      card (dom (live_map now s)) = min n usize_max \<and> live_map now s' = live_map now s \<and>
      \<not> live_mem s j now)"
proof -
  have inv: "mem_inv s" and cap: "cap s = min n usize_max"
    using history_inv [OF assms(1) with_clock_inv] by (auto simp: cap_def with_clock_def min_def)
  have len: "length (ms_entries s) \<le> min n usize_max"
    using inv cap by (simp add: mem_inv_def)
  from assms(2) show ?thesis
    by (cases rule: mark_cases)
      (use len cap card_live [OF inv, of now] length_prune [of now "ms_entries s"]
        live_map_prune [OF inv, of now] in \<open>auto simp: mem_inv_def\<close>)
qed

theorem mark_error_only_when_full_witness:
  "card (dom (live_map 5 (with_clock 1\<lparr>ms_entries := [(''a'', 15)]\<rparr>))) = 1"
proof -
  let ?s0 = "with_clock 1" and ?s1 = "with_clock 1\<lparr>ms_entries := [(''a'', 15)]\<rparr>"
  have "store_history mark contains ?s0 ?s0 5 []" by (rule store_history.start)
  then have a: "store_history mark contains ?s0 ?s1 5 [(5, ''a'', 10, Ok New)]"
    by (rule store_history.mark_call) (simp add: mark_def with_clock_def cap_def usize_max_def instant_max_def)
  have b: "mark 5 ''b'' 10 ?s1 =
      (Err ''replay store at capacity; refusing to evict live jti (fail-closed)'', ?s1)"
    by (simp add: mark_def with_clock_def cap_def usize_max_def prune_expired_def)
  show ?thesis
    using mark_error_only_when_full [OF a b] by (auto simp: with_clock_def usize_max_def)
qed

end
