(* ===== verification/Verifier.thy ===== *)
theory Verifier
  imports Config Jwt Replay
begin

section \<open>The verifier: \<open>verifier.rs\<close>\<close>

text \<open>
  The request, the result and the orchestration of \<open>Verifier::verify\<close>: the scheme gate, the
  trusted-issuer gate, the access token, proof of possession by DPoP proof and by client
  certificate, the WebID and authorized-party checks, the replay check and the bidirectional check.
  The key provider, the replay store, the WebID resolver and the system clock act on one world,
  which the model threads through in the order of the calls.
\<close>

subsection \<open>Requests, results and the verifier\<close>

record auth_request =
  authorization :: "string option"
  dpop :: "string option"
  req_method :: string
  req_url :: string
  client_cert_x5t_s256 :: "string option"

datatype x5t_s256 = Thumbprint string | Malformed

record verified_token =
  tok_web_id :: "string option"
  tok_issuer :: "string option"
  tok_client_id :: "string option"
  tok_scopes :: "string list"
  tok_cnf_jkt :: "string option"
  tok_cnf_x5t_s256 :: "x5t_s256 option"
  tok_expiry :: "int option"

definition public_token :: verified_token where
  "public_token = \<lparr>tok_web_id = None, tok_issuer = None, tok_client_id = None, tok_scopes = [],
     tok_cnf_jkt = None, tok_cnf_x5t_s256 = None, tok_expiry = None\<rparr>"

definition is_public :: "verified_token \<Rightarrow> bool" where
  "is_public t \<longleftrightarrow> tok_web_id t = None"

definition cnf_x5t_s256_thumbprint :: "verified_token \<Rightarrow> string option" where
  "cnf_x5t_s256_thumbprint t =
     (case tok_cnf_x5t_s256 t of Some (Thumbprint s) \<Rightarrow> Some s | _ \<Rightarrow> None)"

text \<open>
  The verifier with what it calls: the provider, the store's \<open>mark\<close> (the window in nanoseconds),
  the crates, and the system clock, which is \<open>None\<close> before the Unix epoch.
\<close>

record ('w, 'k, 'p, 's, 'u) verifier =
  v_config :: "'w verifier_config"
  v_jwks :: "'w jwks_provider"
  v_mark :: "string \<Rightarrow> nat \<Rightarrow> ('w, string, mark_result) io"
  v_crates :: "('k, 'p, 's) crates"
  v_urls :: "'u url_crate"
  v_clock :: "'w \<Rightarrow> nat option \<times> 'w"

definition new_verifier ::
  "('w, 'k, 'p, 's, 'u) verifier \<Rightarrow> (string, ('w, 'k, 'p, 's, 'u) verifier) outcome" where
  "new_verifier V = and_then (validate (v_config V)) (\<lambda>_. Ok V)"

subsection \<open>The helpers\<close>

definition parse_authorization ::
  "('k, 'p, 's) crates \<Rightarrow> string option \<Rightarrow> (string \<times> string) option" where
  "parse_authorization E auth_header =
     Option.bind auth_header (\<lambda>h.
       let trimmed = trim h in
       if CHR '' '' \<notin> set trimmed then None
       else
         (let sp = length (takeWhile (\<lambda>c. c \<noteq> CHR '' '') trimmed);
              scheme = to_lowercase E (take sp trimmed);
              token = trim (drop (sp + 1) trimmed)
          in if token = [] then None else Some (scheme, token)))"

definition is_valid_x5t_s256 :: "('k, 'p, 's) crates \<Rightarrow> string \<Rightarrow> bool" where
  "is_valid_x5t_s256 E s = (case b64_decode E s of Some bytes \<Rightarrow> length bytes = 32 | None \<Rightarrow> False)"

definition extract_cnf_jkt :: "claims \<Rightarrow> string option" where
  "extract_cnf_jkt c =
     Option.bind (member c ''cnf'') (\<lambda>v. Option.bind (as_object v) (\<lambda>cnf.
     Option.bind (member cnf ''jkt'') (\<lambda>j. Option.bind (as_str j) (\<lambda>s.
     if s = [] then None else Some s))))"

definition extract_cnf_x5t_s256 :: "('k, 'p, 's) crates \<Rightarrow> claims \<Rightarrow> x5t_s256 option" where
  "extract_cnf_x5t_s256 E c =
     Option.bind (member c ''cnf'') (\<lambda>v. Option.bind (as_object v) (\<lambda>cnf.
     Option.bind (member cnf ''x5t#S256'') (\<lambda>raw.
       case as_str raw of
         Some s \<Rightarrow> if is_valid_x5t_s256 E s then Some (Thumbprint s) else Some Malformed
       | None \<Rightarrow> Some Malformed)))"

definition token_is_cert_bound :: "('k, 'p, 's) crates \<Rightarrow> string \<Rightarrow> bool" where
  "token_is_cert_bound E token =
     (case peek_claims E token of
        Some c \<Rightarrow> (case extract_cnf_x5t_s256 E c of Some (Thumbprint _) \<Rightarrow> True | _ \<Rightarrow> False)
      | None \<Rightarrow> False)"

definition byte :: "char \<Rightarrow> 8 word" where
  "byte c = of_nat (of_char c)"

text \<open>\<open>diff |= x ^ y\<close> over the zipped bytes.\<close>

definition constant_time_eq :: "bytes \<Rightarrow> bytes \<Rightarrow> bool" where
  "constant_time_eq a b =
     (if length a \<noteq> length b then False
      else foldl (\<lambda>diff (x, y). or diff (xor (byte x) (byte y))) 0 (zip a b) = 0)"

definition ath :: "('k, 'p, 's) crates \<Rightarrow> string \<Rightarrow> string" where
  "ath E token = b64_encode E (sha256 E token)"

definition audience_matches :: "claims \<Rightarrow> string \<Rightarrow> bool" where
  "audience_matches c aud =
     (case member c ''aud'' of
        Some (VString s) \<Rightarrow> s = aud
      | Some (VArray arr) \<Rightarrow> list_ex (\<lambda>v. as_str v = Some aud) arr
      | _ \<Rightarrow> False)"

definition normalize_htu :: "'u url_crate \<Rightarrow> string \<Rightarrow> string" where
  "normalize_htu U htu =
     (case url_parse U htu of
        Some u \<Rightarrow> url_to_string U (url_set_fragment_none U (url_set_query_none U u))
      | None \<Rightarrow> htu)"

text \<open>\<open>as_secs() as i64\<close>; the cast of a \<open>u64\<close> wraps.\<close>

definition now_secs :: "('w, 'k, 'p, 's, 'u) verifier \<Rightarrow> ('w, verify_error, int) io" where
  "now_secs V w =
     (case v_clock V w of
        (Some secs, w') \<Rightarrow> (Ok (wrap_i64 (int secs)), w')
      | (None, w') \<Rightarrow> (Ok 0, w'))"

subsection \<open>The access token\<close>

definition check_temporal_at ::
  "bool \<Rightarrow> int \<Rightarrow> int \<Rightarrow> claims \<Rightarrow> (verify_error, unit) outcome" where
  "check_temporal_at oc now tol c =
     and_then
       (case i64_claim c ''exp'' of
          Some exp \<Rightarrow> and_then (i64_result oc (now - tol)) (\<lambda>d.
            if exp < d then Err (invalid_token ''Access token verification failed: token expired.'')
            else Ok ())
        | None \<Rightarrow> Err (invalid_token ''Access token verification failed: missing exp.'')) (\<lambda>_.
     and_then
       (case i64_claim c ''nbf'' of
          Some nbf \<Rightarrow> and_then (i64_result oc (now + tol)) (\<lambda>d.
            if d < nbf then Err (invalid_token ''Access token verification failed: token not yet valid.'')
            else Ok ())
        | None \<Rightarrow> Ok ()) (\<lambda>_.
     (case i64_claim c ''iat'' of
        Some iat \<Rightarrow> and_then (i64_result oc (iat - tol)) (\<lambda>d.
          if now < d then Err (invalid_token ''Access token verification failed: iat in the future.'')
          else Ok ())
      | None \<Rightarrow> Err (invalid_token ''Access token verification failed: missing iat.''))))"

definition check_temporal ::
  "('w, 'k, 'p, 's, 'u) verifier \<Rightarrow> claims \<Rightarrow> ('w, verify_error, unit) io" where
  "check_temporal V c =
     io_bind (now_secs V) (\<lambda>now. lift (check_temporal_at (overflow_checks (v_crates V)) now
       (wrap_i64 (clock_tolerance_secs (v_config V))) c))"

text \<open>The loop over the required string claims.\<close>

fun check_required :: "claims \<Rightarrow> string list \<Rightarrow> (verify_error, unit) outcome" where
  "check_required c [] = Ok ()"
| "check_required c (claim # rest) =
     (if (case str_claim c claim of Some s \<Rightarrow> s \<noteq> [] | None \<Rightarrow> False) then check_required c rest
      else Err (invalid_token (''Access token is missing the '' @ [CHR 0x27] @ claim @ [CHR 0x27] @ '' claim.'')))"

definition validate_access_token ::
  "('w, 'k, 'p, 's, 'u) verifier \<Rightarrow> string \<Rightarrow> string \<Rightarrow> ('w, verify_error, claims) io" where
  "validate_access_token V token claimed_issuer =
     (let E = v_crates V in
      io_bind (lift (peek_header E token)) (\<lambda>hdr.
      io_bind (lift (ensure (alg_in_policy (hdr_alg hdr)) (invalid_token
        (''Unsupported or non-asymmetric signature algorithm: '' @ hdr_alg hdr @ ''.'')))) (\<lambda>_.
      io_bind (lift (ensure (alg_is_verifiable E (hdr_alg hdr)) (invalid_token ES512_KNOWN_NARROWING))) (\<lambda>_.
      io_bind (io_map_err (\<lambda>_. invalid_token ''Access token verification failed.'')
                 (v_jwks V claimed_issuer)) (\<lambda>keys.
      io_bind (lift (map_err
          (\<lambda>e. invalid_token (''Access token verification failed: '' @ err_message e))
          (verify_signature E token keys (Some ''at+jwt'')))) (\<lambda>c.
      io_bind (lift (check_required c [''sub'', ''jti'', ''client_id''])) (\<lambda>_.
      io_bind (lift (ensure (str_claim c ''iss'' = Some claimed_issuer)
        (invalid_token ''Access token issuer mismatch.''))) (\<lambda>_.
      io_bind (lift (ensure (audience_matches c (audience (v_config V)))
        (invalid_token ''Access token verification failed: audience mismatch.''))) (\<lambda>_.
      io_bind (check_temporal V c) (\<lambda>_. lift (Ok c)))))))))))"

subsection \<open>Proof of possession\<close>

definition validate_cert_binding :: "auth_request \<Rightarrow> string \<Rightarrow> (verify_error, unit) outcome" where
  "validate_cert_binding req expected =
     (case client_cert_x5t_s256 req of
        None \<Rightarrow> Err (invalid_token
          ''Certificate-bound access token requires a client certificate (none presented).'')
      | Some presented \<Rightarrow> ensure (constant_time_eq presented expected) (invalid_token
          ''Certificate-bound access token confirmation mismatch (cnf.x5t#S256 != presented client certificate).''))"

text \<open>\<open>(now - iat).abs() > window\<close> on \<open>i64\<close>: the subtraction and \<open>abs\<close> may both overflow.\<close>

definition check_freshness ::
  "bool \<Rightarrow> int \<Rightarrow> int \<Rightarrow> int \<Rightarrow> (verify_error, unit) outcome" where
  "check_freshness oc now iat tol =
     and_then (u64_result oc (DPOP_PROOF_MAX_AGE_SECS + tol)) (\<lambda>win.
     and_then (i64_result oc (now - iat)) (\<lambda>diff.
     and_then (i64_result oc \<bar>diff\<bar>) (\<lambda>age.
     ensure (age \<le> wrap_i64 win) (invalid_token_dpop ''DPoP proof iat is not recent enough.''))))"

definition check_ath ::
  "('k, 'p, 's) crates \<Rightarrow> claims \<Rightarrow> string \<Rightarrow> bool \<Rightarrow> (verify_error, unit) outcome" where
  "check_ath E c access_token require_ath =
     (if require_ath then
        (case str_claim c ''ath'' of
           Some a \<Rightarrow> ensure (a = ath E access_token) (invalid_token_dpop ''DPoP proof ath mismatch.'')
         | None \<Rightarrow> Err (invalid_token_dpop ''DPoP proof is missing ath.''))
      else
        (case str_claim c ''ath'' of
           Some a \<Rightarrow> ensure (a = ath E access_token) (invalid_token_dpop ''DPoP proof ath mismatch.'')
         | None \<Rightarrow> Ok ()))"

definition validate_dpop_proof ::
  "('w, 'k, 'p, 's, 'u) verifier \<Rightarrow> auth_request \<Rightarrow> string \<Rightarrow> string \<Rightarrow> string \<Rightarrow> bool
   \<Rightarrow> ('w, verify_error, unit) io" where
  "validate_dpop_proof V req proof access_token cnf_jkt require_ath =
     (let E = v_crates V; U = v_urls V in
      io_bind (lift (map_err
          (\<lambda>e. invalid_token_dpop (''DPoP proof verification failed: '' @ err_message e))
          (verify_proof_with_embedded_jwk E proof ''dpop+jwt''))) (\<lambda>(c, jwk).
      io_bind (lift (ensure (eq_ignore_ascii_case
            (case str_claim c ''htm'' of Some s \<Rightarrow> s | None \<Rightarrow> []) (req_method req))
        (invalid_token_dpop ''DPoP proof htm mismatch.''))) (\<lambda>_.
      io_bind (lift (ensure
            (case str_claim c ''htu'' of
               Some h \<Rightarrow> normalize_htu U h = normalize_htu U (req_url req) | None \<Rightarrow> False)
        (invalid_token_dpop ''DPoP proof htu mismatch.''))) (\<lambda>_.
      io_bind (lift (ensure
            (case str_claim c ''jti'' of Some s \<Rightarrow> s \<noteq> [] | None \<Rightarrow> False)
        (invalid_token_dpop ''DPoP proof is missing a jti.''))) (\<lambda>_.
      io_bind (lift (ok_or (i64_claim c ''iat'') (invalid_token_dpop ''DPoP proof is missing iat.''))) (\<lambda>iat.
      io_bind (now_secs V) (\<lambda>now.
      io_bind (lift (check_freshness (overflow_checks E) now iat (clock_tolerance_secs (v_config V)))) (\<lambda>_.
      io_bind (lift (check_ath E c access_token require_ath)) (\<lambda>_.
      io_bind (lift (map_err
          (\<lambda>e. invalid_token_dpop (''DPoP proof key is invalid: '' @ display_jwk_error e @ ''.''))
          (thumbprint_sha256 E jwk))) (\<lambda>proof_jkt.
      lift (ensure (proof_jkt = cnf_jkt) (invalid_token_dpop
        ''JWT Access Token confirmation mismatch (cnf.jkt != proof jwk thumbprint).''))))))))))))"

definition validate_token ::
  "('w, 'k, 'p, 's, 'u) verifier \<Rightarrow> auth_request \<Rightarrow> string \<Rightarrow> string \<Rightarrow> bool
   \<Rightarrow> ('w, verify_error, claims) io" where
  "validate_token V req token claimed_issuer dpop_scheme =
     (let E = v_crates V in
      io_bind (validate_access_token V token claimed_issuer) (\<lambda>c.
        let jkt = extract_cnf_jkt c; x5t = extract_cnf_x5t_s256 E c in
        if x5t = Some Malformed then lift (Err (invalid_token
          ''Access token certificate binding (cnf.x5t#S256) is malformed.''))
        else
          (let cert_thumbprint = (case x5t of Some (Thumbprint t) \<Rightarrow> Some t | _ \<Rightarrow> None);
               is_cert_bound = (cert_thumbprint \<noteq> None);
               must_dpop = (jkt \<noteq> None \<or> dpop_scheme \<or> require_dpop (v_config V) \<and> \<not> is_cert_bound)
           in
           io_bind
             (if must_dpop then
                io_bind (lift (ok_or (dpop req)
                  (invalid_token_dpop ''DPoP proof is required (no DPoP HTTP Header).''))) (\<lambda>proof.
                io_bind (lift (ok_or jkt (invalid_token_dpop
                  ''Access token is not DPoP-bound (no cnf.jkt confirmation claim).''))) (\<lambda>cnf_jkt.
                let ath_compat = (allow_missing_ath (v_config V) \<and> \<not> proof_has_ath E proof);
                    require_ath = (\<not> ath_compat)
                in validate_dpop_proof V req proof token cnf_jkt require_ath))
              else lift (Ok ())) (\<lambda>_.
           io_bind (lift (case cert_thumbprint of
               Some expected \<Rightarrow> validate_cert_binding req expected | None \<Rightarrow> Ok ())) (\<lambda>_.
           lift (Ok c))))))"

subsection \<open>Identity, replay and issuer checks\<close>

definition extract_webid ::
  "('w, 'k, 'p, 's, 'u) verifier \<Rightarrow> claims \<Rightarrow> (verify_error, string) outcome" where
  "extract_webid V c =
     (let missing = Err (invalid_token (''Token is missing the '' @ [CHR 0x27]
            @ webid_claim (v_config V) @ [CHR 0x27] @ '' claim.'')) in
      case str_claim c (webid_claim (v_config V)) of
        Some s \<Rightarrow> if s \<noteq> [] then validate_webid_claim (v_urls V) s else missing
      | None \<Rightarrow> missing)"

definition check_authorized_party ::
  "('w, 'k, 'p, 's, 'u) verifier \<Rightarrow> claims \<Rightarrow> (verify_error, unit) outcome" where
  "check_authorized_party V c =
     (if authorized_parties (v_config V) = [] then Ok ()
      else
        (let azp = (case str_claim c ''azp'' of Some a \<Rightarrow> Some a | None \<Rightarrow> str_claim c ''client_id'') in
         case azp of
           Some a \<Rightarrow> ensure (a \<in> set (authorized_parties (v_config V)))
             (invalid_token ''Token authorized party is not accepted.'')
         | None \<Rightarrow> Err (invalid_token ''Token authorized party is not accepted.'')))"

definition replay_unavailable :: verify_error where
  "replay_unavailable = with_dpop True (new_error ReplayStoreUnavailable
     ''Replay protection backend is unavailable.'')"

definition check_replay ::
  "('w, 'k, 'p, 's, 'u) verifier \<Rightarrow> string \<Rightarrow> ('w, verify_error, unit) io" where
  "check_replay V proof =
     io_bind (lift (ok_or
         (case Option.bind (peek_claims (v_crates V) proof) (\<lambda>c. str_claim c ''jti'') of
            Some s \<Rightarrow> if s \<noteq> [] then Some s else None | None \<Rightarrow> None)
         (invalid_token_dpop ''DPoP proof is missing a jti.''))) (\<lambda>jti.
     io_bind (lift (replay_ttl (overflow_checks (v_crates V)) (v_config V))) (\<lambda>ttl w.
       case v_mark V jti ttl w of
         (Ok New, w') \<Rightarrow> (Ok (), w')
       | (Ok Replay, w') \<Rightarrow>
           (Err (invalid_token_dpop ''DPoP proof has already been used (replay).''), w')
       | (Err _, w') \<Rightarrow>
           (if replay_fail_closed (v_config V) then Err replay_unavailable else Ok (), w')
       | (Panic, w') \<Rightarrow> (Panic, w')))"

definition issuer_check_failed :: verify_error where
  "issuer_check_failed = invalid_token ''WebID issuer check failed.''"

definition check_bidirectional ::
  "('w, 'k, 'p, 's, 'u) verifier \<Rightarrow> string \<Rightarrow> string \<Rightarrow> ('w, verify_error, unit) io" where
  "check_bidirectional V web_id issuer =
     (let mode = bidirectional_mode (v_config V) in
      if mode = Off then lift (Ok ())
      else case webid_resolver (v_config V) of
        None \<Rightarrow> lift (if mode = Strict then Err issuer_check_failed else Ok ())
      | Some resolver \<Rightarrow> (\<lambda>w.
          case resolver web_id w of
            (Panic, w') \<Rightarrow> (Panic, w')
          | (r, w') \<Rightarrow>
              (let listed = (case r of Ok profile \<Rightarrow> issuer \<in> issuers profile | _ \<Rightarrow> False) in
               (if listed then Ok ()
                else if mode = Strict then Err issuer_check_failed else Ok (), w'))))"

subsection \<open>The entry point\<close>

definition check_scheme ::
  "('w, 'k, 'p, 's, 'u) verifier \<Rightarrow> string \<Rightarrow> string \<Rightarrow> (verify_error, unit) outcome" where
  "check_scheme V scheme token =
     (if scheme = ''bearer'' then
        (if require_dpop (v_config V) \<and> \<not> token_is_cert_bound (v_crates V) token
         then Err (invalid_request ''DPoP-bound token required; Bearer not accepted.'') else Ok ())
      else if scheme = ''dpop'' then Ok ()
      else Err (invalid_request (''Unsupported Authorization scheme: '' @ scheme @ ''.'')))"

definition credentials ::
  "('k, 'p, 's) crates \<Rightarrow> claims \<Rightarrow> string \<Rightarrow> string \<Rightarrow> verified_token" where
  "credentials E c web_id issuer =
     \<lparr>tok_web_id = Some web_id, tok_issuer = Some issuer, tok_client_id = str_claim c ''client_id'',
      tok_scopes = (case str_claim c ''scope'' of Some s \<Rightarrow> split_whitespace s | None \<Rightarrow> []),
      tok_cnf_jkt = extract_cnf_jkt c, tok_cnf_x5t_s256 = extract_cnf_x5t_s256 E c,
      tok_expiry = i64_claim c ''exp''\<rparr>"

definition verify ::
  "('w, 'k, 'p, 's, 'u) verifier \<Rightarrow> auth_request \<Rightarrow> ('w, verify_error, verified_token) io" where
  "verify V req =
     (let E = v_crates V; cfg = v_config V in
      case parse_authorization E (authorization req) of
        None \<Rightarrow> lift (Ok public_token)
      | Some (scheme, token) \<Rightarrow>
          io_bind (lift (check_scheme V scheme token)) (\<lambda>_.
          io_bind (lift (peek_issuer E token)) (\<lambda>claimed_issuer.
          io_bind (lift (ensure (claimed_issuer \<in> set (trusted_issuers cfg))
            (invalid_token ''Token issuer is not trusted.''))) (\<lambda>_.
          let dpop_scheme = (scheme = ''dpop'') in
          io_bind (validate_token V req token claimed_issuer dpop_scheme) (\<lambda>c.
          io_bind (lift (extract_webid V c)) (\<lambda>web_id.
          io_bind (lift (check_authorized_party V c)) (\<lambda>_.
          io_bind (case dpop req of Some proof \<Rightarrow> check_replay V proof | None \<Rightarrow> lift (Ok ())) (\<lambda>_.
          let issuer = (case str_claim c ''iss'' of Some i \<Rightarrow> i | None \<Rightarrow> claimed_issuer) in
          io_bind (check_bidirectional V web_id issuer) (\<lambda>_.
          lift (Ok (credentials E c web_id issuer)))))))))))"

definition challenge :: "('w, 'k, 'p, 's, 'u) verifier \<Rightarrow> verify_error \<Rightarrow> string" where
  "challenge V err =
     www_authenticate err (trusted_issuers (v_config V)) DPOP_ALGS (require_dpop (v_config V))"

end
