(* ===== verification/Acceptance.thy ===== *)
theory Acceptance
  imports Verifier
begin

section \<open>What the steps of the verifier decide\<close>

text \<open>
  Each step of theory \<open>Verifier\<close> against a specification in plain terms: byte equality, temporal
  validity and freshness over unbounded integers, the checks of the access token and of the proof.
  Then the inversion of a successful \<open>verify\<close>, from which the properties follow.
\<close>

named_theorems accept_iffs \<open>when a step succeeds\<close>

subsection \<open>Bytes and words\<close>

lemma byte_inject: "byte x = byte y \<longleftrightarrow> x = y"
proof
  assume "byte x = byte y"
  then have "(of_char x :: nat) mod 256 = of_char y mod 256"
    by (simp add: byte_def word_of_nat_eq_iff take_bit_eq_mod)
  then show "x = y" by simp
qed simp

lemma or_accumulates:
  "foldl (\<lambda>diff (x, y). or diff (xor (byte x) (byte y))) d ps = 0 \<longleftrightarrow>
     d = 0 \<and> (\<forall>(x, y) \<in> set ps. x = y)"
proof (induction ps arbitrary: d)
  case (Cons p ps)
  obtain x y where p: "p = (x, y)" by fastforce
  have x0: "xor u v = 0 \<longleftrightarrow> u = v" for u v :: "8 word"
    by (auto simp: bit_eq_iff bit_xor_iff)
  have "or d (xor (byte x) (byte y)) = 0 \<longleftrightarrow> d = 0 \<and> x = y"
    by (simp add: or_eq_0_iff x0 byte_inject)
  then show ?case using Cons by (auto simp: p)
qed simp

lemma constant_time_eq_iff [accept_iffs]: "constant_time_eq a b \<longleftrightarrow> a = b"
proof -
  have "length a = length b \<Longrightarrow> (\<forall>(x, y) \<in> set (zip a b). x = y) \<longleftrightarrow> a = b"
    by (induction a b rule: list_induct2) auto
  then show ?thesis by (auto simp: constant_time_eq_def or_accumulates)
qed

subsection \<open>Time\<close>

text \<open>
  The range in which the machine arithmetic of the verifier is exact: a clock before the year
  146 billion and a tolerance below \<open>2 ^ 61\<close> seconds.
\<close>

definition sane_time :: "int \<Rightarrow> bool" where
  "sane_time now \<longleftrightarrow> 0 \<le> now \<and> now < 2 ^ 62"

definition sane_tolerance :: "int \<Rightarrow> bool" where
  "sane_tolerance tol \<longleftrightarrow> 0 \<le> tol \<and> tol < 2 ^ 61"

text \<open>Temporal validity of an access token at \<open>now\<close>, over the integers.\<close>

definition valid_at :: "int \<Rightarrow> int \<Rightarrow> claims \<Rightarrow> bool" where
  "valid_at now tol c \<longleftrightarrow>
     (case i64_claim c ''exp'' of Some exp \<Rightarrow> now - tol \<le> exp | None \<Rightarrow> False)
     \<and> (case i64_claim c ''nbf'' of Some nbf \<Rightarrow> nbf \<le> now + tol | None \<Rightarrow> True)
     \<and> (case i64_claim c ''iat'' of Some iat \<Rightarrow> iat - tol \<le> now | None \<Rightarrow> False)"

lemma i64_bounds: "i64_claim c k = Some n \<Longrightarrow> - (2 ^ 63) \<le> n \<and> n < 2 ^ 63"
  using i64_claim_range by (simp add: in_i64_def)

lemma mod_eqI: "0 \<le> y \<Longrightarrow> y < m \<Longrightarrow> x = y + k * m \<Longrightarrow> x mod m = y"
  for x y k m :: int
  by simp

lemma wrap_low: "- (2 ^ 64) \<le> x \<Longrightarrow> x < - (2 ^ 63) \<Longrightarrow> wrap_i64 x = x + 2 ^ 64"
  using mod_eqI [of "x + 2 ^ 63 + 2 ^ 64" "2 ^ 64" "x + 2 ^ 63" "- 1"] by (simp add: wrap_i64_def)

lemma wrap_high: "2 ^ 63 \<le> x \<Longrightarrow> x < 2 ^ 64 \<Longrightarrow> wrap_i64 x = x - 2 ^ 64"
  using mod_eqI [of "x + 2 ^ 63 - 2 ^ 64" "2 ^ 64" "x + 2 ^ 63" 1] by (simp add: wrap_i64_def)

text \<open>
  The check is sound in the sane range whatever the claims hold. It refuses one more case: an
  \<open>iat\<close> within the tolerance of the smallest \<open>i64\<close>, where the subtraction overflows.
\<close>

lemma temporal_Ok_iff [accept_iffs]:
  assumes "sane_time now" "sane_tolerance tol"
  shows "check_temporal_at oc now tol c = Ok () \<longleftrightarrow>
    valid_at now tol c
    \<and> (case i64_claim c ''iat'' of Some iat \<Rightarrow> - (2 ^ 63) + tol \<le> iat | None \<Rightarrow> True)"
proof -
  have r: "i64_result oc (now - tol) = Ok (now - tol)" "i64_result oc (now + tol) = Ok (now + tol)"
    for oc :: bool
    using assms by (simp_all add: sane_time_def sane_tolerance_def in_i64_def)
  have iat: "and_then (i64_result oc (i - tol)) (\<lambda>d. if now < d then Err e else Ok ()) = Ok ()
      \<longleftrightarrow> i - tol \<le> now \<and> - (2 ^ 63) + tol \<le> i" if "i64_claim c ''iat'' = Some i" for i and e :: verify_error
  proof (cases "in_i64 (i - tol)")
    case True
    then show ?thesis by (auto simp: in_i64_def)
  next
    case False
    have "- (2 ^ 64) \<le> i - tol" "i - tol < - (2 ^ 63)"
      using i64_bounds [OF that] False assms by (auto simp: in_i64_def sane_tolerance_def)
    then have "wrap_i64 (i - tol) = i - tol + 2 ^ 64" by (rule wrap_low)
    moreover have "now < i - tol + 2 ^ 64"
      using i64_bounds [OF that] assms by (simp add: sane_time_def sane_tolerance_def)
    ultimately show ?thesis
      using \<open>i - tol < - (2 ^ 63)\<close> by (auto simp: outcome_simps)
  qed
  show ?thesis
    unfolding check_temporal_at_def valid_at_def and_then_iffs
    by (cases "i64_claim c ''exp''"; cases "i64_claim c ''nbf''"; cases "i64_claim c ''iat''")
      (auto simp: r iat simp del: and_then_iffs)
qed

text \<open>Freshness of a proof, over the integers.\<close>

definition fresh_at :: "int \<Rightarrow> int \<Rightarrow> int \<Rightarrow> bool" where
  "fresh_at now tol iat \<longleftrightarrow> \<bar>now - iat\<bar> \<le> 300 + tol"

text \<open>
  What the code computes instead: with overflow checks a difference of \<open>2 ^ 63\<close> or more panics;
  without them a difference of exactly \<open>2 ^ 63\<close> wraps to the smallest \<open>i64\<close>, whose \<open>abs\<close> is
  itself, and passes.
\<close>

lemma freshness_cases:
  assumes "sane_time now" "sane_tolerance tol" "in_i64 iat"
  shows "now - iat < 2 ^ 63 \<Longrightarrow>
      check_freshness oc now iat tol =
        ensure (fresh_at now tol iat) (invalid_token_dpop ''DPoP proof iat is not recent enough.'')"
    and "2 ^ 63 \<le> now - iat \<Longrightarrow> check_freshness True now iat tol = Panic"
    and "2 ^ 63 \<le> now - iat \<Longrightarrow> check_freshness False now iat tol =
        ensure (now - iat = 2 ^ 63) (invalid_token_dpop ''DPoP proof iat is not recent enough.'')"
proof -
  have win: "u64_result oc (DPOP_PROOF_MAX_AGE_SECS + tol) = Ok (300 + tol)" "wrap_i64 (300 + tol) = 300 + tol"
    for oc :: bool
    using assms(2) by (simp_all add: sane_tolerance_def in_u64_def DPOP_PROOF_MAX_AGE_SECS_def
        wrap_i64_id in_i64_def)
  have b: "- (2 ^ 63) \<le> iat" "iat < 2 ^ 63" "0 \<le> now" "now < 2 ^ 62"
    using assms(1,3) by (simp_all add: in_i64_def sane_time_def)
  show "check_freshness oc now iat tol =
      ensure (fresh_at now tol iat) (invalid_token_dpop ''DPoP proof iat is not recent enough.'')"
    if d: "now - iat < 2 ^ 63"
  proof -
    have "in_i64 (now - iat)" "in_i64 \<bar>now - iat\<bar>"
      using b d by (auto simp: in_i64_def)
    then show ?thesis by (simp add: check_freshness_def win fresh_at_def)
  qed
  assume d: "2 ^ 63 \<le> now - iat"
  show "check_freshness True now iat tol = Panic"
    using d by (simp add: check_freshness_def win i64_result_def in_i64_def)
  have w: "wrap_i64 (now - iat) = now - iat - 2 ^ 64"
    using d b by (intro wrap_high) simp_all
  show "check_freshness False now iat tol =
      ensure (now - iat = 2 ^ 63) (invalid_token_dpop ''DPoP proof iat is not recent enough.'')"
  proof (cases "now - iat = 2 ^ 63")
    case True
    then have "wrap_i64 (now - iat) = - (2 ^ 63)" using w by simp
    moreover have "wrap_i64 (2 ^ 63) = - (2 ^ 63)" by (simp add: wrap_i64_def)
    ultimately show ?thesis
      using True assms(2) by (simp add: check_freshness_def win i64_result_release sane_tolerance_def)
  next
    case False
    then have "in_i64 \<bar>now - iat - 2 ^ 64\<bar>" "300 + tol < \<bar>now - iat - 2 ^ 64\<bar>"
      using d b assms(2) by (auto simp: in_i64_def sane_tolerance_def)
    then show ?thesis
      using False by (simp add: check_freshness_def win i64_result_release w wrap_i64_id)
  qed
qed

lemma freshness_Ok_iff [accept_iffs]:
  assumes "sane_time now" "sane_tolerance tol" "in_i64 iat"
  shows "check_freshness oc now iat tol = Ok () \<longleftrightarrow>
    fresh_at now tol iat \<or> \<not> oc \<and> now - iat = 2 ^ 63"
proof (cases "now - iat < 2 ^ 63")
  case False
  moreover from this have "\<not> fresh_at now tol iat"
    using assms(2) by (auto simp: fresh_at_def sane_tolerance_def)
  ultimately show ?thesis
    using freshness_cases(2,3) [OF assms] by (cases oc) (auto simp: outcome_simps)
qed (use freshness_cases(1) [OF assms] in \<open>auto simp: outcome_simps\<close>)

text \<open>C39: The freshness check, exactly. For a clock in the range of \<open>2 ^ 62\<close> seconds and any \<open>i64\<close> \<open>iat\<close>,
  the check is the integer comparison \<open>|now - iat| <= 300 + tolerance\<close>, unless \<open>now - iat\<close> leaves
  \<open>i64\<close>: then a build with overflow checks panics, and a release build accepts the one \<open>iat\<close> that is
  \<open>2 ^ 63\<close> seconds old and refuses the others.\<close>

theorem freshness_exact:
  assumes "sane_time now" and "sane_tolerance tol" and "in_i64 iat"
  shows "check_freshness oc now iat tol =
    (let stale = invalid_token_dpop ''DPoP proof iat is not recent enough.'' in
     if now - iat < 2 ^ 63 then ensure (fresh_at now tol iat) stale
     else if oc then Panic
     else ensure (now - iat = 2 ^ 63) stale)"
  using freshness_cases [OF assms] by (cases oc) (simp_all add: Let_def)

theorem freshness_exact_witness:
  "check_freshness True 1000 695 5 = Ok () \<and> check_freshness True 1000 1306 5 \<noteq> Ok ()
   \<and> check_freshness True 1000 (1000 - 2 ^ 63) 5 = Panic
   \<and> check_freshness False 1000 (1000 - 2 ^ 63) 5 = Ok ()"
  using freshness_exact [of 1000 5 695 True] freshness_exact [of 1000 5 1306 True]
    freshness_exact [of 1000 5 "1000 - 2 ^ 63" True] freshness_exact [of 1000 5 "1000 - 2 ^ 63" False]
  by (simp add: sane_time_def sane_tolerance_def in_i64_def fresh_at_def ensure_def)

lemma replay_ttl_exact:
  assumes "sane_tolerance (clock_tolerance_secs cfg)"
  shows "replay_ttl oc cfg = Ok (nat (2 * (300 + clock_tolerance_secs cfg) + 1) * 10 ^ 9)"
  using assms
  by (simp add: replay_ttl_def DPOP_PROOF_MAX_AGE_SECS_def sane_tolerance_def in_u64_def)

definition sane_clock :: "('w, 'k, 'p, 's, 'u) verifier \<Rightarrow> bool" where
  "sane_clock V \<longleftrightarrow> (\<forall>w n w'. v_clock V w = (Some n, w') \<longrightarrow> n < 2 ^ 62)"

lemma now_sane:
  assumes "sane_clock V" "now_secs V w = (Ok now, w')"
  shows "sane_time now"
proof (cases "fst (v_clock V w)")
  case (Some n)
  then have "n < 2 ^ 62" "now = wrap_i64 (int n)"
    using assms by (auto simp: sane_clock_def now_secs_def split: prod.splits)
  moreover from this have "int n < 2 ^ 62" by simp
  ultimately show ?thesis by (simp add: sane_time_def wrap_i64_id in_i64_def)
qed (use assms in \<open>auto simp: now_secs_def sane_time_def split: prod.splits\<close>)

lemma now_secs_Ok: "now_secs V w = (r, w') \<Longrightarrow> \<exists>now. r = Ok now"
  by (auto simp: now_secs_def split: prod.splits option.splits)

subsection \<open>The steps\<close>

definition nonempty_claim :: "claims \<Rightarrow> string \<Rightarrow> bool" where
  "nonempty_claim c k \<longleftrightarrow> (\<exists>s. str_claim c k = Some s \<and> s \<noteq> [])"

lemma nonempty_claim_code [code]:
  "nonempty_claim c k = (case str_claim c k of Some s \<Rightarrow> s \<noteq> [] | None \<Rightarrow> False)"
  by (simp add: nonempty_claim_def split: option.split)

lemma check_required_Ok_iff [accept_iffs]:
  "check_required c ks = Ok () \<longleftrightarrow> list_all (nonempty_claim c) ks"
  by (induction ks) (auto simp: nonempty_claim_def split: option.splits)

text \<open>What an access token must be, given the keys of its issuer.\<close>

definition token_valid ::
  "('w, 'k, 'p, 's, 'u) verifier \<Rightarrow> string \<Rightarrow> string \<Rightarrow> jwk list \<Rightarrow> claims \<Rightarrow> bool" where
  "token_valid V token issuer keys c \<longleftrightarrow>
     verify_signature (v_crates V) token keys (Some ''at+jwt'') = Ok c
     \<and> list_all (nonempty_claim c) [''sub'', ''jti'', ''client_id'']
     \<and> str_claim c ''iss'' = Some issuer \<and> audience_matches c (audience (v_config V))"

lemma verify_signature_header:
  "verify_signature E token ks typ = Ok c \<Longrightarrow>
     \<exists>hdr. peek_header E token = Ok hdr \<and> alg_in_policy (hdr_alg hdr) \<and> alg_is_verifiable E (hdr_alg hdr)"
  using alg_verifiable_in_policy by (auto simp: verify_signature_Ok_iff)

lemma validate_access_token_Ok_iff [accept_iffs]:
  "validate_access_token V token issuer w = (Ok c, w') \<longleftrightarrow>
     (\<exists>keys w1 now. v_jwks V issuer w = (Ok keys, w1) \<and> token_valid V token issuer keys c
        \<and> now_secs V w1 = (Ok now, w')
        \<and> check_temporal_at (overflow_checks (v_crates V)) now
            (wrap_i64 (clock_tolerance_secs (v_config V))) c = Ok ())"
  (is "?l \<longleftrightarrow> ?r")
proof
  assume ?l
  then show ?r
    by (auto simp: validate_access_token_def Let_def outcome_simps check_temporal_def token_valid_def
        check_required_Ok_iff simp del: check_required.simps list.pred_inject)
next
  assume ?r
  then obtain keys w1 now where *: "v_jwks V issuer w = (Ok keys, w1)" "token_valid V token issuer keys c"
      "now_secs V w1 = (Ok now, w')"
      "check_temporal_at (overflow_checks (v_crates V)) now (wrap_i64 (clock_tolerance_secs (v_config V))) c = Ok ()"
    by blast
  obtain hdr where "peek_header (v_crates V) token = Ok hdr" "alg_in_policy (hdr_alg hdr)"
      "alg_is_verifiable (v_crates V) (hdr_alg hdr)"
    using *(2) verify_signature_header unfolding token_valid_def by blast
  moreover have "check_required c [''sub'', ''jti'', ''client_id''] = Ok ()"
    using *(2) unfolding check_required_Ok_iff token_valid_def by blast
  ultimately show ?l
    using * unfolding validate_access_token_def Let_def token_valid_def check_temporal_def
    by (simp add: io_bind_step io_map_err_def del: check_required.simps)
qed

text \<open>What a DPoP proof must be for a request and a key thumbprint.\<close>

definition proof_valid ::
  "('w, 'k, 'p, 's, 'u) verifier \<Rightarrow> auth_request \<Rightarrow> string \<Rightarrow> string \<Rightarrow> string \<Rightarrow> bool \<Rightarrow> claims \<Rightarrow> int \<Rightarrow> bool" where
  "proof_valid V req proof_jws access_token jkt require_ath c iat \<longleftrightarrow>
     (\<exists>k. verify_proof_with_embedded_jwk (v_crates V) proof_jws ''dpop+jwt'' = Ok (c, k)
        \<and> thumbprint_sha256 (v_crates V) k = Ok jkt)
     \<and> eq_ignore_ascii_case (case str_claim c ''htm'' of Some s \<Rightarrow> s | None \<Rightarrow> []) (req_method req)
     \<and> (\<exists>h. str_claim c ''htu'' = Some h \<and> normalize_htu (v_urls V) h = normalize_htu (v_urls V) (req_url req))
     \<and> nonempty_claim c ''jti'' \<and> i64_claim c ''iat'' = Some iat
     \<and> (case str_claim c ''ath'' of Some a \<Rightarrow> a = ath (v_crates V) access_token | None \<Rightarrow> \<not> require_ath)"

lemma check_ath_Ok_iff [accept_iffs]:
  "check_ath E c token require_ath = Ok () \<longleftrightarrow>
     (case str_claim c ''ath'' of Some a \<Rightarrow> a = ath E token | None \<Rightarrow> \<not> require_ath)"
  by (auto simp: check_ath_def outcome_simps split: option.splits)

lemma validate_dpop_proof_Ok:
  assumes "validate_dpop_proof V req p token jkt require_ath w = (Ok u, w')"
  shows "\<exists>c iat now. proof_valid V req p token jkt require_ath c iat \<and> now_secs V w = (Ok now, w')
    \<and> check_freshness (overflow_checks (v_crates V)) now iat (clock_tolerance_secs (v_config V)) = Ok ()"
proof -
  obtain c k where k: "verify_proof_with_embedded_jwk (v_crates V) p ''dpop+jwt'' = Ok (c, k)"
    using assms unfolding validate_dpop_proof_def Let_def
    by (auto simp: outcome_simps)
  have "\<exists>iat now. proof_valid V req p token jkt require_ath c iat \<and> now_secs V w = (Ok now, w')
    \<and> check_freshness (overflow_checks (v_crates V)) now iat (clock_tolerance_secs (v_config V)) = Ok ()"
    using assms unfolding validate_dpop_proof_def Let_def
    by (auto simp: outcome_simps k proof_valid_def nonempty_claim_def check_ath_Ok_iff split: option.splits)
  then show ?thesis by blast
qed

lemma validate_cert_binding_Ok_iff [accept_iffs]:
  "validate_cert_binding req t = Ok () \<longleftrightarrow> client_cert_x5t_s256 req = Some t"
  by (auto simp: validate_cert_binding_def outcome_simps constant_time_eq_iff split: option.splits)

lemma check_authorized_party_Ok_iff [accept_iffs]:
  "check_authorized_party V c = Ok () \<longleftrightarrow>
     authorized_parties (v_config V) = []
     \<or> (\<exists>a \<in> set (authorized_parties (v_config V)).
          str_claim c ''azp'' = Some a \<or> str_claim c ''azp'' = None \<and> str_claim c ''client_id'' = Some a)"
  by (auto simp: check_authorized_party_def Let_def outcome_simps split: option.splits)

lemma extract_webid_Ok_iff [accept_iffs]:
  "extract_webid V c = Ok web_id \<longleftrightarrow>
     str_claim c (webid_claim (v_config V)) = Some web_id \<and> validate_webid_claim (v_urls V) web_id = Ok web_id"
  by (auto simp: extract_webid_def validate_webid_claim_def Let_def split: option.splits if_splits)

text \<open>Proof of possession, by its two means.\<close>

definition proof_given ::
  "('w, 'k, 'p, 's, 'u) verifier \<Rightarrow> auth_request \<Rightarrow> string \<Rightarrow> string \<Rightarrow> 'w \<Rightarrow> 'w \<Rightarrow> bool" where
  "proof_given V req token jkt w w' \<longleftrightarrow>
     (\<exists>p c iat now. dpop req = Some p
        \<and> proof_valid V req p token jkt
            (\<not> (allow_missing_ath (v_config V) \<and> \<not> proof_has_ath (v_crates V) p)) c iat
        \<and> now_secs V w = (Ok now, w')
        \<and> check_freshness (overflow_checks (v_crates V)) now iat (clock_tolerance_secs (v_config V)) = Ok ())"

definition must_dpop :: "('w, 'k, 'p, 's, 'u) verifier \<Rightarrow> claims \<Rightarrow> bool \<Rightarrow> bool" where
  "must_dpop V c dpop_scheme \<longleftrightarrow>
     extract_cnf_jkt c \<noteq> None \<or> dpop_scheme
     \<or> require_dpop (v_config V) \<and> (\<nexists>t. extract_cnf_x5t_s256 (v_crates V) c = Some (Thumbprint t))"

lemma validate_token_Ok:
  assumes "validate_token V req token issuer dpop_scheme w = (Ok c, w')"
  shows "\<exists>w1. validate_access_token V token issuer w = (Ok c, w1)
    \<and> extract_cnf_x5t_s256 (v_crates V) c \<noteq> Some Malformed
    \<and> (if must_dpop V c dpop_scheme
       then \<exists>jkt. extract_cnf_jkt c = Some jkt \<and> proof_given V req token jkt w1 w' else w' = w1)
    \<and> (\<forall>t. extract_cnf_x5t_s256 (v_crates V) c = Some (Thumbprint t) \<longrightarrow> client_cert_x5t_s256 req = Some t)"
proof -
  let ?x5t = "\<lambda>c. extract_cnf_x5t_s256 (v_crates V) c"
  let ?cert = "\<lambda>c. case ?x5t c of Some (Thumbprint t) \<Rightarrow> Some t | _ \<Rightarrow> None"
  obtain w1 where a: "validate_access_token V token issuer w = (Ok c, w1)"
    and m: "?x5t c \<noteq> Some Malformed"
    and pop: "(if extract_cnf_jkt c \<noteq> None \<or> dpop_scheme \<or> require_dpop (v_config V) \<and> ?cert c = None
        then io_bind (lift (ok_or (dpop req)
                (invalid_token_dpop ''DPoP proof is required (no DPoP HTTP Header).''))) (\<lambda>p.
              io_bind (lift (ok_or (extract_cnf_jkt c) (invalid_token_dpop
                ''Access token is not DPoP-bound (no cnf.jkt confirmation claim).''))) (\<lambda>jkt.
              validate_dpop_proof V req p token jkt
                (\<not> (allow_missing_ath (v_config V) \<and> \<not> proof_has_ath (v_crates V) p))))
        else lift (Ok ())) w1 = (Ok (), w')"
    and cert: "(case ?cert c of Some e \<Rightarrow> validate_cert_binding req e | None \<Rightarrow> Ok ()) = Ok ()"
    using assms unfolding validate_token_def Let_def
    by (auto simp: outcome_simps split: if_splits)
  have bound: "?cert c = None \<longleftrightarrow> (\<nexists>t. ?x5t c = Some (Thumbprint t))"
    by (auto split: option.splits x5t_s256.splits)
  have "if must_dpop V c dpop_scheme
       then \<exists>jkt. extract_cnf_jkt c = Some jkt \<and> proof_given V req token jkt w1 w' else w' = w1"
    using pop unfolding must_dpop_def proof_given_def bound
    by (auto simp: outcome_simps dest!: validate_dpop_proof_Ok split: if_splits) blast+
  moreover have "client_cert_x5t_s256 req = Some t" if "?x5t c = Some (Thumbprint t)" for t
    using cert that by (simp add: validate_cert_binding_Ok_iff)
  ultimately show ?thesis using a m by blast
qed

end
