(* ===== verification/Verifier_Samples.thy ===== *)
theory Verifier_Samples
  imports Verifier
begin

section \<open>A concrete verifier for the witnesses\<close>

text \<open>
  One issuer with one key, a DPoP-bound token, a certificate-bound token and a proof, over the
  sample crates (identity hash and encoding). The world counts the marks; the clock stands at
  second 1000.
\<close>

definition proof_key_json :: "(string \<times> json) list" where
  "proof_key_json = [(''kty'', VString ''EC''), (''crv'', VString ''P-256''), (''x'', VString ''j''), (''y'', VString ''y'')]"

definition proof_jkt :: string where
  "proof_jkt = (case canonical_jwk (ec_jwk ''j'') of Ok s \<Rightarrow> s | _ \<Rightarrow> [])"

definition cert_hash :: string where
  "cert_hash = replicate 32 (CHR ''c'')"

definition token_claims :: "string \<Rightarrow> json \<Rightarrow> claims" where
  "token_claims iss cnf = [(''iss'', VString iss), (''sub'', VString ''alice''), (''jti'', VString ''t1''),
     (''client_id'', VString ''app''), (''aud'', VArray [VString ''https://rs'']),
     (''exp'', VNumber (PosInt 2000)), (''iat'', VNumber (PosInt 900)),
     (''webid'', VString ''https://alice.example/card#me''), (''cnf'', cnf)]"

definition proof_claims :: "json \<Rightarrow> claims" where
  "proof_claims iat = [(''htm'', VString ''GET''), (''htu'', VString ''https://rs/r?q=1''), (''jti'', VString ''p1''),
     (''iat'', iat), (''ath'', VString ''h.p.k'')]"

definition verifier_table :: "(bytes \<times> json) list" where
  "verifier_table =
     [(''h'', VObject [(''alg'', VString ''ES256''), (''typ'', VString ''at+jwt'')]),
      (''p'', VObject (token_claims ''https://idp'' (VObject [(''jkt'', VString proof_jkt)]))),
      (''c'', VObject (token_claims ''https://idp'' (VObject [(''x5t#S256'', VString cert_hash)]))),
      (''e'', VObject (token_claims ''https://evil'' (VObject []))),
      (''d'', VObject [(''alg'', VString ''ES256''), (''typ'', VString ''dpop+jwt''), (''jwk'', VObject proof_key_json)]),
      (''q'', VObject (proof_claims (VNumber (PosInt 1000)))),
      (''o'', VObject (proof_claims (VNumber (NegInt (1000 - 2 ^ 63)))))]"

definition sample_config :: "nat verifier_config" where
  "sample_config = bidirectional Strict (\<lambda>_. lift (Ok \<lparr>issuers = {''https://idp''}\<rparr>))
     (new_config [''https://idp''] ''https://rs'')"

definition sample_verifier :: "(nat, string, string, string, sample_url) verifier" where
  "sample_verifier =
     \<lparr>v_config = sample_config,
      v_jwks = static_keys_for (with_issuer ''https://idp'' [ec_jwk ''k''] new_static),
      v_mark = (\<lambda>j ttl w. (Ok New, Suc w)),
      v_crates = sample_crates verifier_table, v_urls = sample_url_crate,
      v_clock = (\<lambda>w. (Some 1000, w))\<rparr>"

definition dpop_request :: auth_request where
  "dpop_request = \<lparr>authorization = Some ''DPoP h.p.k'', dpop = Some ''d.q.j'', req_method = ''get'',
     req_url = ''https://rs/r'', client_cert_x5t_s256 = None\<rparr>"

definition cert_request :: auth_request where
  "cert_request = \<lparr>authorization = Some ''Bearer h.c.k'', dpop = None, req_method = ''GET'',
     req_url = ''https://rs/r'', client_cert_x5t_s256 = Some cert_hash\<rparr>"

definition evil_request :: auth_request where
  "evil_request = \<lparr>authorization = Some ''DPoP h.e.k'', dpop = Some ''d.q.j'', req_method = ''GET'',
     req_url = ''https://rs/r'', client_cert_x5t_s256 = None\<rparr>"

definition alice :: verified_token where
  "alice = credentials (v_crates sample_verifier)
     (token_claims ''https://idp'' (VObject [(''jkt'', VString proof_jkt)]))
     ''https://alice.example/card#me'' ''https://idp''"

definition alice_by_cert :: verified_token where
  "alice_by_cert = credentials (v_crates sample_verifier)
     (token_claims ''https://idp'' (VObject [(''x5t#S256'', VString cert_hash)]))
     ''https://alice.example/card#me'' ''https://idp''"

lemma dpop_request_accepted: "verify sample_verifier dpop_request 0 = (Ok alice, 1)"
  by code_simp

lemma cert_request_accepted: "verify sample_verifier cert_request 0 = (Ok alice_by_cert, 0)"
  by code_simp

lemma evil_request_rejected:
  "verify sample_verifier evil_request 0 = (Err (invalid_token ''Token issuer is not trusted.''), 0)"
  by code_simp

lemma sample_parts [simp]:
  "v_crates sample_verifier = sample_crates verifier_table" "v_urls sample_verifier = sample_url_crate"
  "trusted_issuers (v_config sample_verifier) = [''https://idp'']"
  "audience (v_config sample_verifier) = ''https://rs''" "webid_claim (v_config sample_verifier) = ''webid''"
  "require_dpop (v_config sample_verifier)" "\<not> allow_missing_ath (v_config sample_verifier)"
  "clock_tolerance_secs (v_config sample_verifier) = 5"
  "bidirectional_mode (v_config sample_verifier) = Strict"
  "webid_resolver (v_config sample_verifier) = Some (\<lambda>_. lift (Ok \<lparr>issuers = {''https://idp''}\<rparr>))"
  "replay_fail_closed (v_config sample_verifier)"
  "v_mark sample_verifier j ttl w = (Ok New, Suc w)"
  "now_secs sample_verifier w = (Ok 1000, w)"
  "v_jwks sample_verifier ''https://idp'' w = (Ok [ec_jwk ''k''], w)"
  by (simp_all add: sample_verifier_def sample_config_def new_config_def bidirectional_def
      DEFAULT_CLOCK_TOLERANCE_SECS_def now_secs_def wrap_i64_def static_keys_for_def with_issuer_def
      new_static_def)

lemma sample_requests [simp]:
  "parse_authorization (sample_crates verifier_table) (authorization dpop_request) = Some (''dpop'', ''h.p.k'')"
  "parse_authorization (sample_crates verifier_table) (authorization cert_request) = Some (''bearer'', ''h.c.k'')"
  "parse_authorization (sample_crates verifier_table) (authorization evil_request) = Some (''dpop'', ''h.e.k'')"
  "dpop dpop_request = Some ''d.q.j''" "dpop cert_request = None"
  "client_cert_x5t_s256 cert_request = Some cert_hash"
  by (code_simp, code_simp, code_simp, simp_all add: dpop_request_def cert_request_def)

end
