(* ===== verification/Guarantees.thy ===== *)
theory Guarantees
  imports Acceptance Verifier_Samples
begin

section \<open>What an answer of the verifier means\<close>

text \<open>
  The inversion of \<open>verify\<close> and the guarantees of its two kinds of answer. An acceptance names an
  issuer, keys, claims, a proof of possession and a WebID; a rejection is a 401 or a 503, carries no
  detail of the provider, the store or the resolver, and before the issuer is known to be trusted it
  has touched nothing.
\<close>

subsection \<open>The inversion of \<open>verify\<close>\<close>

lemma verify_Ok:
  assumes "verify V req w = (Ok tok, w')"
  shows "parse_authorization (v_crates V) (authorization req) = None \<and> tok = public_token \<and> w' = w
    \<or> (\<exists>scheme token iss c web_id w1 w2.
        parse_authorization (v_crates V) (authorization req) = Some (scheme, token)
        \<and> check_scheme V scheme token = Ok () \<and> peek_issuer (v_crates V) token = Ok iss
        \<and> iss \<in> set (trusted_issuers (v_config V))
        \<and> validate_token V req token iss (scheme = ''dpop'') w = (Ok c, w1)
        \<and> extract_webid V c = Ok web_id \<and> check_authorized_party V c = Ok ()
        \<and> (case dpop req of Some p \<Rightarrow> check_replay V p w1 = (Ok (), w2) | None \<Rightarrow> w2 = w1)
        \<and> check_bidirectional V web_id iss w2 = (Ok (), w')
        \<and> tok = credentials (v_crates V) c web_id iss)"
proof (cases "parse_authorization (v_crates V) (authorization req)")
  case None
  then show ?thesis using assms by (simp add: verify_def)
next
  case (Some st)
  obtain scheme token where st: "st = (scheme, token)" by fastforce
  obtain iss c web_id w1 w2 i where *: "check_scheme V scheme token = Ok ()"
      "peek_issuer (v_crates V) token = Ok iss" "iss \<in> set (trusted_issuers (v_config V))"
      "validate_token V req token iss (scheme = ''dpop'') w = (Ok c, w1)"
      "extract_webid V c = Ok web_id" "check_authorized_party V c = Ok ()"
      "(case dpop req of Some p \<Rightarrow> check_replay V p | None \<Rightarrow> lift (Ok ())) w1 = (Ok (), w2)"
      "i = (case str_claim c ''iss'' of Some i \<Rightarrow> i | None \<Rightarrow> iss)"
      "check_bidirectional V web_id i w2 = (Ok (), w')"
      "tok = credentials (v_crates V) c web_id i"
    using assms Some st unfolding verify_def Let_def by (auto simp: outcome_simps)
  have "str_claim c ''iss'' = Some iss"
    using validate_token_Ok [OF *(4)] by (auto simp: validate_access_token_Ok_iff token_valid_def)
  then show ?thesis
    using * Some st by (fastforce split: option.splits)
qed

lemma accepted_cases:
  assumes "verify V req w = (Ok tok, w')" "\<not> is_public tok"
  obtains scheme token iss keys wk now c web_id wt w1 w2 where
    "parse_authorization (v_crates V) (authorization req) = Some (scheme, token)"
    "check_scheme V scheme token = Ok ()" "iss \<in> set (trusted_issuers (v_config V))"
    "v_jwks V iss w = (Ok keys, wk)" "token_valid V token iss keys c"
    "now_secs V wk = (Ok now, wt)"
    "check_temporal_at (overflow_checks (v_crates V)) now
       (wrap_i64 (clock_tolerance_secs (v_config V))) c = Ok ()"
    "extract_cnf_x5t_s256 (v_crates V) c \<noteq> Some Malformed"
    "if must_dpop V c (scheme = ''dpop'')
     then \<exists>jkt. extract_cnf_jkt c = Some jkt \<and> proof_given V req token jkt wt w1 else w1 = wt"
    "\<forall>t. extract_cnf_x5t_s256 (v_crates V) c = Some (Thumbprint t) \<longrightarrow> client_cert_x5t_s256 req = Some t"
    "extract_webid V c = Ok web_id" "check_authorized_party V c = Ok ()"
    "case dpop req of Some p \<Rightarrow> check_replay V p w1 = (Ok (), w2) | None \<Rightarrow> w2 = w1"
    "check_bidirectional V web_id iss w2 = (Ok (), w')"
    "tok = credentials (v_crates V) c web_id iss"
proof -
  have "tok \<noteq> public_token" using assms(2) by (auto simp: is_public_def public_token_def)
  then obtain scheme token iss c web_id w1 w2 where *:
      "parse_authorization (v_crates V) (authorization req) = Some (scheme, token)"
      "check_scheme V scheme token = Ok ()" "iss \<in> set (trusted_issuers (v_config V))"
      "validate_token V req token iss (scheme = ''dpop'') w = (Ok c, w1)"
      "extract_webid V c = Ok web_id" "check_authorized_party V c = Ok ()"
      "case dpop req of Some p \<Rightarrow> check_replay V p w1 = (Ok (), w2) | None \<Rightarrow> w2 = w1"
      "check_bidirectional V web_id iss w2 = (Ok (), w')"
      "tok = credentials (v_crates V) c web_id iss"
    using verify_Ok [OF assms(1)] by blast
  from validate_token_Ok [OF *(4)] obtain wt where
      "validate_access_token V token iss w = (Ok c, wt)"
      "extract_cnf_x5t_s256 (v_crates V) c \<noteq> Some Malformed"
      "if must_dpop V c (scheme = ''dpop'')
       then \<exists>jkt. extract_cnf_jkt c = Some jkt \<and> proof_given V req token jkt wt w1 else w1 = wt"
      "\<forall>t. extract_cnf_x5t_s256 (v_crates V) c = Some (Thumbprint t) \<longrightarrow> client_cert_x5t_s256 req = Some t"
    by blast
  moreover from this(1) obtain keys wk now where
      "v_jwks V iss w = (Ok keys, wk)" "token_valid V token iss keys c" "now_secs V wk = (Ok now, wt)"
      "check_temporal_at (overflow_checks (v_crates V)) now
         (wrap_i64 (clock_tolerance_secs (v_config V))) c = Ok ()"
    unfolding validate_access_token_Ok_iff by blast
  ultimately show thesis using * that by blast
qed

lemma check_scheme_Ok:
  "check_scheme V scheme token = Ok () \<Longrightarrow> scheme = ''bearer'' \<or> scheme = ''dpop''"
  by (auto simp: check_scheme_def split: if_splits)

lemma credentials_fields [simp]:
  "tok_web_id (credentials E c web_id iss) = Some web_id"
  "tok_issuer (credentials E c web_id iss) = Some iss"
  "tok_cnf_jkt (credentials E c web_id iss) = extract_cnf_jkt c"
  "tok_cnf_x5t_s256 (credentials E c web_id iss) = extract_cnf_x5t_s256 E c"
  "is_public (credentials E c web_id iss) = False"
  by (simp_all add: credentials_def is_public_def)

lemma tolerance_fits: "sane_tolerance tol \<Longrightarrow> wrap_i64 tol = tol"
  by (simp add: sane_tolerance_def wrap_i64_id in_i64_def)

lemma sample_sane:
  "sane_clock sample_verifier" "sane_tolerance (clock_tolerance_secs (v_config sample_verifier))"
  by (simp add: sane_clock_def sample_verifier_def, simp add: sane_tolerance_def)

lemma alice_not_public: "\<not> is_public alice" "\<not> is_public alice_by_cert"
  by (simp_all add: alice_def alice_by_cert_def)

subsection \<open>Acceptance\<close>

text \<open>C1: Nobody is authenticated but the bearer of a valid token of a trusted issuer. An accepted
  request names a token and an issuer on the trusted list; the keys the provider gives for exactly
  this issuer verify the token's signature (type \<open>at+jwt\<close>); its claims have the required strings, this
  issuer and the configured audience, and are temporally valid at the clock reading taken then; the
  WebID is an \<open>https\<close> URL without userinfo from the configured claim; the authorized party is on the
  list; and the credentials returned are those of these claims.\<close>

theorem verify_accepts_only_valid_tokens:
  assumes "sane_clock V" and "sane_tolerance (clock_tolerance_secs (v_config V))"
    and "verify V req w = (Ok tok, w')" and "\<not> is_public tok"
  shows "\<exists>scheme token iss keys wk now wt c web_id.
    parse_authorization (v_crates V) (authorization req) = Some (scheme, token)
    \<and> (scheme = ''bearer'' \<or> scheme = ''dpop'')
    \<and> iss \<in> set (trusted_issuers (v_config V)) \<and> v_jwks V iss w = (Ok keys, wk)
    \<and> verify_signature (v_crates V) token keys (Some ''at+jwt'') = Ok c
    \<and> list_all (nonempty_claim c) [''sub'', ''jti'', ''client_id'']
    \<and> str_claim c ''iss'' = Some iss \<and> audience_matches c (audience (v_config V))
    \<and> now_secs V wk = (Ok now, wt) \<and> valid_at now (clock_tolerance_secs (v_config V)) c
    \<and> str_claim c (webid_claim (v_config V)) = Some web_id
    \<and> (\<exists>url. url_parse (v_urls V) web_id = Some url \<and> url_scheme (v_urls V) url = ''https''
         \<and> \<not> has_userinfo (v_urls V) url)
    \<and> check_authorized_party V c = Ok ()
    \<and> tok = credentials (v_crates V) c web_id iss"
  using assms(3,4)
proof (cases rule: accepted_cases)
  case (1 scheme token iss keys wk now c web_id wt w1 w2)
  have "valid_at now (clock_tolerance_secs (v_config V)) c"
    using 1(7) temporal_Ok_iff [OF now_sane [OF assms(1) 1(6)] assms(2)] tolerance_fits [OF assms(2)]
    by simp
  moreover have "\<exists>url. url_parse (v_urls V) web_id = Some url \<and> url_scheme (v_urls V) url = ''https''
      \<and> \<not> has_userinfo (v_urls V) url"
    using 1(11) by (auto simp: extract_webid_Ok_iff validate_webid_claim_def split: option.splits if_splits)
  moreover have "str_claim c (webid_claim (v_config V)) = Some web_id"
    using 1(11) by (simp add: extract_webid_Ok_iff)
  ultimately show ?thesis
    using 1 check_scheme_Ok [OF 1(2)] unfolding token_valid_def by blast
qed

theorem verify_accepts_only_valid_tokens_witness:
  "\<exists>c. verify_signature (sample_crates verifier_table) ''h.p.k'' [ec_jwk ''k''] (Some ''at+jwt'') = Ok c
     \<and> valid_at 1000 5 c \<and> audience_matches c ''https://rs''"
  using verify_accepts_only_valid_tokens [OF sample_sane dpop_request_accepted alice_not_public(1)]
  by auto

text \<open>C4: A key-bound token is worth nothing without its key. Whenever the accepted token carries
  \<open>cnf.jkt\<close>, or was presented under the DPoP scheme, or DPoP is required and no certificate binds the
  token, the request carries a proof that its embedded public key signed, of type \<open>dpop+jwt\<close>, for this
  method and URL, with a \<open>jti\<close>, with the hash of this token (absent only where configured), fresh at
  the clock reading, and the key's thumbprint is the token's \<open>cnf.jkt\<close>. The one \<open>iat\<close> besides the
  fresh ones is the value for which \<open>now - iat\<close> overflows to the smallest \<open>i64\<close>.\<close>

theorem verify_proof_of_possession:
  assumes "sane_clock V" and "sane_tolerance (clock_tolerance_secs (v_config V))"
    and "verify V req w = (Ok tok, w')" and "\<not> is_public tok"
    and "tok_cnf_jkt tok \<noteq> None
      \<or> map_option fst (parse_authorization (v_crates V) (authorization req)) = Some ''dpop''
      \<or> require_dpop (v_config V) \<and> cnf_x5t_s256_thumbprint tok = None"
  shows "\<exists>scheme token p c k jkt now wa wb iat.
    parse_authorization (v_crates V) (authorization req) = Some (scheme, token) \<and> dpop req = Some p
    \<and> verify_proof_with_embedded_jwk (v_crates V) p ''dpop+jwt'' = Ok (c, k)
    \<and> thumbprint_sha256 (v_crates V) k = Ok jkt \<and> tok_cnf_jkt tok = Some jkt
    \<and> eq_ignore_ascii_case (case str_claim c ''htm'' of Some m \<Rightarrow> m | None \<Rightarrow> []) (req_method req)
    \<and> (\<exists>h. str_claim c ''htu'' = Some h
         \<and> normalize_htu (v_urls V) h = normalize_htu (v_urls V) (req_url req))
    \<and> nonempty_claim c ''jti''
    \<and> (case str_claim c ''ath'' of Some a \<Rightarrow> a = ath (v_crates V) token
       | None \<Rightarrow> allow_missing_ath (v_config V) \<and> \<not> proof_has_ath (v_crates V) p)
    \<and> now_secs V wa = (Ok now, wb) \<and> i64_claim c ''iat'' = Some iat
    \<and> (fresh_at now (clock_tolerance_secs (v_config V)) iat
       \<or> \<not> overflow_checks (v_crates V) \<and> now - iat = 2 ^ 63)"
  using assms(3,4)
proof (cases rule: accepted_cases)
  case (1 scheme token iss keys wk now0 c0 web_id wt w1 w2)
  have must: "must_dpop V c0 (scheme = ''dpop'')"
    using assms(5) 1(1,8,15)
    by (auto simp: must_dpop_def cnf_x5t_s256_thumbprint_def split: option.splits x5t_s256.splits)
  then obtain jkt p c iat now where jkt: "extract_cnf_jkt c0 = Some jkt" and p: "dpop req = Some p"
    and v: "proof_valid V req p token jkt
       (\<not> (allow_missing_ath (v_config V) \<and> \<not> proof_has_ath (v_crates V) p)) c iat"
    and n: "now_secs V wt = (Ok now, w1)"
    and f: "check_freshness (overflow_checks (v_crates V)) now iat (clock_tolerance_secs (v_config V)) = Ok ()"
    using 1(9) by (auto simp: proof_given_def)
  have iat: "i64_claim c ''iat'' = Some iat" using v by (simp add: proof_valid_def)
  have fresh: "fresh_at now (clock_tolerance_secs (v_config V)) iat
      \<or> \<not> overflow_checks (v_crates V) \<and> now - iat = 2 ^ 63"
    using f freshness_Ok_iff [OF now_sane [OF assms(1) n] assms(2) i64_claim_range [OF iat]] by simp
  have ath: "case str_claim c ''ath'' of Some a \<Rightarrow> a = ath (v_crates V) token
       | None \<Rightarrow> allow_missing_ath (v_config V) \<and> \<not> proof_has_ath (v_crates V) p"
    using v by (auto simp: proof_valid_def split: option.splits)
  show ?thesis
    using v unfolding proof_valid_def
    using 1(1,15) p jkt n iat fresh ath by (elim exE conjE) (fastforce simp del: eq_ignore_ascii_case_def)
qed

theorem verify_proof_of_possession_witness:
  "\<exists>c k. verify_proof_with_embedded_jwk (sample_crates verifier_table) ''d.q.j'' ''dpop+jwt'' = Ok (c, k)
     \<and> thumbprint_sha256 (sample_crates verifier_table) k = Ok proof_jkt"
proof -
  have a: "tok_cnf_jkt alice = Some proof_jkt" by code_simp
  then have "tok_cnf_jkt alice \<noteq> None
      \<or> map_option fst (parse_authorization (v_crates sample_verifier) (authorization dpop_request)) = Some ''dpop''
      \<or> require_dpop (v_config sample_verifier) \<and> cnf_x5t_s256_thumbprint alice = None"
    by simp
  from verify_proof_of_possession [OF sample_sane dpop_request_accepted alice_not_public(1) this] a
  show ?thesis by auto
qed

text \<open>C6: A certificate-bound token is worth nothing without the certificate. An accepted token with a
  \<open>cnf.x5t#S256\<close> member carries a well-formed one (the encoding of 32 bytes), and the connection
  presented a client certificate with exactly that thumbprint; a malformed binding is never accepted
  as an absent one, and a DPoP proof never replaces the certificate.\<close>

theorem verify_certificate_binding:
  assumes "verify V req w = (Ok tok, w')" and "tok_cnf_x5t_s256 tok = Some binding"
  shows "\<exists>t bytes. binding = Thumbprint t \<and> client_cert_x5t_s256 req = Some t
    \<and> b64_decode (v_crates V) t = Some bytes \<and> length bytes = 32"
proof -
  have np: "\<not> is_public tok"
    using verify_Ok [OF assms(1)] assms(2) by (auto simp: public_token_def)
  from assms(1) np show ?thesis
  proof (cases rule: accepted_cases)
    case (1 scheme token iss keys wk now c web_id wt w1 w2)
    have x: "extract_cnf_x5t_s256 (v_crates V) c = Some binding" using assms(2) 1(15) by simp
    then obtain t where t: "binding = Thumbprint t" using 1(8) by (cases binding) auto
    then have "is_valid_x5t_s256 (v_crates V) t"
      using x by (auto simp: extract_cnf_x5t_s256_def bind_eq_Some_conv split: option.splits if_splits)
    then show ?thesis
      using 1(10) x t by (auto simp: is_valid_x5t_s256_def split: option.splits)
  qed
qed

theorem verify_certificate_binding_witness: "length cert_hash = 32"
proof -
  have "tok_cnf_x5t_s256 alice_by_cert = Some (Thumbprint cert_hash)" by code_simp
  from verify_certificate_binding [OF cert_request_accepted this] show ?thesis
    by (auto simp: sample_crates_def)
qed

text \<open>C7: No bare bearer token passes where DPoP is required: an accepted token is bound to the key of
  the proof that came with the request, or it is bound to the client certificate of the connection
  and was presented under the Bearer scheme.\<close>

theorem no_unbound_token_under_require_dpop:
  assumes "require_dpop (v_config V)"
    and "verify V req w = (Ok tok, w')" and "\<not> is_public tok"
  shows "(\<exists>p c k. dpop req = Some p
        \<and> verify_proof_with_embedded_jwk (v_crates V) p ''dpop+jwt'' = Ok (c, k)
        \<and> tok_cnf_jkt tok \<noteq> None \<and> map_option Ok (tok_cnf_jkt tok) = Some (thumbprint_sha256 (v_crates V) k))
    \<or> (\<exists>t. tok_cnf_x5t_s256 tok = Some (Thumbprint t) \<and> client_cert_x5t_s256 req = Some t
        \<and> map_option fst (parse_authorization (v_crates V) (authorization req)) = Some ''bearer'')"
  using assms(2,3)
proof (cases rule: accepted_cases)
  case (1 scheme token iss keys wk now c web_id wt w1 w2)
  show ?thesis
  proof (cases "must_dpop V c (scheme = ''dpop'')")
    case True
    then show ?thesis
      using 1(9,15) by (auto simp: proof_given_def proof_valid_def)
  next
    case False
    then obtain t where "extract_cnf_x5t_s256 (v_crates V) c = Some (Thumbprint t)" "scheme \<noteq> ''dpop''"
      using assms(1) by (auto simp: must_dpop_def)
    then show ?thesis
      using 1(1,10,15) check_scheme_Ok [OF 1(2)] by auto
  qed
qed

theorem no_unbound_token_under_require_dpop_witness:
  "client_cert_x5t_s256 cert_request = Some cert_hash \<and> is_ok (fst (verify sample_verifier cert_request 0))"
proof -
  have "tok_cnf_jkt alice_by_cert = None" "tok_cnf_x5t_s256 alice_by_cert = Some (Thumbprint cert_hash)"
    by code_simp+
  with no_unbound_token_under_require_dpop [OF _ cert_request_accepted alice_not_public(2)]
  show ?thesis by (auto simp: cert_request_accepted)
qed

subsection \<open>Public requests and untrusted issuers\<close>

text \<open>A request is answered as public exactly when it carries no usable Authorization header; a
  presented credential is accepted for an agent or rejected, never downgraded to public.\<close>

theorem public_iff_no_credentials:
  "(\<exists>tok. fst (verify V req w) = Ok tok \<and> is_public tok)
    = (parse_authorization (v_crates V) (authorization req) = None)"
proof
  assume "\<exists>tok. fst (verify V req w) = Ok tok \<and> is_public tok"
  then obtain tok where "verify V req w = (Ok tok, snd (verify V req w))" "is_public tok"
    using pair_of_fst by metis
  then show "parse_authorization (v_crates V) (authorization req) = None"
    using verify_Ok by fastforce
next
  assume "parse_authorization (v_crates V) (authorization req) = None"
  then show "\<exists>tok. fst (verify V req w) = Ok tok \<and> is_public tok"
    by (simp add: verify_def is_public_def public_token_def)
qed

text \<open>C24: An untrusted issuer moves nothing. A token whose unverified issuer is absent or not on the
  trusted list is rejected with 401 before any key is resolved, any \<open>jti\<close> marked, any profile
  fetched or the clock read: the world is the one before the request.\<close>

theorem untrusted_issuer_rejected_untouched:
  assumes "parse_authorization (v_crates V) (authorization req) = Some (scheme, token)"
    and "\<forall>iss \<in> set (trusted_issuers (v_config V)). peek_issuer (v_crates V) token \<noteq> Ok iss"
  shows "\<exists>e. verify V req w = (Err e, w) \<and> status e = 401"
proof -
  have p: "peek_issuer (v_crates V) token \<noteq> Panic"
    by (auto simp: peek_issuer_def outcome_simps split: option.splits)
  have pe: "err_kind e = InvalidToken" if "peek_issuer (v_crates V) token = Err e" for e
    using that by (auto simp: peek_issuer_def outcome_simps split: option.splits if_splits)
  have ce: "err_kind e = InvalidRequest" if "check_scheme V scheme token = Err e" for e
    using that by (auto simp: check_scheme_def split: if_splits)
  have cp: "check_scheme V scheme token \<noteq> Panic"
    by (auto simp: check_scheme_def)
  show ?thesis
  proof (cases "check_scheme V scheme token")
    case (Err e)
    then show ?thesis
      using ce [OF Err] by (simp add: verify_def Let_def assms(1) status_def)
  next
    case ok: (Ok u)
    show ?thesis
    proof (cases "peek_issuer (v_crates V) token")
      case (Ok iss)
      then have "iss \<notin> set (trusted_issuers (v_config V))" using assms(2) by auto
      then show ?thesis
        using ok Ok by (simp add: verify_def Let_def assms(1) ensure_def status_def)
    next
      case (Err e)
      then show ?thesis
        using ok pe [OF Err] by (simp add: verify_def Let_def assms(1) status_def)
    qed (use p in simp)
  qed (use cp in simp)
qed

theorem untrusted_issuer_rejected_untouched_witness:
  "\<exists>e. verify sample_verifier evil_request 7 = (Err e, 7) \<and> status e = 401"
proof (rule untrusted_issuer_rejected_untouched [where scheme = "''dpop''" and token = "''h.e.k''"])
  have "peek_issuer (sample_crates verifier_table) ''h.e.k'' = Ok ''https://evil''" by code_simp
  then show "\<forall>iss \<in> set (trusted_issuers (v_config sample_verifier)).
      peek_issuer (v_crates sample_verifier) ''h.e.k'' \<noteq> Ok iss" by simp
qed simp

end
