(* ===== verification/Failures.thy ===== *)
theory Failures
  imports Guarantees
begin

section \<open>Replay, rejections and what they reveal\<close>

text \<open>
  The replay check of an accepted request, the strict issuer check, the status of every rejection,
  the absence of internal detail in it, and the absence of panics in a release build. The last
  three are composed along the steps of \<open>verify\<close> with rules for the combinators.
\<close>

subsection \<open>The replay check\<close>

lemma check_replay_Ok:
  assumes "check_replay V p w = (Ok u, w')"
  shows "\<exists>c jti ttl. peek_claims (v_crates V) p = Some c \<and> str_claim c ''jti'' = Some jti \<and> jti \<noteq> []
    \<and> replay_ttl (overflow_checks (v_crates V)) (v_config V) = Ok ttl
    \<and> (v_mark V jti ttl w = (Ok New, w')
       \<or> \<not> replay_fail_closed (v_config V) \<and> (\<exists>m. v_mark V jti ttl w = (Err m, w')))"
proof -
  obtain jti ttl where
    j: "(case Option.bind (peek_claims (v_crates V) p) (\<lambda>c. str_claim c ''jti'') of
          Some s \<Rightarrow> if s \<noteq> [] then Some s else None | None \<Rightarrow> None) = Some jti"
    and t: "replay_ttl (overflow_checks (v_crates V)) (v_config V) = Ok ttl"
    and m: "(case v_mark V jti ttl w of
         (Ok New, w') \<Rightarrow> (Ok (), w')
       | (Ok Replay, w') \<Rightarrow> (Err (invalid_token_dpop ''DPoP proof has already been used (replay).''), w')
       | (Err _, w') \<Rightarrow> (if replay_fail_closed (v_config V) then Err replay_unavailable else Ok (), w')
       | (Panic, w') \<Rightarrow> (Panic, w')) = (Ok u, w')"
    using assms unfolding check_replay_def by (auto simp: outcome_simps)
  have "v_mark V jti ttl w = (Ok New, w')
       \<or> \<not> replay_fail_closed (v_config V) \<and> (\<exists>m. v_mark V jti ttl w = (Err m, w'))"
    using m by (auto split: prod.splits outcome.splits mark_result.splits if_splits)
  moreover obtain c where "peek_claims (v_crates V) p = Some c" "str_claim c ''jti'' = Some jti" "jti \<noteq> []"
    using j by (auto simp: bind_eq_Some_conv split: option.splits if_splits)
  ultimately show ?thesis using t by blast
qed

text \<open>Replay protection fails closed. In the default configuration a request with a DPoP proof is
  accepted only if the store answered \<open>New\<close> to the proof's \<open>jti\<close>, marked for the whole window of
  \<open>2 * (300 + tolerance) + 1\<close> seconds; a replay, a store error and a missing \<open>jti\<close> are no acceptance.\<close>

theorem accepted_proof_was_new:
  assumes "sane_tolerance (clock_tolerance_secs (v_config V))" and "replay_fail_closed (v_config V)"
    and "verify V req w = (Ok tok, w')" and "\<not> is_public tok" and "dpop req = Some p"
  shows "\<exists>c jti wa wb. peek_claims (v_crates V) p = Some c \<and> str_claim c ''jti'' = Some jti \<and> jti \<noteq> []
    \<and> v_mark V jti (nat (2 * (300 + clock_tolerance_secs (v_config V)) + 1) * 10 ^ 9) wa = (Ok New, wb)"
  using assms(3,4)
proof (cases rule: accepted_cases)
  case (1 scheme token iss keys wk now c web_id wt w1 w2)
  then have "check_replay V p w1 = (Ok (), w2)" using assms(5) by simp
  from check_replay_Ok [OF this] obtain c jti ttl where
      c: "peek_claims (v_crates V) p = Some c" "str_claim c ''jti'' = Some jti" "jti \<noteq> []"
    and t: "replay_ttl (overflow_checks (v_crates V)) (v_config V) = Ok ttl"
    and m: "v_mark V jti ttl w1 = (Ok New, w2)"
    using assms(2) by blast
  have "ttl = nat (2 * (300 + clock_tolerance_secs (v_config V)) + 1) * 10 ^ 9"
    using t replay_ttl_exact [OF assms(1)] by simp
  then show ?thesis using c m by blast
qed

theorem accepted_proof_was_new_witness:
  "\<exists>c. peek_claims (sample_crates verifier_table) ''d.q.j'' = Some c \<and> nonempty_claim c ''jti''"
  using accepted_proof_was_new [OF sample_sane(2) _ dpop_request_accepted alice_not_public(1), of "''d.q.j''"]
  by (auto simp: nonempty_claim_def)

subsection \<open>The issuer check\<close>

text \<open>In strict mode an acceptance rests on the WebID's own profile: the configured resolver
  resolved exactly this WebID, and the issuer set it returned contains the token's issuer. A missing
  resolver, a failed fetch and a profile without the issuer are rejections.\<close>

theorem strict_mode_requires_listing:
  assumes "bidirectional_mode (v_config V) = Strict"
    and "verify V req w = (Ok tok, w')" and "\<not> is_public tok"
  shows "\<exists>resolver web_id iss profile wa.
    webid_resolver (v_config V) = Some resolver \<and> tok_web_id tok = Some web_id \<and> tok_issuer tok = Some iss
    \<and> resolver web_id wa = (Ok profile, w') \<and> iss \<in> issuers profile"
  using assms(2,3)
proof (cases rule: accepted_cases)
  case (1 scheme token iss keys wk now c web_id wt w1 w2)
  obtain resolver where r: "webid_resolver (v_config V) = Some resolver"
    using 1(14) assms(1) by (cases "webid_resolver (v_config V)") (auto simp: check_bidirectional_def)
  obtain q wq where q: "resolver web_id w2 = (q, wq)" by fastforce
  have "\<exists>profile. q = Ok profile \<and> iss \<in> issuers profile \<and> wq = w'"
    using 1(14) assms(1) q by (cases q) (auto simp: check_bidirectional_def r Let_def split: if_splits)
  then show ?thesis using r q 1(15) by auto
qed

theorem strict_mode_requires_listing_witness:
  "tok_issuer alice = Some ''https://idp'' \<and> ''https://idp'' \<in> issuers \<lparr>issuers = {''https://idp''}\<rparr>"
  using strict_mode_requires_listing [OF _ dpop_request_accepted alice_not_public(1)] by auto

subsection \<open>Every rejection\<close>

definition err_401 :: "(verify_error, 'a) outcome \<Rightarrow> bool" where
  "err_401 m \<longleftrightarrow> (\<forall>e. m = Err e \<longrightarrow> status e = 401)"

definition rejects :: "(verify_error \<Rightarrow> 'w \<Rightarrow> bool) \<Rightarrow> ('w, verify_error, 'a) io \<Rightarrow> bool" where
  "rejects P m \<longleftrightarrow> (\<forall>w e w'. m w = (Err e, w') \<longrightarrow> P e w')"

abbreviation rejects_401 :: "('w, verify_error, 'a) io \<Rightarrow> bool" where
  "rejects_401 \<equiv> rejects (\<lambda>e _. status e = 401)"

named_theorems rejection_rules \<open>steps whose errors are all 401\<close>

lemma status_401 [simp]:
  "status (invalid_token m) = 401" "status (invalid_token_dpop m) = 401" "status (invalid_request m) = 401"
  by (simp_all add: status_def)

lemma err_401_rules [rejection_rules]:
  "err_401 (Ok x)" "status e = 401 \<Longrightarrow> err_401 (Err e)" "status e = 401 \<Longrightarrow> err_401 (ensure b e)"
  "status e = 401 \<Longrightarrow> err_401 (ok_or v e)" "(\<And>d. status (g d) = 401) \<Longrightarrow> err_401 (map_err g m')"
  "err_401 m \<Longrightarrow> (\<And>x. err_401 (f x)) \<Longrightarrow> err_401 (and_then m f)"
  "err_401 (i64_result oc n)" "err_401 (u64_result oc n)"
  by (auto simp: err_401_def outcome_simps)

lemma rejects_rules [rejection_rules]:
  "err_401 m' \<Longrightarrow> rejects_401 (lift m')" "err_401 m' \<Longrightarrow> rejects_401 (Pair m')"
  "(\<And>d. status (g d) = 401) \<Longrightarrow> rejects_401 (io_map_err g k)"
  "rejects P m \<Longrightarrow> (\<And>x. rejects P (f x)) \<Longrightarrow> rejects P (io_bind m f)"
  unfolding rejects_def by (auto simp: err_401_def outcome_simps)

lemma rejects_mono: "rejects_401 m \<Longrightarrow> (\<And>e w. status e = 401 \<Longrightarrow> P e w) \<Longrightarrow> rejects P m"
  by (auto simp: rejects_def)

lemma peek_errors [rejection_rules]: "err_401 (peek_header E token)" "err_401 (peek_issuer E token)"
  by (auto simp: peek_header_def peek_issuer_def split_compact_def split: option.split list.split prod.split
      intro!: rejection_rules)

lemma now_secs_errors [rejection_rules]: "rejects_401 (now_secs V)"
  by (auto simp: rejects_def dest: now_secs_Ok)

lemma check_errors [rejection_rules]:
  "err_401 (check_temporal_at oc now tol c)" "err_401 (check_freshness oc now iat tol)"
  "err_401 (check_ath E c token b)" "err_401 (check_authorized_party V c)"
  "err_401 (extract_webid V c)" "err_401 (validate_cert_binding req t)"
  "err_401 (check_scheme V scheme token)" "err_401 (check_required c ks)"
proof -
  show "err_401 (check_required c ks)"
    by (induction ks) (auto intro!: rejection_rules)
qed (auto simp: check_temporal_at_def check_freshness_def check_ath_def
    check_authorized_party_def extract_webid_def validate_webid_claim_def validate_cert_binding_def
    check_scheme_def Let_def split: option.split intro!: rejection_rules)

lemma validate_token_errors [rejection_rules]:
  "rejects_401 (validate_dpop_proof V req p token jkt b)" "rejects_401 (validate_access_token V token iss)"
  "rejects_401 (validate_token V req token iss d)" "rejects_401 (check_bidirectional V web_id iss)"
proof -
  show p: "rejects_401 (validate_dpop_proof V req p token jkt b)" for p jkt b
    unfolding validate_dpop_proof_def Let_def by (auto intro!: rejection_rules)
  show a: "rejects_401 (validate_access_token V token iss)"
    unfolding validate_access_token_def check_temporal_def Let_def by (auto intro!: rejection_rules)
  show "rejects_401 (validate_token V req token iss d)"
    unfolding validate_token_def Let_def
    by (auto split: option.split x5t_s256.split intro!: rejection_rules a p)
  show "rejects_401 (check_bidirectional V web_id iss)"
    by (auto simp: rejects_def check_bidirectional_def issuer_check_failed_def Let_def
        split: option.splits prod.splits outcome.splits if_splits)
qed

lemma replay_ttl_no_Err: "replay_ttl oc cfg \<noteq> Err e"
  by (auto simp: replay_ttl_def outcome_simps)

definition allowed_rejection ::
  "('w, 'k, 'p, 's, 'u) verifier \<Rightarrow> verify_error \<Rightarrow> 'w \<Rightarrow> bool" where
  "allowed_rejection V e w' \<longleftrightarrow> status e = 401 \<or> e = replay_unavailable \<and> replay_fail_closed (v_config V)
      \<and> (\<exists>jti ttl m wa. v_mark V jti ttl wa = (Err m, w'))"

lemma rejects_bind: "rejects P m \<Longrightarrow> (\<And>x. rejects P (f x)) \<Longrightarrow> rejects P (io_bind m f)"
  by (rule rejects_rules(4))

lemma rejects_allowed: "rejects_401 m \<Longrightarrow> rejects (allowed_rejection V) m"
  unfolding rejects_def allowed_rejection_def by blast

lemma replay_unavailable_status: "status replay_unavailable = 503"
  by (simp add: replay_unavailable_def status_def)

lemma check_replay_errors: "rejects (allowed_rejection V) (check_replay V p)"
  unfolding check_replay_def
proof (intro rejects_bind)
  show "rejects (allowed_rejection V) (lift (ok_or v (invalid_token_dpop m)))" for v :: "string option" and m
    by (auto simp: rejects_def allowed_rejection_def outcome_simps)
  show "rejects (allowed_rejection V) (lift (replay_ttl (overflow_checks (v_crates V)) (v_config V)))"
    by (auto simp: rejects_def replay_ttl_no_Err)
  show "rejects (allowed_rejection V) (\<lambda>w. case v_mark V jti ttl w of
         (Ok New, w') \<Rightarrow> (Ok (), w')
       | (Ok Replay, w') \<Rightarrow> (Err (invalid_token_dpop ''DPoP proof has already been used (replay).''), w')
       | (Err _, w') \<Rightarrow> (if replay_fail_closed (v_config V) then Err replay_unavailable else Ok (), w')
       | (Panic, w') \<Rightarrow> (Panic, w'))" for jti ttl
    by (auto simp: rejects_def allowed_rejection_def
        split: prod.splits outcome.splits mark_result.splits if_splits)
qed

text \<open>C25: Every rejection is a 401, except one: the 503 of the fail-closed replay check, given only
  when the store answered the mark with an error.\<close>

theorem rejection_status:
  assumes "verify V req w = (Err e, w')"
  shows "status e = 401
    \<or> status e = 503 \<and> e = replay_unavailable \<and> replay_fail_closed (v_config V)
      \<and> (\<exists>jti ttl m wa. v_mark V jti ttl wa = (Err m, w'))"
proof -
  have "rejects (allowed_rejection V) (verify V req)"
  proof (cases "parse_authorization (v_crates V) (authorization req)")
    case None
    then show ?thesis by (simp add: verify_def rejects_def)
  next
    case (Some st)
    obtain scheme token where "st = (scheme, token)" by fastforce
    with Some show ?thesis
      unfolding verify_def Let_def
      by (auto split: option.split intro!: rejects_bind check_replay_errors
          rejects_allowed [OF rejects_rules(1)] rejects_allowed [OF validate_token_errors(3)]
          rejects_allowed [OF validate_token_errors(4)] err_401_rules check_errors peek_errors)
  qed
  then have "allowed_rejection V e w'"
    using assms unfolding rejects_def by blast
  then show ?thesis
    using replay_unavailable_status unfolding allowed_rejection_def by blast
qed

definition store_down :: "(nat, string, string, string, sample_url) verifier" where
  "store_down = sample_verifier\<lparr>v_mark := \<lambda>j ttl w. (Err ''store down'', w)\<rparr>"

lemma store_down_rejects: "verify store_down dpop_request 0 = (Err replay_unavailable, 0)"
  by code_simp

theorem rejection_status_witness: "\<exists>jti ttl m wa. v_mark store_down jti ttl wa = (Err m, 0)"
  using rejection_status [OF store_down_rejects] by (simp add: replay_unavailable_status)

end
