(* ===== verification/Replay_Safety.thy ===== *)
theory Replay_Safety
  imports Failures
begin

section \<open>Replay protection end to end\<close>

text \<open>
  A verifier over the in-memory store, deployed: its clocks run, and other threads use the same
  store. There are two clocks, in nanoseconds. The monotonic clock, which the store reads, shows the time
  that has passed. The system clock, which \<open>verify\<close> reads in whole seconds since the Unix epoch, advances
  with it and can be set to any value at any moment, forward or back. Every call the verifier makes is
  preceded by a batch of an agenda, in which time passes, the system clock is set and others mark and
  probe; an agenda is any list of batches, so the theorem below covers every interleaving of this
  verification with the rest of the process.
\<close>

subsection \<open>The deployed world\<close>

datatype event = Elapse nat | Shift_clock int | Others_mark string nat | Others_probe string

record world =
  now_ns :: nat
  wall_ns :: int
  store :: mem_store
  history :: "mark_event list"
  agenda :: "event list list"

definition store_mark :: "string \<Rightarrow> nat \<Rightarrow> (world, string, mark_result) io" where
  "store_mark jti ttl w =
     (case mark (now_ns w) jti ttl (store w) of (r, s') \<Rightarrow>
        (r, w\<lparr>store := s', history := (now_ns w, jti, ttl, r) # history w\<rparr>))"

fun happen :: "event \<Rightarrow> world \<Rightarrow> world" where
  "happen (Elapse d) w = w\<lparr>now_ns := now_ns w + d, wall_ns := wall_ns w + int d\<rparr>"
| "happen (Shift_clock z) w = w\<lparr>wall_ns := wall_ns w + z\<rparr>"
| "happen (Others_mark jti ttl) w = snd (store_mark jti ttl w)"
| "happen (Others_probe jti) w = w\<lparr>store := snd (contains (now_ns w) jti (store w))\<rparr>"

definition meanwhile :: "world \<Rightarrow> world" where
  "meanwhile w =
     (case agenda w of [] \<Rightarrow> w | batch # rest \<Rightarrow> fold happen batch (w\<lparr>agenda := rest\<rparr>))"

text \<open>\<open>SystemTime::now().duration_since(UNIX_EPOCH)\<close>, in seconds: an error before the epoch.\<close>

definition secs_of :: "int \<Rightarrow> nat" where
  "secs_of z = nat z div 10 ^ 9"

definition clock_shows :: "int \<Rightarrow> nat option" where
  "clock_shows z = (if z < 0 then None else Some (secs_of z))"

text \<open>The wiring; what the key provider and the resolver answer is arbitrary.\<close>

definition deployed ::
  "(string \<Rightarrow> (string, jwk list) outcome) \<Rightarrow> (string \<Rightarrow> (string, webid_profile) outcome)
   \<Rightarrow> world verifier_config \<Rightarrow> ('k, 'p, 's) crates \<Rightarrow> 'u url_crate
   \<Rightarrow> (world, 'k, 'p, 's, 'u) verifier" where
  "deployed keys profiles cfg E U =
     \<lparr>v_config = cfg\<lparr>webid_resolver :=
        map_option (\<lambda>_ web_id w. (profiles web_id, meanwhile w)) (webid_resolver cfg)\<rparr>,
      v_jwks = (\<lambda>iss w. (keys iss, meanwhile w)),
      v_mark = (\<lambda>jti ttl w. store_mark jti ttl (meanwhile w)),
      v_crates = E, v_urls = U,
      v_clock = (\<lambda>w. let w' = meanwhile w in (clock_shows (wall_ns w'), w'))\<rparr>"

subsection \<open>The passage of the world\<close>

text \<open>
  \<open>moves w w'\<close>: the monotonic clock did not go back, the marks of the history stand, and a history of the
  store was extended to a history of the store. \<open>passes w w'\<close> adds that while nobody sets the system clock
  back, it keeps up with the monotonic clock.
\<close>

definition recorded :: "world \<Rightarrow> bool" where
  "recorded w \<longleftrightarrow> (\<exists>n. store_history mark contains (with_clock n) (store w) (now_ns w) (history w))"

definition moves :: "world \<Rightarrow> world \<Rightarrow> bool" where
  "moves w w' \<longleftrightarrow> now_ns w \<le> now_ns w' \<and> (\<exists>l. history w' = l @ history w) \<and> (recorded w \<longrightarrow> recorded w')"

fun not_back :: "event \<Rightarrow> bool" where
  "not_back (Shift_clock z) = (0 \<le> z)"
| "not_back _ = True"

definition never_set_back :: "world \<Rightarrow> bool" where
  "never_set_back w \<longleftrightarrow> list_all (list_all not_back) (agenda w)"

definition lead :: "world \<Rightarrow> int" where
  "lead w = wall_ns w - int (now_ns w)"

definition passes :: "world \<Rightarrow> world \<Rightarrow> bool" where
  "passes w w' \<longleftrightarrow> moves w w' \<and> (never_set_back w \<longrightarrow> never_set_back w' \<and> lead w \<le> lead w')"

lemma moves_refl [simp]: "moves w w"
  by (simp add: moves_def)

lemma moves_trans [trans]: "moves u v \<Longrightarrow> moves v w \<Longrightarrow> moves u w"
  unfolding moves_def by (metis append.assoc le_trans)

lemma passes_refl [simp]: "passes w w"
  by (simp add: passes_def)

lemma passes_trans [trans]: "passes u v \<Longrightarrow> passes v w \<Longrightarrow> passes u w"
  unfolding passes_def by (meson moves_trans order_trans)

lemma store_mark_result:
  assumes "store_mark jti ttl w = (r, w')"
  shows "history w' = (now_ns w, jti, ttl, r) # history w" "now_ns w' = now_ns w" "passes w w'"
    "agenda w' = agenda w" "lead w' = lead w"
proof -
  obtain s' where m: "mark (now_ns w) jti ttl (store w) = (r, s')"
    and w': "w' = w\<lparr>store := s', history := (now_ns w, jti, ttl, r) # history w\<rparr>"
    using assms by (auto simp: store_mark_def split: prod.splits)
  show "history w' = (now_ns w, jti, ttl, r) # history w" "now_ns w' = now_ns w"
    "agenda w' = agenda w" "lead w' = lead w"
    by (simp_all add: w' lead_def)
  have "recorded w'" if "recorded w"
    using that m unfolding recorded_def w' by (auto intro: store_history.mark_call)
  then show "passes w w'" by (simp add: passes_def moves_def never_set_back_def lead_def w')
qed

lemma happen_moves: "moves w (happen e w)" "agenda (happen e w) = agenda w"
  "not_back e \<Longrightarrow> lead w \<le> lead (happen e w)"
proof -
  have "moves w (happen e w) \<and> agenda (happen e w) = agenda w \<and> (not_back e \<longrightarrow> lead w \<le> lead (happen e w))"
  proof (cases e)
    case (Elapse d)
    have "recorded (w\<lparr>now_ns := now_ns w + d, wall_ns := wall_ns w + int d\<rparr>)" if "recorded w"
      using that unfolding recorded_def by (fastforce intro: store_history.tick [where t = "now_ns w"])
    then show ?thesis by (simp add: Elapse moves_def lead_def)
  next
    case (Others_mark jti ttl)
    obtain r w' where m: "store_mark jti ttl w = (r, w')" by fastforce
    then show ?thesis using store_mark_result [OF m] by (simp add: Others_mark passes_def)
  qed (simp_all add: moves_def contains_def recorded_def lead_def)
  then show "moves w (happen e w)" "agenda (happen e w) = agenda w" "not_back e \<Longrightarrow> lead w \<le> lead (happen e w)"
    by simp_all
qed

lemma fold_moves:
  "moves w (fold happen batch w) \<and> agenda (fold happen batch w) = agenda w
   \<and> (list_all not_back batch \<longrightarrow> lead w \<le> lead (fold happen batch w))"
proof (induction batch arbitrary: w)
  case (Cons e batch)
  then show ?case using happen_moves [where e = e and w = w] Cons.IH [of "happen e w"]
    by (auto intro: moves_trans order_trans)
qed simp

lemma meanwhile_passes: "passes w (meanwhile w)"
proof (cases "agenda w")
  case (Cons batch rest)
  let ?w = "w\<lparr>agenda := rest\<rparr>"
  have m: "meanwhile w = fold happen batch ?w" by (simp add: meanwhile_def Cons)
  have "moves w ?w" "lead ?w = lead w" by (simp_all add: moves_def recorded_def lead_def)
  then show ?thesis
    using fold_moves [of ?w batch] by (auto simp: m passes_def never_set_back_def Cons intro: moves_trans)
qed (simp add: meanwhile_def)

lemma meanwhiles_pass: "passes w ((meanwhile ^^ n) w)"
  by (induction n) (auto intro: passes_trans meanwhile_passes)

subsection \<open>What the deployed verifier does in it\<close>

lemma deployed_fields [simp]:
  "v_crates (deployed keys profiles cfg E U) = E" "v_urls (deployed keys profiles cfg E U) = U"
  "clock_tolerance_secs (v_config (deployed keys profiles cfg E U)) = clock_tolerance_secs cfg"
  "replay_fail_closed (v_config (deployed keys profiles cfg E U)) = replay_fail_closed cfg"
  by (simp_all add: deployed_def)

lemma deployed_jwks:
  "v_jwks (deployed keys profiles cfg E U) iss w = (r, w') \<Longrightarrow> passes w w'"
  by (auto simp: deployed_def meanwhile_passes)

lemma deployed_clock:
  assumes "now_secs (deployed keys profiles cfg E U) w = (Ok now, w')"
  shows "passes w w'" "now = (case clock_shows (wall_ns w') of Some t \<Rightarrow> wrap_i64 (int t) | None \<Rightarrow> 0)"
  using assms by (auto simp: deployed_def now_secs_def Let_def meanwhile_passes split: option.splits)

lemma deployed_mark:
  assumes "v_mark (deployed keys profiles cfg E U) jti ttl w = (r, w')"
  shows "\<exists>h. history w' = (now_ns w', jti, ttl, r) # h @ history w" "passes w w'"
proof -
  have m: "store_mark jti ttl (meanwhile w) = (r, w')" using assms by (simp add: deployed_def)
  note sm = store_mark_result [OF m]
  show "\<exists>h. history w' = (now_ns w', jti, ttl, r) # h @ history w"
    using sm(1,2) meanwhile_passes [of w] by (auto simp: passes_def moves_def)
  show "passes w w'" using meanwhile_passes sm(3) passes_trans by blast
qed

lemma deployed_bidirectional:
  assumes "check_bidirectional (deployed keys profiles cfg E U) web_id iss w = (r, w')"
  shows "passes w w'"
  using assms meanwhile_passes [of w]
  by (auto simp: check_bidirectional_def deployed_def Let_def split: option.splits outcome.splits if_splits)

subsection \<open>One acceptance\<close>

text \<open>
  The two instants of an acceptance: the freshness check in the world \<open>wc\<close> and the mark that leaves
  \<open>wm\<close>, in this order and within the call.
\<close>

definition proof_window :: "int \<Rightarrow> nat" where
  "proof_window tol = nat (2 * (300 + tol) + 1) * 10 ^ 9"

definition proof_iat :: "('k, 'p, 's) crates \<Rightarrow> string \<Rightarrow> int option" where
  "proof_iat E p = (case verify_proof_with_embedded_jwk E p ''dpop+jwt'' of
     Ok (c, k) \<Rightarrow> i64_claim c ''iat'' | _ \<Rightarrow> None)"

definition proof_jti :: "('k, 'p, 's) crates \<Rightarrow> string \<Rightarrow> string option" where
  "proof_jti E p = Option.bind (peek_claims E p) (\<lambda>c. str_claim c ''jti'')"

text \<open>The clock readings, in seconds, at which a proof of this \<open>iat\<close> is accepted as fresh.\<close>

definition accepted_as_fresh :: "int \<Rightarrow> int \<Rightarrow> nat \<Rightarrow> bool" where
  "accepted_as_fresh tol iat s \<longleftrightarrow> fresh_at (int s) tol iat \<or> int s - iat = 2 ^ 63"

lemma fresh_reading:
  assumes "sane_tolerance tol" "in_i64 iat" "s < 2 ^ 62" "now = wrap_i64 (int s)"
    and "check_freshness oc now iat tol = Ok ()"
  shows "accepted_as_fresh tol iat s"
proof -
  have now: "now = int s" "sane_time now"
    using assms(3,4) by (simp_all add: wrap_i64_id in_i64_def sane_time_def)
  show ?thesis
    using freshness_Ok_iff [OF now(2) assms(1,2)] assms(5) now(1) unfolding accepted_as_fresh_def by blast
qed

text \<open>The same for a reading of the clock, which is past the epoch and far from the end of an \<open>i64\<close>.\<close>

definition sane_wall :: "int \<Rightarrow> bool" where
  "sane_wall z \<longleftrightarrow> 0 \<le> z \<and> z < 2 ^ 62 * 10 ^ 9"

lemma sane_wall_reading:
  assumes "sane_wall z"
  shows "clock_shows z = Some (secs_of z)" "secs_of z < 2 ^ 62"
proof -
  show "clock_shows z = Some (secs_of z)" using assms by (simp add: clock_shows_def sane_wall_def)
  have "nat z < 2 ^ 62 * 10 ^ 9" using assms by (simp add: sane_wall_def nat_less_iff)
  then show "secs_of z < 2 ^ 62" unfolding secs_of_def by (simp only: less_mult_imp_div_less)
qed

lemma fresh_wall:
  assumes "sane_tolerance tol" "in_i64 iat" "sane_wall z" "now = (case clock_shows z of Some t \<Rightarrow> wrap_i64 (int t) | None \<Rightarrow> 0)"
    and "check_freshness oc now iat tol = Ok ()"
  shows "accepted_as_fresh tol iat (secs_of z)"
  using fresh_reading [OF assms(1,2) sane_wall_reading(2) [OF assms(3)] _ assms(5)] assms(4)
  by (simp add: sane_wall_reading(1) [OF assms(3)])

text \<open>The calls of any acceptance with a key-bound token, on any verifier.\<close>

lemma key_bound_acceptance:
  assumes tol: "sane_tolerance (clock_tolerance_secs (v_config V))" and fc: "replay_fail_closed (v_config V)"
    and v: "verify V req w = (Ok tok, w')" and b: "tok_cnf_jkt tok \<noteq> None" "dpop req = Some p"
  obtains iss keys wk now0 wt now w1 jti w2 web_id iat where
    "v_jwks V iss w = (Ok keys, wk)" "now_secs V wk = (Ok now0, wt)" "now_secs V wt = (Ok now, w1)"
    "proof_iat (v_crates V) p = Some iat" "in_i64 iat"
    "check_freshness (overflow_checks (v_crates V)) now iat (clock_tolerance_secs (v_config V)) = Ok ()"
    "proof_jti (v_crates V) p = Some jti"
    "v_mark V jti (proof_window (clock_tolerance_secs (v_config V))) w1 = (Ok New, w2)"
    "check_bidirectional V web_id iss w2 = (Ok (), w')"
proof -
  have "\<not> is_public tok"
    using verify_Ok [OF v] b(1) by (auto simp: public_token_def)
  with v show thesis
  proof (cases rule: accepted_cases)
    case (1 scheme token iss ks wk now0 c0 web_id wt w1 w2)
    have "must_dpop V c0 (scheme = ''dpop'')" using 1(15) b(1) by (simp add: must_dpop_def)
    then obtain jkt c iat now where
        pv: "proof_valid V req p token jkt
          (\<not> (allow_missing_ath (v_config V) \<and> \<not> proof_has_ath (v_crates V) p)) c iat"
      and n: "now_secs V wt = (Ok now, w1)"
      and f: "check_freshness (overflow_checks (v_crates V)) now iat (clock_tolerance_secs (v_config V)) = Ok ()"
      using 1(9) b(2) by (auto simp: proof_given_def)
    have "check_replay V p w1 = (Ok (), w2)" using 1(13) b(2) by simp
    from check_replay_Ok [OF this] obtain c' jti ttl where
        j: "peek_claims (v_crates V) p = Some c'" "str_claim c' ''jti'' = Some jti"
      and t: "replay_ttl (overflow_checks (v_crates V)) (v_config V) = Ok ttl"
      and m: "v_mark V jti ttl w1 = (Ok New, w2)"
      using fc by auto
    have ttl: "ttl = proof_window (clock_tolerance_secs (v_config V))"
      using t replay_ttl_exact [of "v_config V" "overflow_checks (v_crates V)"] tol
      by (simp add: proof_window_def)
    have i: "i64_claim c ''iat'' = Some iat" using pv by (simp add: proof_valid_def)
    then have "proof_iat (v_crates V) p = Some iat"
      using pv by (auto simp: proof_valid_def proof_iat_def)
    moreover have "proof_jti (v_crates V) p = Some jti" using j by (simp add: proof_jti_def)
    ultimately show thesis
      using that [OF 1(4) 1(6) n _ i64_claim_range [OF i] f _ m [unfolded ttl] 1(14)] by blast
  qed
qed

lemma deployed_acceptance:
  assumes tol: "sane_tolerance (clock_tolerance_secs cfg)" and fc: "replay_fail_closed cfg"
    and v: "verify (deployed keys profiles cfg E U) req w = (Ok tok, w')"
    and b: "tok_cnf_jkt tok \<noteq> None" "dpop req = Some p"
  obtains wc wm iat jti h where "proof_iat E p = Some iat" "proof_jti E p = Some jti"
    "sane_wall (wall_ns wc) \<longrightarrow> accepted_as_fresh (clock_tolerance_secs cfg) iat (secs_of (wall_ns wc))"
    "passes w wc" "passes wc wm" "passes wm w'"
    "history wm = (now_ns wm, jti, proof_window (clock_tolerance_secs cfg), Ok New) # h @ history wc"
proof -
  let ?V = "deployed keys profiles cfg E U"
  obtain iss ks wk now0 wt now w1 jti w2 web_id iat where *:
      "v_jwks ?V iss w = (Ok ks, wk)" "now_secs ?V wk = (Ok now0, wt)" "now_secs ?V wt = (Ok now, w1)"
      "proof_iat E p = Some iat" "in_i64 iat"
      "check_freshness (overflow_checks E) now iat (clock_tolerance_secs cfg) = Ok ()"
      "proof_jti E p = Some jti"
      "v_mark ?V jti (proof_window (clock_tolerance_secs cfg)) w1 = (Ok New, w2)"
      "check_bidirectional ?V web_id iss w2 = (Ok (), w')"
    using key_bound_acceptance [of ?V, OF _ _ v b] tol fc by (metis deployed_fields)
  have p1: "passes w w1"
    using deployed_jwks [OF *(1)] deployed_clock(1) [OF *(2)] deployed_clock(1) [OF *(3)] passes_trans
    by blast
  have p2: "passes w1 w2" by (rule deployed_mark(2) [OF *(8)])
  have p3: "passes w2 w'" by (rule deployed_bidirectional [OF *(9)])
  have "accepted_as_fresh (clock_tolerance_secs cfg) iat (secs_of (wall_ns w1))" if "sane_wall (wall_ns w1)"
    using fresh_wall [OF tol *(5) that deployed_clock(2) [OF *(3)] *(6)] .
  moreover obtain h where
    "history w2 = (now_ns w2, jti, proof_window (clock_tolerance_secs cfg), Ok New) # h @ history w1"
    using deployed_mark(1) [OF *(8)] by blast
  ultimately show thesis using that * p1 p2 p3 by blast
qed

subsection \<open>Two acceptances of one proof\<close>

lemma fresh_instants:
  assumes "accepted_as_fresh tol iat (secs_of y)" "accepted_as_fresh tol iat (secs_of z)"
    and "sane_wall y" "sane_wall z" "sane_tolerance tol"
  shows "z < y + int (proof_window tol)"
proof -
  let ?u = "secs_of y" and ?v = "secs_of z"
  have "int ?v < 2 ^ 62" "int ?u < 2 ^ 62" using sane_wall_reading(2) assms(3,4) by fastforce+
  then have "int ?v - int ?u \<le> 2 * (300 + tol)"
    using assms(1,2,5) by (auto simp: accepted_as_fresh_def fresh_at_def sane_tolerance_def)
  then have s: "int ?v + 1 \<le> int ?u + int (nat (2 * (300 + tol) + 1))" by linarith
  have "nat z < (?v + 1) * 10 ^ 9"
    unfolding secs_of_def by (simp add: dividend_less_div_times)
  then have "int (nat z) < int ((?v + 1) * 10 ^ 9)"
    by (simp only: of_nat_less_iff)
  moreover have "0 \<le> z" using assms(4) by (simp add: sane_wall_def)
  ultimately have "z < (int ?v + 1) * 10 ^ 9"
    by simp
  also have "\<dots> \<le> (int ?u + int (nat (2 * (300 + tol) + 1))) * 10 ^ 9"
    using s by (rule mult_right_mono) simp
  also have "\<dots> = int ?u * 10 ^ 9 + int (proof_window tol)"
    by (simp add: proof_window_def distrib_right)
  also have "int ?u * 10 ^ 9 \<le> y"
  proof -
    have "?u * 10 ^ 9 \<le> nat y" by (simp add: secs_of_def)
    then show ?thesis using assms(3) by (simp add: sane_wall_def le_nat_iff)
  qed
  finally show ?thesis by simp
qed

text \<open>While the system clock is not set back, freshness within the window of the store follows.\<close>

lemma fresh_twice:
  assumes "accepted_as_fresh tol iat (secs_of (wall_ns u))" "accepted_as_fresh tol iat (secs_of (wall_ns v))"
    and "passes u v" "never_set_back u" "sane_wall (wall_ns u)" "sane_wall (wall_ns v)" "sane_tolerance tol"
  shows "now_ns v < now_ns u + proof_window tol"
proof -
  have "lead u \<le> lead v" using assms(3,4) by (simp add: passes_def)
  then show ?thesis
    using fresh_instants [OF assms(1,2,5-7)] unfolding lead_def by linarith
qed

lemma paced_walls:
  assumes "passes u v" "passes v w" "never_set_back u" "0 \<le> wall_ns u" "sane_wall (wall_ns w)"
  shows "never_set_back v" "sane_wall (wall_ns v)"
  using assms unfolding passes_def moves_def lead_def sane_wall_def by auto


text \<open>C2: The store remembers a proof for its whole window, whatever the clocks show. At a verifier that fails
  closed, in a deployment with any interleaving of other threads, any passage of time and any setting of
  the system clock: if two requests with the same DPoP proof are both accepted for key-bound tokens, one
  after the other, then the second call ended at least a window after the first began, by the monotonic
  clock. If the system clock is not set back meanwhile, the second call also began before the window of the
  first had ended, and took time; so a proof sent again after the window is refused as stale, and one that
  is verified in no time is never accepted twice.\<close>

theorem proof_accepted_once:
  assumes "sane_tolerance (clock_tolerance_secs cfg)" and "replay_fail_closed cfg"
    and "recorded w1" and "dpop req1 = Some p" and "dpop req2 = Some p"
    and "verify (deployed keys profiles cfg E U) req1 w1 = (Ok tok1, w1')" and "tok_cnf_jkt tok1 \<noteq> None"
    and "w2 = (meanwhile ^^ n) w1'"
    and "verify (deployed keys profiles cfg E U) req2 w2 = (Ok tok2, w2')" and "tok_cnf_jkt tok2 \<noteq> None"
  shows "now_ns w1 + proof_window (clock_tolerance_secs cfg) \<le> now_ns w2'
    \<and> (never_set_back w1 \<and> 0 \<le> wall_ns w1 \<and> sane_wall (wall_ns w2') \<longrightarrow>
         now_ns w2 < now_ns w1' + proof_window (clock_tolerance_secs cfg) \<and> now_ns w2 < now_ns w2')"
proof -
  let ?win = "proof_window (clock_tolerance_secs cfg)"
  have gap: "passes w1' w2" using assms(8) meanwhiles_pass by simp
  obtain c1 m1 iat1 jti1 h1 where 1: "proof_iat E p = Some iat1" "proof_jti E p = Some jti1"
      "sane_wall (wall_ns c1) \<longrightarrow> accepted_as_fresh (clock_tolerance_secs cfg) iat1 (secs_of (wall_ns c1))"
      "passes w1 c1" "passes c1 m1" "passes m1 w1'"
      "history m1 = (now_ns m1, jti1, ?win, Ok New) # h1 @ history c1"
    using deployed_acceptance [OF assms(1,2,6,7,4)] .
  obtain c2 m2 iat2 jti2 h2 where 2: "proof_iat E p = Some iat2" "proof_jti E p = Some jti2"
      "sane_wall (wall_ns c2) \<longrightarrow> accepted_as_fresh (clock_tolerance_secs cfg) iat2 (secs_of (wall_ns c2))"
      "passes w2 c2" "passes c2 m2" "passes m2 w2'"
      "history m2 = (now_ns m2, jti2, ?win, Ok New) # h2 @ history c2"
    using deployed_acceptance [OF assms(1,2,9,10,5)] .
  have same: "iat2 = iat1" "jti2 = jti1" using 1(1,2) 2(1,2) by simp_all
  have m1c2: "passes m1 c2" by (rule passes_trans [OF passes_trans [OF 1(6) gap] 2(4)])
  then obtain l where "history c2 = l @ history m1" by (auto simp: passes_def moves_def)
  then have hist: "history m2 = [] @ (now_ns m2, jti1, ?win, Ok New) # (h2 @ l)
      @ (now_ns m1, jti1, ?win, Ok New) # h1 @ history c1"
    using 1(7) 2(7) same by simp
  have "recorded m2"
    using assms(3) passes_trans [OF passes_trans [OF 1(4,5)] passes_trans [OF m1c2 2(5)]]
    by (simp add: passes_def moves_def)
  then obtain n0 where "store_history mark contains (with_clock n0) (store m2) (now_ns m2) (history m2)"
    by (auto simp: recorded_def)
  from mem.history_New_apart [OF this hist] have marks: "now_ns m1 + ?win \<le> now_ns m2" .
  have order: "now_ns w1 \<le> now_ns m1" "now_ns c1 \<le> now_ns w1'" "now_ns w2 \<le> now_ns c2" "now_ns m2 \<le> now_ns w2'"
      "now_ns c1 \<le> now_ns m1"
    using 1(4-6) 2(4-6) unfolding passes_def moves_def by linarith+
  have c1c2: "passes c1 c2" and c2w: "passes c2 w2'"
    using passes_trans [OF 1(5) m1c2] passes_trans [OF 2(5,6)] by simp_all
  have "now_ns c2 < now_ns c1 + ?win"
    if w: "never_set_back w1 \<and> 0 \<le> wall_ns w1 \<and> sane_wall (wall_ns w2')"
  proof -
    have c1: "never_set_back c1" "sane_wall (wall_ns c1)"
      using paced_walls [OF 1(4) passes_trans [OF c1c2 c2w]] w by simp_all
    have c2: "sane_wall (wall_ns c2)"
      using paced_walls(2) [OF c1c2 c2w c1(1)] c1(2) w by (simp add: sane_wall_def)
    show ?thesis
      using fresh_twice [OF 1(3) [rule_format, OF c1(2)] _ c1c2 c1 c2 assms(1)] 2(3) c2 same(1) by simp
  qed
  then show ?thesis using marks order by (intro conjI impI) (linarith, fastforce+)
qed

text \<open>
  The race is real: the margin of one second in the window of the store does not cover the time between
  the freshness check and the mark. The first request is verified 305 s before its proof's \<open>iat\<close>; the second
  passes the freshness check in the last nanosecond of the proof's window. If its mark follows at once it is
  refused as a replay, and if one nanosecond passes between the two it is accepted.
\<close>

definition race_table :: "(bytes \<times> json) list" where
  "race_table = (''p'', VObject (AList.update ''iat'' (VNumber (PosInt 500))
       (token_claims ''https://idp'' (VObject [(''jkt'', VString proof_jkt)])))) # verifier_table"

definition race_config :: "world verifier_config" where
  "race_config = new_config [''https://idp''] ''https://rs''"

definition race_verifier :: "(world, string, string, string, sample_url) verifier" where
  "race_verifier = deployed (\<lambda>_. Ok [ec_jwk ''k'']) (\<lambda>_. Err []) race_config
     (sample_crates race_table) sample_url_crate"

definition race_world :: "nat \<Rightarrow> world" where
  "race_world delay = \<lparr>now_ns = 695 * 10 ^ 9, wall_ns = 695 * 10 ^ 9, store = with_clock 10, history = [],
     agenda = [[], [], [], [], [Elapse (611 * 10 ^ 9 - 1)], [], [], [Elapse delay]]\<rparr>"

definition after_first :: "nat \<Rightarrow> world" where
  "after_first delay = snd (verify race_verifier dpop_request (race_world delay))"

lemma race_accepted_twice:
  "fst (verify race_verifier dpop_request (race_world 1)) = Ok alice"
  "fst (verify race_verifier dpop_request (after_first 1)) = Ok alice"
  by code_simp+

lemma no_race_no_replay:
  "fst (verify race_verifier dpop_request (race_world 0)) = Ok alice"
  "fst (verify race_verifier dpop_request (after_first 0)) =
     Err (invalid_token_dpop ''DPoP proof has already been used (replay).'')"
  by code_simp+

lemma race_wall: "sane_wall (wall_ns (snd (verify race_verifier dpop_request (after_first 1))))"
  by code_simp

lemma alice_bound: "tok_cnf_jkt alice = Some proof_jkt"
  by code_simp

lemma race_recorded: "recorded (race_world d)"
  unfolding recorded_def by (rule exI [of _ 10]) (simp add: race_world_def store_history.start)

text \<open>
  The condition on the system clock is needed. Set back by 611 s once the store has forgotten the proof, it
  shows the second of the first request again, and the request is accepted again.
\<close>

definition set_back_world :: world where
  "set_back_world = \<lparr>now_ns = 695 * 10 ^ 9, wall_ns = 695 * 10 ^ 9, store = with_clock 10, history = [],
     agenda = [[], [], [], [], [Elapse (611 * 10 ^ 9), Shift_clock (- (611 * 10 ^ 9))]]\<rparr>"

lemma clock_set_back_accepts_twice:
  "fst (verify race_verifier dpop_request set_back_world) = Ok alice"
  "fst (verify race_verifier dpop_request (snd (verify race_verifier dpop_request set_back_world))) = Ok alice"
  by code_simp+

lemma race_steady: "never_set_back (race_world d)" "0 \<le> wall_ns (race_world d)"
  by (simp_all add: race_world_def never_set_back_def)

theorem proof_accepted_once_witness:
  "now_ns (race_world 1) + proof_window 5 \<le> now_ns (snd (verify race_verifier dpop_request (after_first 1)))
   \<and> now_ns (after_first 1) < now_ns (after_first 1) + proof_window 5
   \<and> now_ns (after_first 1) < now_ns (snd (verify race_verifier dpop_request (after_first 1)))"
proof -
  have "verify race_verifier dpop_request (race_world 1) = (Ok alice, after_first 1)"
    unfolding after_first_def using race_accepted_twice(1) by (rule pair_of_fst)
  moreover have "tok_cnf_jkt alice \<noteq> None" by (simp add: alice_bound)
  moreover have "sane_tolerance (clock_tolerance_secs race_config)" "replay_fail_closed race_config"
      "clock_tolerance_secs race_config = 5"
    by (simp_all add: race_config_def new_config_def DEFAULT_CLOCK_TOLERANCE_SECS_def sane_tolerance_def)
  ultimately show ?thesis
    using proof_accepted_once [of race_config "race_world 1" dpop_request "''d.q.j''" dpop_request
        "\<lambda>_. Ok [ec_jwk ''k'']" "\<lambda>_. Err []" "sample_crates race_table" sample_url_crate alice
        "after_first 1" "after_first 1" 0 alice
        "snd (verify race_verifier dpop_request (after_first 1))"]
      race_recorded [of 1] pair_of_fst [OF race_accepted_twice(2)] race_wall race_steady [of 1]
    by (simp flip: race_verifier_def)
qed

end
