(* ===== verification/Passage.thy ===== *)
theory Passage
  imports Verifier
begin

section \<open>What a verification keeps of the world\<close>

text \<open>
  Any property of the world that the key provider, the store, the clock and the resolver keep survives
  \<open>verify\<close>, whatever it answers: the steps in between touch nothing.
\<close>

lemma preserves_Pair [io_rules]: "preserves I (Pair m)"
  by (simp add: preserves_def)

lemma now_secs_preserves:
  assumes "\<And>w. I w \<Longrightarrow> I (snd (v_clock V w))"
  shows "preserves I (now_secs V)"
  unfolding preserves_def
proof (intro allI impI)
  fix w r w' assume "I w" "now_secs V w = (r, w')"
  then show "I w'"
    using assms [of w] by (cases "v_clock V w") (auto simp: now_secs_def split: option.splits)
qed

lemma check_replay_preserves:
  assumes "\<And>jti ttl. preserves I (v_mark V jti ttl)"
  shows "preserves I (check_replay V p)"
  unfolding check_replay_def
proof (intro io_rules)
  fix ttl jti
  show "preserves I (\<lambda>w. case v_mark V jti ttl w of
         (Ok New, w') \<Rightarrow> (Ok (), w')
       | (Ok Replay, w') \<Rightarrow> (Err (invalid_token_dpop ''DPoP proof has already been used (replay).''), w')
       | (Err _, w') \<Rightarrow> (if replay_fail_closed (v_config V) then Err replay_unavailable else Ok (), w')
       | (Panic, w') \<Rightarrow> (Panic, w'))"
    using assms [of jti ttl] unfolding preserves_def
    by (auto split: prod.splits outcome.splits mark_result.splits)
qed

lemma check_bidirectional_preserves:
  assumes "\<And>r u. webid_resolver (v_config V) = Some r \<Longrightarrow> preserves I (r u)"
  shows "preserves I (check_bidirectional V web_id iss)"
proof (cases "webid_resolver (v_config V)")
  case (Some r)
  then have "preserves I (r web_id)" using assms by blast
  then show ?thesis
    unfolding preserves_def check_bidirectional_def Let_def Some
    by (auto split: prod.splits outcome.splits)
qed (simp add: check_bidirectional_def Let_def io_rules)

lemma validate_token_preserves:
  assumes "\<And>iss. preserves I (v_jwks V iss)" and "\<And>w. I w \<Longrightarrow> I (snd (v_clock V w))"
  shows "preserves I (validate_token V req token iss d)"
proof -
  note now = now_secs_preserves [of I V, OF assms(2)]
  have tok: "preserves I (validate_access_token V token iss)"
    unfolding validate_access_token_def check_temporal_def Let_def
    by (intro io_rules now assms(1))
  have pop: "preserves I (validate_dpop_proof V req p token jkt b)" for p jkt b
    unfolding validate_dpop_proof_def Let_def
    by (auto split: prod.split intro!: io_rules now)
  show ?thesis
    unfolding validate_token_def Let_def
    by (auto split: option.split x5t_s256.split intro!: io_rules tok pop)
qed

lemma verify_preserves:
  assumes "\<And>iss. preserves I (v_jwks V iss)" and "\<And>jti ttl. preserves I (v_mark V jti ttl)"
    and "\<And>w. I w \<Longrightarrow> I (snd (v_clock V w))"
    and "\<And>r u. webid_resolver (v_config V) = Some r \<Longrightarrow> preserves I (r u)"
  shows "preserves I (verify V req)"
proof (cases "parse_authorization (v_crates V) (authorization req)")
  case None
  then show ?thesis by (simp add: verify_def Let_def io_rules)
next
  case (Some st)
  obtain scheme token where "st = (scheme, token)" by fastforce
  with Some show ?thesis
    unfolding verify_def Let_def
    by (auto split: option.split intro!: io_rules validate_token_preserves [OF assms(1,3)]
        check_replay_preserves [OF assms(2)] check_bidirectional_preserves assms(4))
qed

end
