(* ===== verification/Calls.thy ===== *)
theory Calls
  imports Passage Verifier_Samples
begin

section \<open>A verification as the calls it makes\<close>

text \<open>
  A verification is taken apart into the calls it makes of the key provider, the clock, the store and
  the resolver: the same definition \<open>verify\<close> is run on a tape of the answers it has had so far, and stops
  at the first call the tape does not answer. Running to the end on the answers a world gives is running
  in that world; so a verification is a sequence of calls between which anything may happen, and the
  theory of concurrent verifications interleaves them call by call.
\<close>

subsection \<open>A verification on a tape of answers\<close>

datatype call = Ask_keys string | Ask_mark string nat | Ask_clock | Ask_profile string

datatype answer =
    Keys "(string, jwk list) outcome"
  | Marked "(string, mark_result) outcome"
  | Clock "nat option"
  | Profile "(string, webid_profile) outcome"

record tape =
  heard :: "(call \<times> answer) list"
  asks :: "call option"

definition ask :: "call \<Rightarrow> tape \<Rightarrow> answer option \<times> tape" where
  "ask c w =
     (if asks w \<noteq> None then (None, w)
      else case heard w of
        [] \<Rightarrow> (None, w\<lparr>asks := Some c\<rparr>)
      | (d, a) # rest \<Rightarrow> if d = c then (Some a, w\<lparr>heard := rest\<rparr>) else (None, w\<lparr>asks := Some c\<rparr>))"

definition ask_profile :: "tape webid_resolver" where
  "ask_profile web_id w =
     (case ask (Ask_profile web_id) w of (Some (Profile r), w') \<Rightarrow> (r, w') | (_, w') \<Rightarrow> (Panic, w'))"

definition taped_config :: "'w verifier_config \<Rightarrow> tape verifier_config" where
  "taped_config cfg =
     \<lparr>trusted_issuers = trusted_issuers cfg, webid_claim = webid_claim cfg, require_dpop = require_dpop cfg,
      allow_missing_ath = allow_missing_ath cfg, clock_tolerance_secs = clock_tolerance_secs cfg,
      audience = audience cfg, authorized_parties = authorized_parties cfg,
      bidirectional_mode = bidirectional_mode cfg,
      webid_resolver = map_option (\<lambda>_. ask_profile) (webid_resolver cfg),
      replay_fail_closed = replay_fail_closed cfg\<rparr>"

definition taped ::
  "'w verifier_config \<Rightarrow> ('k, 'p, 's) crates \<Rightarrow> 'u url_crate \<Rightarrow> (tape, 'k, 'p, 's, 'u) verifier" where
  "taped cfg E U =
     \<lparr>v_config = taped_config cfg,
      v_jwks = (\<lambda>iss w. case ask (Ask_keys iss) w of
        (Some (Keys r), w') \<Rightarrow> (r, w') | (_, w') \<Rightarrow> (Panic, w')),
      v_mark = (\<lambda>jti ttl w. case ask (Ask_mark jti ttl) w of
        (Some (Marked r), w') \<Rightarrow> (r, w') | (_, w') \<Rightarrow> (Panic, w')),
      v_crates = E, v_urls = U,
      v_clock = (\<lambda>w. case ask Ask_clock w of (Some (Clock t), w') \<Rightarrow> (t, w') | (_, w') \<Rightarrow> (None, w'))\<rparr>"

definition run ::
  "'w verifier_config \<Rightarrow> ('k, 'p, 's) crates \<Rightarrow> 'u url_crate \<Rightarrow> auth_request \<Rightarrow> (call \<times> answer) list
   \<Rightarrow> (verify_error, verified_token) outcome \<times> tape" where
  "run cfg E U req T = verify (taped cfg E U) req \<lparr>heard = T, asks = None\<rparr>"

text \<open>The call a verification waits for after the answers \<open>T\<close>, and its result when it waits for none.\<close>

definition next_call where
  "next_call cfg E U req T = asks (snd (run cfg E U req T))"

definition answered where
  "answered cfg E U req T =
     (if next_call cfg E U req T = None then Some (fst (run cfg E U req T)) else None)"

lemma taped_fields [simp]:
  "v_crates (taped cfg E U) = E" "v_urls (taped cfg E U) = U" "v_config (taped cfg E U) = taped_config cfg"
  by (simp_all add: taped_def)

lemma taped_config_fields [simp]:
  "trusted_issuers (taped_config cfg) = trusted_issuers cfg" "webid_claim (taped_config cfg) = webid_claim cfg"
  "require_dpop (taped_config cfg) = require_dpop cfg" "audience (taped_config cfg) = audience cfg"
  "allow_missing_ath (taped_config cfg) = allow_missing_ath cfg"
  "clock_tolerance_secs (taped_config cfg) = clock_tolerance_secs cfg"
  "authorized_parties (taped_config cfg) = authorized_parties cfg"
  "bidirectional_mode (taped_config cfg) = bidirectional_mode cfg"
  "webid_resolver (taped_config cfg) = map_option (\<lambda>_. ask_profile) (webid_resolver cfg)"
  "replay_fail_closed (taped_config cfg) = replay_fail_closed cfg"
  by (simp_all add: taped_config_def)

text \<open>A verification that waits for a call goes on waiting for it.\<close>

definition waits :: "call \<Rightarrow> tape \<Rightarrow> bool" where
  "waits c w \<longleftrightarrow> asks w = Some c"

lemma ask_waits: "waits c w \<Longrightarrow> ask d w = (None, w)"
  by (simp add: ask_def waits_def)

lemma ask_first: "ask c \<lparr>heard = (c, a) # T, asks = None\<rparr> = (Some a, \<lparr>heard = T, asks = None\<rparr>)"
  by (simp add: ask_def)

lemma ask_end: "ask c \<lparr>heard = [], asks = None\<rparr> = (None, \<lparr>heard = [], asks = Some c\<rparr>)"
  by (simp add: ask_def)

lemma taped_waits:
  "waits c w \<Longrightarrow> v_jwks (taped cfg E U) iss w = (Panic, w)"
  "waits c w \<Longrightarrow> v_mark (taped cfg E U) jti ttl w = (Panic, w)"
  "waits c w \<Longrightarrow> v_clock (taped cfg E U) w = (None, w)"
  "waits c w \<Longrightarrow> ask_profile web_id w = (Panic, w)"
  by (simp_all add: taped_def ask_profile_def ask_waits)

lemma taped_keeps_waiting:
  "preserves (waits c) (v_jwks (taped cfg E U) iss)"
  "preserves (waits c) (v_mark (taped cfg E U) jti ttl)"
  "waits c w \<Longrightarrow> waits c (snd (v_clock (taped cfg E U) w))"
  "preserves (waits c) (ask_profile web_id)"
  by (simp_all add: preserves_def taped_waits)

lemmas taped_waiting =
  taped_keeps_waiting now_secs_preserves [of "waits c" "taped cfg E U" for c cfg E U, OF taped_keeps_waiting(3)]


subsection \<open>Running on the tape is running in the world\<close>

fun perform :: "('w, 'k, 'p, 's, 'u) verifier \<Rightarrow> call \<Rightarrow> 'w \<Rightarrow> answer \<times> 'w" where
  "perform V (Ask_keys iss) w = (case v_jwks V iss w of (r, w') \<Rightarrow> (Keys r, w'))"
| "perform V (Ask_mark jti ttl) w = (case v_mark V jti ttl w of (r, w') \<Rightarrow> (Marked r, w'))"
| "perform V Ask_clock w = (case v_clock V w of (t, w') \<Rightarrow> (Clock t, w'))"
| "perform V (Ask_profile web_id) w =
     (case webid_resolver (v_config V) of
        Some resolver \<Rightarrow> (case resolver web_id w of (r, w') \<Rightarrow> (Profile r, w'))
      | None \<Rightarrow> (Profile Panic, w))"

fun performs ::
  "('w, 'k, 'p, 's, 'u) verifier \<Rightarrow> 'w \<Rightarrow> (call \<times> answer) list \<Rightarrow> 'w \<Rightarrow> bool" where
  "performs V w [] w' \<longleftrightarrow> w = w'"
| "performs V w ((c, a) # T) w' \<longleftrightarrow> (case perform V c w of (b, w1) \<Rightarrow> a = b \<and> performs V w1 T w')"

lemma performs_append: "performs V w S w1 \<Longrightarrow> performs V w1 T w' \<Longrightarrow> performs V w (S @ T) w'"
  by (induction V w S w1 rule: performs.induct) (auto split: prod.splits)

text \<open>
  \<open>follows V m m'\<close>: in every world of \<open>V\<close>, what \<open>m\<close> returns there \<open>m'\<close> returns on a tape of calls
  performed there, and on any shorter tape it waits for the next of these calls; and \<open>m'\<close> keeps waiting.
\<close>

definition plays :: "(tape, 'e, 'a) io \<Rightarrow> (call \<times> answer) list \<Rightarrow> ('e, 'a) outcome \<Rightarrow> bool" where
  "plays m T r \<longleftrightarrow>
     (\<forall>rest. m \<lparr>heard = T @ rest, asks = None\<rparr> = (r, \<lparr>heard = rest, asks = None\<rparr>))
     \<and> (\<forall>A c a B. T = A @ (c, a) # B \<longrightarrow> waits c (snd (m \<lparr>heard = A, asks = None\<rparr>)))"

definition follows ::
  "('w, 'k, 'p, 's, 'u) verifier \<Rightarrow> ('w, 'e, 'a) io \<Rightarrow> (tape, 'e, 'a) io \<Rightarrow> bool" where
  "follows V m m' \<longleftrightarrow> (\<forall>c. preserves (waits c) m')
     \<and> (\<forall>w r w'. m w = (r, w') \<longrightarrow> (\<exists>T. performs V w T w' \<and> plays m' T r))"

named_theorems tape_rules \<open>composition of runs in the world with runs on the tape\<close>

lemma plays_nothing: "plays m [] r \<longleftrightarrow> (\<forall>rest. m \<lparr>heard = rest, asks = None\<rparr> = (r, \<lparr>heard = rest, asks = None\<rparr>))"
  by (simp add: plays_def)

lemma follows_lift [tape_rules]: "follows V (lift x) (lift x)"
  unfolding follows_def by (auto simp: preserves_lift plays_nothing intro!: exI [of _ "[]"])

lemma follows_Pair [tape_rules]: "follows V (Pair x) (Pair x)"
  using follows_lift [of V x] by (simp add: lift_def)

lemma plays_map_err: "plays m T r \<Longrightarrow> plays (io_map_err g m) T (map_err g r)"
  by (auto simp: plays_def io_map_err_def split_beta)

lemma follows_map_err [tape_rules]: "follows V m m' \<Longrightarrow> follows V (io_map_err g m) (io_map_err g m')"
  unfolding follows_def
  by (fastforce simp: io_map_err_def [of g m] intro: preserves_map_err plays_map_err split: prod.splits)

lemma preserves_snd: "preserves P f \<Longrightarrow> P w \<Longrightarrow> P (snd (f w))"
  by (simp add: preserves_def) (metis prod.collapse)

lemma waits_bind:
  assumes "waits c (snd (m w))" "\<And>c x. preserves (waits c) (f x)"
  shows "waits c (snd (io_bind m f w))"
proof (cases "m w")
  case (Pair r w1)
  then have "waits c w1" using assms(1) by simp
  then show ?thesis
    using Pair preserves_snd [OF assms(2)] by (cases r) (simp_all add: io_bind_def)
qed

lemma plays_stop:
  assumes "plays m T r" "\<And>x. r \<noteq> Ok x" and s: "\<And>e. r = Err e \<Longrightarrow> s = Err e" "r = Panic \<Longrightarrow> s = Panic"
    and f: "\<And>c x. preserves (waits c) (f x)"
  shows "plays (io_bind m f) T s"
  unfolding plays_def
proof (intro conjI allI impI)
  fix rest
  show "io_bind m f \<lparr>heard = T @ rest, asks = None\<rparr> = (s, \<lparr>heard = rest, asks = None\<rparr>)"
    using assms(1,2) s by (cases r) (auto simp: plays_def io_bind_def)
next
  fix A c a B assume "T = A @ (c, a) # B"
  then have "waits c (snd (m \<lparr>heard = A, asks = None\<rparr>))" using assms(1) by (simp add: plays_def)
  then show "waits c (snd (io_bind m f \<lparr>heard = A, asks = None\<rparr>))"
    by (rule waits_bind [OF _ f])
qed

lemma plays_bind:
  assumes m: "plays m S (Ok x)" and k: "plays (f x) T r" and f: "\<And>c x. preserves (waits c) (f x)"
  shows "plays (io_bind m f) (S @ T) r"
  unfolding plays_def
proof (intro conjI allI impI)
  fix rest
  show "io_bind m f \<lparr>heard = (S @ T) @ rest, asks = None\<rparr> = (r, \<lparr>heard = rest, asks = None\<rparr>)"
    using m k by (simp add: plays_def io_bind_def)
next
  fix A c a B assume split: "S @ T = A @ (c, a) # B"
  show "waits c (snd (io_bind m f \<lparr>heard = A, asks = None\<rparr>))"
  proof (cases "length A < length S")
    case True
    then obtain us where "S = A @ us" "us @ T = (c, a) # B"
      using split by (auto simp: append_eq_append_conv2)
    moreover from this True have "us \<noteq> []" by auto
    ultimately obtain B' where "S = A @ (c, a) # B'" by (cases us) auto
    then have "waits c (snd (m \<lparr>heard = A, asks = None\<rparr>))" using m by (simp add: plays_def)
    then show ?thesis by (rule waits_bind [OF _ f])
  next
    case False
    then obtain A' where A: "A = S @ A'" "T = A' @ (c, a) # B"
      using split by (auto simp: append_eq_append_conv2)
    then have "io_bind m f \<lparr>heard = A, asks = None\<rparr> = f x \<lparr>heard = A', asks = None\<rparr>"
      using m by (simp add: plays_def io_bind_def)
    then show ?thesis using k A(2) by (simp add: plays_def)
  qed
qed

lemma follows_bind [tape_rules]:
  assumes m: "follows V m m'" and f: "\<And>x. follows V (f x) (f' x)"
  shows "follows V (io_bind m f) (io_bind m' f')"
proof -
  have w: "preserves (waits c) (f' x)" for c x using f by (simp add: follows_def)
  have "\<exists>T. performs V w T w' \<and> plays (io_bind m' f') T r" if b: "io_bind m f w = (r, w')" for w r w'
  proof -
    obtain q w1 where mw: "m w = (q, w1)" by fastforce
    then obtain S where S: "performs V w S w1" "plays m' S q" using m unfolding follows_def by blast
    show ?thesis
    proof (cases q)
      case (Ok x)
      then have "f x w1 = (r, w')" using b mw by (simp add: io_bind_def)
      then obtain T where T: "performs V w1 T w'" "plays (f' x) T r" using f unfolding follows_def by blast
      then have "performs V w (S @ T) w'" "plays (io_bind m' f') (S @ T) r"
        using performs_append [OF S(1) T(1)] plays_bind [where f = f', OF S(2) [unfolded Ok] T(2) w] by simp_all
      then show ?thesis by blast
    next
      case (Err e)
      then have "r = Err e" "w' = w1" using b mw by (simp_all add: io_bind_def)
      then have "plays (io_bind m' f') S r" using S(2) Err by (intro plays_stop [OF _ _ _ _ w]) auto
      then show ?thesis using S(1) \<open>w' = w1\<close> by blast
    next
      case Panic
      then have "r = Panic" "w' = w1" using b mw by (simp_all add: io_bind_def)
      then have "plays (io_bind m' f') S r" using S(2) Panic by (intro plays_stop [OF _ _ _ _ w]) auto
      then show ?thesis using S(1) \<open>w' = w1\<close> by blast
    qed
  qed
  moreover have "preserves (waits c) (io_bind m' f')" for c
    using m w by (simp add: follows_def preserves_bind)
  ultimately show ?thesis by (simp add: follows_def)
qed

text \<open>The calls themselves: one entry of the tape each.\<close>

lemma plays_one:
  assumes "\<And>rest. m \<lparr>heard = (c, a) # rest, asks = None\<rparr> = (r, \<lparr>heard = rest, asks = None\<rparr>)"
    and "waits c (snd (m \<lparr>heard = [], asks = None\<rparr>))"
  shows "plays m [(c, a)] r"
  using assms by (auto simp: plays_def Cons_eq_append_conv)

lemma follows_one:
  assumes "\<And>c. preserves (waits c) m'"
    and "\<And>w. perform V c w = (let (r, w') = m w in (con r, w'))"
    and "\<And>r rest. m' \<lparr>heard = (c, con r) # rest, asks = None\<rparr> = (r, \<lparr>heard = rest, asks = None\<rparr>)"
    and "waits c (snd (m' \<lparr>heard = [], asks = None\<rparr>))"
  shows "follows V m m'"
  unfolding follows_def
proof (intro conjI allI impI)
  fix w r w' assume "m w = (r, w')"
  then have "performs V w [(c, con r)] w'" using assms(2) by simp
  moreover have "plays m' [(c, con r)] r" using assms(3,4) by (rule plays_one)
  ultimately show "\<exists>T. performs V w T w' \<and> plays m' T r" by blast
qed (rule assms(1))

abbreviation taped_of :: "('w, 'k, 'p, 's, 'u) verifier \<Rightarrow> (tape, 'k, 'p, 's, 'u) verifier" where
  "taped_of V \<equiv> taped (v_config V) (v_crates V) (v_urls V)"

lemma follows_jwks [tape_rules]: "follows V (v_jwks V iss) (v_jwks (taped_of V) iss)"
  by (rule follows_one [where c = "Ask_keys iss" and con = Keys])
     (simp_all add: taped_waiting, simp_all add: taped_def ask_first ask_end waits_def)

lemma follows_mark: "follows V (v_mark V jti ttl) (v_mark (taped_of V) jti ttl)"
  by (rule follows_one [where c = "Ask_mark jti ttl" and con = Marked])
     (simp_all add: taped_waiting, simp_all add: taped_def ask_first ask_end waits_def)

lemma follows_profile:
  "webid_resolver (v_config V) = Some resolver \<Longrightarrow> follows V (resolver web_id) (ask_profile web_id)"
  by (rule follows_one [where c = "Ask_profile web_id" and con = Profile])
     (simp_all add: taped_waiting, simp_all add: ask_profile_def ask_first ask_end waits_def)

lemma follows_now [tape_rules]: "follows V (now_secs V) (now_secs (taped_of V))"
  unfolding follows_def
proof (intro conjI allI impI)
  fix w r w' assume n: "now_secs V w = (r, w')"
  obtain t w1 where t: "v_clock V w = (t, w1)" by fastforce
  have "w' = w1" using n t by (simp add: now_secs_def split: option.splits)
  moreover have "plays (now_secs (taped_of V)) [(Ask_clock, Clock t)] r"
    using n t by (intro plays_one)
      (auto simp: now_secs_def taped_def ask_first ask_end waits_def split: option.splits)
  ultimately show "\<exists>T. performs V w T w' \<and> plays (now_secs (taped_of V)) T r"
    using t by (intro exI [of _ "[(Ask_clock, Clock t)]"]) simp
qed (rule taped_waiting)

text \<open>What a verification makes of an answer is a function of it.\<close>

lemma follows_then:
  assumes "follows V m m'"
  shows "follows V (\<lambda>w. case m w of (r, w') \<Rightarrow> (g r, w')) (\<lambda>w. case m' w of (r, w') \<Rightarrow> (g r, w'))"
proof -
  have "plays (\<lambda>w. case m' w of (r, w') \<Rightarrow> (g r, w')) T (g r)" if "plays m' T r" for T r
    using that by (auto simp: plays_def split_beta)
  moreover have "preserves (waits c) (\<lambda>w. case m' w of (r, w') \<Rightarrow> (g r, w'))" for c
    using assms by (fastforce simp: follows_def preserves_def split: prod.splits)
  ultimately show ?thesis
    using assms unfolding follows_def by (fastforce split: prod.splits)
qed

lemma follows_replay [tape_rules]: "follows V (check_replay V p) (check_replay (taped_of V) p)"
proof -
  define g where "g = (\<lambda>r. case r of Ok New \<Rightarrow> Ok ()
      | Ok Replay \<Rightarrow> Err (invalid_token_dpop ''DPoP proof has already been used (replay).'')
      | Err (_ :: string) \<Rightarrow> if replay_fail_closed (v_config V) then Err replay_unavailable else Ok ()
      | Panic \<Rightarrow> Panic)"
  have *: "(case x of (Ok New, w') \<Rightarrow> (Ok (), w')
       | (Ok Replay, w') \<Rightarrow> (Err (invalid_token_dpop ''DPoP proof has already been used (replay).''), w')
       | (Err _, w') \<Rightarrow> (if replay_fail_closed (v_config V) then Err replay_unavailable else Ok (), w')
       | (Panic, w') \<Rightarrow> (Panic, w')) = (case x of (r, w') \<Rightarrow> (g r, w'))" for x :: "_ \<times> 'v"
    unfolding g_def by (auto split: prod.splits outcome.splits mark_result.splits)
  have ttl: "replay_ttl oc (taped_config cfg) = replay_ttl oc cfg" for oc and cfg :: "'a verifier_config"
    by (simp add: replay_ttl_def)
  show ?thesis
    unfolding check_replay_def taped_fields ttl taped_config_fields * 
    by (intro tape_rules follows_then follows_mark)
qed

lemma follows_bidirectional [tape_rules]:
  "follows V (check_bidirectional V web_id iss) (check_bidirectional (taped_of V) web_id iss)"
proof (cases "bidirectional_mode (v_config V) = Off \<or> webid_resolver (v_config V) = None")
  case True
  then show ?thesis
    by (auto simp: check_bidirectional_def Let_def intro: tape_rules)
next
  case False
  then obtain resolver where r: "webid_resolver (v_config V) = Some resolver" by blast
  define g where "g = (\<lambda>r :: (string, webid_profile) outcome. if r = Panic then Panic
      else if (case r of Ok profile \<Rightarrow> iss \<in> issuers profile | _ \<Rightarrow> False) then Ok ()
      else if bidirectional_mode (v_config V) = Strict then Err issuer_check_failed else Ok ())"
  have "check_bidirectional V web_id iss = (\<lambda>w. case resolver web_id w of (r, w') \<Rightarrow> (g r, w'))"
    "check_bidirectional (taped_of V) web_id iss = (\<lambda>w. case ask_profile web_id w of (r, w') \<Rightarrow> (g r, w'))"
    using False r
    by (auto simp: check_bidirectional_def Let_def g_def fun_eq_iff split: prod.splits outcome.splits)
  then show ?thesis using follows_then [OF follows_profile [OF r]] by simp
qed

lemma taped_helpers:
  "check_scheme (taped_of V) = check_scheme V" "extract_webid (taped_of V) = extract_webid V"
  "check_authorized_party (taped_of V) = check_authorized_party V"
  unfolding check_scheme_def [abs_def] extract_webid_def [abs_def] check_authorized_party_def [abs_def]
    taped_fields taped_config_fields by (rule refl)+

lemma follows_access_token [tape_rules]:
  "follows V (validate_access_token V token iss) (validate_access_token (taped_of V) token iss)"
  unfolding validate_access_token_def check_temporal_def Let_def taped_fields taped_config_fields
  by (intro tape_rules)

lemma follows_proof [tape_rules]:
  "follows V (validate_dpop_proof V req p token jkt b) (validate_dpop_proof (taped_of V) req p token jkt b)"
  unfolding validate_dpop_proof_def Let_def taped_fields taped_config_fields
  by (auto split: prod.split intro!: tape_rules)

lemma follows_token [tape_rules]:
  "follows V (validate_token V req token iss d) (validate_token (taped_of V) req token iss d)"
  unfolding validate_token_def Let_def taped_fields taped_config_fields
  by (auto split: option.split x5t_s256.split intro!: tape_rules)

lemma follows_verify: "follows V (verify V req) (verify (taped_of V) req)"
proof (cases "parse_authorization (v_crates V) (authorization req)")
  case None
  then show ?thesis by (simp add: verify_def Let_def tape_rules)
next
  case (Some st)
  obtain scheme token where "st = (scheme, token)" by fastforce
  with Some show ?thesis
    unfolding verify_def Let_def taped_helpers taped_fields taped_config_fields
    by (auto split: option.split intro!: tape_rules)
qed

text \<open>
  So a run of \<open>verify\<close> in a world is a list of calls performed there one after the other, each of them
  the one a verification asks for after the answers to those before it.
\<close>

lemma verify_calls:
  obtains T where "performs V w T (snd (verify V req w))"
    and "answered (v_config V) (v_crates V) (v_urls V) req T = Some (fst (verify V req w))"
    and "\<And>n. n < length T \<Longrightarrow> next_call (v_config V) (v_crates V) (v_urls V) req (take n T) = Some (fst (T ! n))"
proof -
  obtain r w' where v: "verify V req w = (r, w')" by fastforce
  obtain T where T: "performs V w T w'" "plays (verify (taped_of V) req) T r"
    using follows_verify [of V req] v unfolding follows_def by blast
  have "run (v_config V) (v_crates V) (v_urls V) req T = (r, \<lparr>heard = [], asks = None\<rparr>)"
    using T(2) [unfolded plays_def, THEN conjunct1, rule_format, of "[]"] by (simp add: run_def)
  then have "answered (v_config V) (v_crates V) (v_urls V) req T = Some r"
    by (simp add: answered_def next_call_def)
  moreover have "next_call (v_config V) (v_crates V) (v_urls V) req (take n T) = Some (fst (T ! n))"
    if "n < length T" for n
  proof -
    have "T = take n T @ (fst (T ! n), snd (T ! n)) # drop (Suc n) T"
      using that by (simp add: id_take_nth_drop)
    then have "waits (fst (T ! n)) (snd (verify (taped_of V) req \<lparr>heard = take n T, asks = None\<rparr>))"
      using T(2) unfolding plays_def by blast
    then show ?thesis by (simp add: next_call_def run_def waits_def)
  qed
  ultimately show thesis using that [of T] T(1) v by simp
qed

end
