(* ===== verification/Concurrent.thy ===== *)
theory Concurrent
  imports Replay_Safety Calls
begin

section \<open>Concurrent verifications\<close>

text \<open>
  \<open>verify\<close> takes \<open>&self\<close> and the verifier is shared, so any number of threads verify requests at once, and
  whatever the others do may happen between one of its calls and the next. A pool runs any number of
  verifications on one in-memory store and the two clocks of \<open>Replay_Safety\<close>: a schedule lets time pass, sets
  the system clock, starts verifications and advances them call by call, in any order. What the key provider
  and the resolver answer is chosen by the schedule as well, so it is arbitrary; the clock and the store
  answer as they do. The state keeps the marks with the verification that made them, and the readings of the
  system clock with the time that had passed by then.
\<close>

subsection \<open>The pool\<close>

record thread =
  began :: nat
  request :: auth_request
  said :: "(nat \<times> call \<times> answer) list"

record pool =
  time_ns :: nat
  system_ns :: int
  readings :: "(nat \<times> int) list"
  shared :: mem_store
  running :: "nat \<Rightarrow> thread option"
  marks :: "(nat \<times> mark_event) list"

datatype turn = Pass nat | Set_by int | Begin nat auth_request | Advance nat answer

definition fresh_pool :: "nat \<Rightarrow> int \<Rightarrow> nat \<Rightarrow> pool" where
  "fresh_pool t z cap_entries =
     \<lparr>time_ns = t, system_ns = z, readings = [], shared = with_clock cap_entries, running = (\<lambda>_. None), marks = []\<rparr>"

definition respond :: "nat \<Rightarrow> call \<Rightarrow> answer \<Rightarrow> pool \<Rightarrow> answer \<times> pool" where
  "respond i c offered s =
     (case c of
        Ask_clock \<Rightarrow>
          (Clock (clock_shows (system_ns s)), s\<lparr>readings := (time_ns s, system_ns s) # readings s\<rparr>)
      | Ask_mark jti ttl \<Rightarrow>
          (case mark (time_ns s) jti ttl (shared s) of (r, st) \<Rightarrow>
             (Marked r, s\<lparr>shared := st, marks := (i, time_ns s, jti, ttl, r) # marks s\<rparr>))
      | _ \<Rightarrow> (offered, s))"

definition waiting_for where
  "waiting_for cfg E U th = next_call cfg E U (request th) (map snd (said th))"

definition result_of where
  "result_of cfg E U th = answered cfg E U (request th) (map snd (said th))"

fun take_turn :: "'w verifier_config \<Rightarrow> ('k, 'p, 's) crates \<Rightarrow> 'u url_crate \<Rightarrow> turn \<Rightarrow> pool \<Rightarrow> pool" where
  "take_turn cfg E U (Pass d) s = s\<lparr>time_ns := time_ns s + d, system_ns := system_ns s + int d\<rparr>"
| "take_turn cfg E U (Set_by z) s = s\<lparr>system_ns := system_ns s + z\<rparr>"
| "take_turn cfg E U (Begin i req) s =
     (if running s i = None
      then s\<lparr>running := (running s)(i \<mapsto> \<lparr>began = time_ns s, request = req, said = []\<rparr>)\<rparr> else s)"
| "take_turn cfg E U (Advance i offered) s =
     (case running s i of
        None \<Rightarrow> s
      | Some th \<Rightarrow>
          (case waiting_for cfg E U th of
             None \<Rightarrow> s
           | Some c \<Rightarrow>
               (case respond i c offered s of (a, s') \<Rightarrow>
                  s'\<lparr>running := (running s')(i \<mapsto> th\<lparr>said := said th @ [(time_ns s, c, a)]\<rparr>)\<rparr>)))"

definition run_pool where
  "run_pool cfg E U schedule s = fold (take_turn cfg E U) schedule s"

subsection \<open>What every schedule keeps\<close>

definition true_answer :: "pool \<Rightarrow> nat \<Rightarrow> nat \<Rightarrow> call \<Rightarrow> answer \<Rightarrow> bool" where
  "true_answer s i t c a =
     (case c of
        Ask_clock \<Rightarrow> (\<exists>z. a = Clock (clock_shows z) \<and> (t, z) \<in> set (readings s))
      | Ask_mark jti ttl \<Rightarrow> (\<exists>r. a = Marked r \<and> (i, t, jti, ttl, r) \<in> set (marks s))
      | _ \<Rightarrow> True)"

definition thread_ok :: "pool \<Rightarrow> nat \<Rightarrow> thread \<Rightarrow> bool" where
  "thread_ok s i th \<longleftrightarrow>
     began th \<le> time_ns s \<and> sorted (map fst (said th))
     \<and> (\<forall>t c a. (t, c, a) \<in> set (said th) \<longrightarrow> began th \<le> t \<and> t \<le> time_ns s \<and> true_answer s i t c a)"

definition pool_ok :: "nat \<Rightarrow> pool \<Rightarrow> bool" where
  "pool_ok n s \<longleftrightarrow>
     store_history mark contains (with_clock n) (shared s) (time_ns s) (map snd (marks s))
     \<and> (\<forall>i th. running s i = Some th \<longrightarrow> thread_ok s i th)"

text \<open>Later pools: time, the marks and the readings only grow.\<close>

definition later :: "pool \<Rightarrow> pool \<Rightarrow> bool" where
  "later s s' \<longleftrightarrow> time_ns s \<le> time_ns s' \<and> set (marks s) \<subseteq> set (marks s') \<and> set (readings s) \<subseteq> set (readings s')"

lemma true_answer_later: "true_answer s i t c a \<Longrightarrow> later s s' \<Longrightarrow> true_answer s' i t c a"
  by (cases c) (auto simp: true_answer_def later_def)

lemma thread_ok_later: "thread_ok s i th \<Longrightarrow> later s s' \<Longrightarrow> thread_ok s' i th"
  unfolding thread_ok_def using true_answer_later by (fastforce simp: later_def)

lemma respond_ok:
  assumes "respond i c offered s = (a, s')"
  shows "later s s'" "time_ns s' = time_ns s" "running s' = running s" "true_answer s' i (time_ns s) c a"
    and "store_history mark contains (with_clock n) (shared s) (time_ns s) (map snd (marks s))
      \<Longrightarrow> store_history mark contains (with_clock n) (shared s') (time_ns s') (map snd (marks s'))"
  using assms
  by (auto simp: respond_def later_def true_answer_def split: call.splits prod.splits intro: store_history.mark_call)

lemma thread_ok_snoc:
  assumes "thread_ok s i th" "respond i c offered s = (a, s')"
  shows "thread_ok s' i (th\<lparr>said := said th @ [(time_ns s, c, a)]\<rparr>)"
proof -
  have "thread_ok s' i th" using thread_ok_later [OF assms(1) respond_ok(1) [OF assms(2)]] .
  then show ?thesis
    using respond_ok(2,4) [OF assms(2)] unfolding thread_ok_def
    by (auto simp: sorted_append)
qed

text \<open>A turn of a verification that waits for a call, and one that changes nothing.\<close>

lemma advance_cases:
  obtains (call) th c a s' where "running s i = Some th" "waiting_for cfg E U th = Some c"
      "respond i c offered s = (a, s')"
      "take_turn cfg E U (Advance i offered) s =
         s'\<lparr>running := (running s)(i \<mapsto> th\<lparr>said := said th @ [(time_ns s, c, a)]\<rparr>)\<rparr>"
  | (idle) "take_turn cfg E U (Advance i offered) s = s"
proof (cases "\<exists>th c. running s i = Some th \<and> waiting_for cfg E U th = Some c")
  case True
  then obtain th c where th: "running s i = Some th" "waiting_for cfg E U th = Some c" by blast
  obtain a s' where r: "respond i c offered s = (a, s')" by fastforce
  show thesis using call [OF th r] th r respond_ok(3) [OF r] by simp
next
  case False
  then show thesis using idle by (auto split: option.split)
qed

lemma take_turn_ok:
  assumes "pool_ok n s"
  shows "pool_ok n (take_turn cfg E U x s)"
proof (cases x)
  case (Pass d)
  have "later s (s\<lparr>time_ns := time_ns s + d, system_ns := system_ns s + int d\<rparr>)" by (simp add: later_def)
  from thread_ok_later [OF _ this] show ?thesis
    using assms Pass by (auto simp: pool_ok_def intro: store_history.tick)
next
  case (Set_by z)
  have "later s (s\<lparr>system_ns := system_ns s + z\<rparr>)" by (simp add: later_def)
  from thread_ok_later [OF _ this] show ?thesis
    using assms Set_by by (auto simp: pool_ok_def)
next
  case (Begin i req)
  have "later s (s\<lparr>running := r\<rparr>)" for r by (simp add: later_def)
  from thread_ok_later [OF _ this] show ?thesis
    using assms Begin by (auto simp: pool_ok_def) (auto simp: thread_ok_def)
next
  case (Advance i offered)
  show ?thesis unfolding Advance
  proof (cases rule: advance_cases [of s i cfg E U offered])
    case (call th c a s')
    let ?th = "th\<lparr>said := said th @ [(time_ns s, c, a)]\<rparr>"
    note r = call(3)
    have keep: "later s' (s'\<lparr>running := q\<rparr>)" for q by (simp add: later_def)
    have "thread_ok (s'\<lparr>running := q\<rparr>) i ?th" for q
      using assms call(1) thread_ok_snoc [OF _ r] thread_ok_later [OF _ keep] by (auto simp: pool_ok_def)
    moreover have "thread_ok (s'\<lparr>running := q\<rparr>) j th'" if "running s j = Some th'" for j th' q
      using assms that thread_ok_later [OF thread_ok_later [OF _ respond_ok(1) [OF r]] keep]
      by (auto simp: pool_ok_def)
    ultimately show "pool_ok n (take_turn cfg E U (Advance i offered) s)"
      unfolding call(4) using assms respond_ok(5) [OF r] by (auto simp: pool_ok_def)
  next
    case idle
    then show "pool_ok n (take_turn cfg E U (Advance i offered) s)" using assms by (simp only:)
  qed
qed

lemma run_pool_ok: "pool_ok n (run_pool cfg E U schedule (fresh_pool t z n))"
proof -
  have "pool_ok n s \<Longrightarrow> pool_ok n (fold (take_turn cfg E U) schedule s)" for s
    by (induction schedule arbitrary: s) (auto intro: take_turn_ok)
  moreover have "pool_ok n (fresh_pool t z n)"
    by (simp add: pool_ok_def fresh_pool_def store_history.start)
  ultimately show ?thesis by (simp add: run_pool_def)
qed

text \<open>A schedule that never sets the system clock back: every reading is behind the clock of now by at least
  the time that has passed since, and so is every reading behind each later one.\<close>

fun forward_turn :: "turn \<Rightarrow> bool" where
  "forward_turn (Set_by z) = (0 \<le> z)"
| "forward_turn _ = True"

definition paced :: "pool \<Rightarrow> bool" where
  "paced s \<longleftrightarrow> 0 \<le> system_ns s
     \<and> (\<forall>(t, y) \<in> set (readings s). t \<le> time_ns s \<and> 0 \<le> y \<and> y - int t \<le> system_ns s - int (time_ns s))
     \<and> (\<forall>(t, y) \<in> set (readings s). \<forall>(u, z) \<in> set (readings s). t < u \<longrightarrow> y - int t \<le> z - int u)"

lemma pacedD:
  assumes "paced s" "(t, y) \<in> set (readings s)"
  shows "t \<le> time_ns s" "0 \<le> y" "y - int t \<le> system_ns s - int (time_ns s)"
    and "(u, z) \<in> set (readings s) \<Longrightarrow> t < u \<Longrightarrow> y - int t \<le> z - int u"
  using assms unfolding paced_def by fast+

lemma paced_later:
  assumes "paced s" "readings s' = readings s" "time_ns s \<le> time_ns s'"
    and "system_ns s - int (time_ns s) \<le> system_ns s' - int (time_ns s')"
  shows "paced s'"
proof -
  have "0 \<le> system_ns s" using assms(1) by (simp add: paced_def)
  then have "0 \<le> system_ns s'" using assms(3,4) by linarith
  moreover have "t \<le> time_ns s'" "0 \<le> y" "y - int t \<le> system_ns s' - int (time_ns s')"
    if "(t, y) \<in> set (readings s)" for t y
    using pacedD(1-3) [OF assms(1) that] assms(3,4) by linarith+
  ultimately show ?thesis
    using pacedD(4) [OF assms(1)] unfolding paced_def assms(2) by fast
qed

lemma paced_read:
  assumes "paced s"
  shows "paced (s\<lparr>readings := (time_ns s, system_ns s) # readings s\<rparr>)"
proof -
  have "0 \<le> system_ns s" using assms by (simp add: paced_def)
  moreover have "\<not> time_ns s < t" if "(t, y) \<in> set (readings s)" for t y
    using pacedD(1) [OF assms that] by simp
  ultimately show ?thesis
    using pacedD [OF assms] by (auto simp: paced_def)
qed

lemma respond_paced:
  assumes "respond i c offered s = (a, s')" "paced s"
  shows "paced s'"
proof (cases "c = Ask_clock")
  case True
  then show ?thesis using assms paced_read by (auto simp: respond_def)
next
  case False
  then have "readings s' = readings s" "time_ns s' = time_ns s" "system_ns s' = system_ns s"
    using assms(1) by (auto simp: respond_def split: call.splits prod.splits)
  then show ?thesis using paced_later [OF assms(2)] by simp
qed

lemma take_turn_paced:
  assumes "forward_turn x" "paced s"
  shows "paced (take_turn cfg E U x s)"
proof (cases x)
  case (Advance i offered)
  show ?thesis unfolding Advance
  proof (cases rule: advance_cases [of s i cfg E U offered])
    case (call th c a s')
    then show "paced (take_turn cfg E U (Advance i offered) s)"
      unfolding call(4) using respond_paced [OF call(3) assms(2)] by (simp add: paced_def)
  next
    case idle
    then show "paced (take_turn cfg E U (Advance i offered) s)" using assms(2) by (simp only:)
  qed
qed (use assms(1) in \<open>auto intro: paced_later [OF assms(2)]\<close>)

lemma run_pool_paced:
  assumes "list_all forward_turn schedule" "0 \<le> z"
  shows "paced (run_pool cfg E U schedule (fresh_pool t z n))"
proof -
  have "paced s \<Longrightarrow> paced (fold (take_turn cfg E U) schedule s)" for s
    using assms(1) by (induction schedule arbitrary: s) (auto intro: take_turn_paced)
  then show ?thesis using assms(2) by (simp add: run_pool_def paced_def fresh_pool_def)
qed

subsection \<open>The calls of an accepted verification\<close>

lemma taped_answers:
  "v_jwks (taped cfg E U) iss w = (Ok keys, w') \<Longrightarrow>
     asks w = None \<and> asks w' = None \<and> heard w = (Ask_keys iss, Keys (Ok keys)) # heard w'"
  "v_mark (taped cfg E U) jti ttl w = (Ok m, w') \<Longrightarrow>
     asks w = None \<and> asks w' = None \<and> heard w = (Ask_mark jti ttl, Marked (Ok m)) # heard w'"
  by (auto simp: taped_def ask_def split: if_splits list.splits answer.splits)

lemma taped_clock_answer:
  assumes "now_secs (taped cfg E U) w = (Ok now, w')" "asks w' = None"
  shows "asks w = None \<and> (\<exists>a. heard w = (Ask_clock, a) # heard w'
    \<and> (\<forall>t. a = Clock (Some t) \<longrightarrow> now = wrap_i64 (int t)))"
  using assms
  by (auto simp: now_secs_def taped_def ask_def split: if_splits list.splits answer.splits option.splits)

lemma accepted_tape:
  assumes "sane_tolerance (clock_tolerance_secs cfg)" "replay_fail_closed cfg"
    and "answered cfg E U req T = Some (Ok tok)" "tok_cnf_jkt tok \<noteq> None" "dpop req = Some p"
  obtains iss keys a0 a now jti iat rest where
    "T = (Ask_keys iss, Keys (Ok keys)) # (Ask_clock, a0) # (Ask_clock, a)
       # (Ask_mark jti (proof_window (clock_tolerance_secs cfg)), Marked (Ok New)) # rest"
    "proof_iat E p = Some iat" "in_i64 iat" "proof_jti E p = Some jti"
    "\<forall>t. a = Clock (Some t) \<longrightarrow> now = wrap_i64 (int t)"
    "check_freshness (overflow_checks E) now iat (clock_tolerance_secs cfg) = Ok ()"
proof -
  let ?V = "taped cfg E U"
  obtain w' where v: "verify ?V req \<lparr>heard = T, asks = None\<rparr> = (Ok tok, w')" and w': "asks w' = None"
    using assms(3) by (auto simp: answered_def next_call_def run_def split: if_splits)
      (metis prod.collapse)
  obtain iss keys wk now0 wt now w1 jti w2 web_id iat where *:
      "v_jwks ?V iss \<lparr>heard = T, asks = None\<rparr> = (Ok keys, wk)"
      "now_secs ?V wk = (Ok now0, wt)" "now_secs ?V wt = (Ok now, w1)"
      "proof_iat E p = Some iat" "in_i64 iat"
      "check_freshness (overflow_checks E) now iat (clock_tolerance_secs cfg) = Ok ()"
      "proof_jti E p = Some jti"
      "v_mark ?V jti (proof_window (clock_tolerance_secs cfg)) w1 = (Ok New, w2)"
    using key_bound_acceptance [of ?V, OF _ _ v assms(4,5)] assms(1,2)
    by (metis taped_fields taped_config_fields(6,10))
  note k = taped_answers(1) [OF *(1)] and m = taped_answers(2) [OF *(8)]
  have "asks w1 = None" using m by simp
  from taped_clock_answer [OF *(3) this] obtain a where
    a: "asks wt = None" "heard wt = (Ask_clock, a) # heard w1" "\<forall>t. a = Clock (Some t) \<longrightarrow> now = wrap_i64 (int t)"
    by blast
  from taped_clock_answer [OF *(2) a(1)] obtain a0 where "heard wk = (Ask_clock, a0) # heard wt" by blast
  then have "T = (Ask_keys iss, Keys (Ok keys)) # (Ask_clock, a0) # (Ask_clock, a)
      # (Ask_mark jti (proof_window (clock_tolerance_secs cfg)), Marked (Ok New)) # heard w2"
    using k m a(2) by simp
  then show thesis using that * a(3) by blast
qed

text \<open>In a pool: the instant of the freshness check and the instant of the mark.\<close>

definition finished :: "thread \<Rightarrow> nat" where
  "finished th = fst (last (said th))"

lemma accepted_thread:
  assumes "sane_tolerance (clock_tolerance_secs cfg)" "replay_fail_closed cfg" and ok: "thread_ok s i th"
    and "result_of cfg E U th = Some (Ok tok)" "tok_cnf_jkt tok \<noteq> None" "dpop (request th) = Some p"
  obtains c z m jti iat where "proof_iat E p = Some iat" "proof_jti E p = Some jti"
    "(c, z) \<in> set (readings s)"
    "sane_wall z \<longrightarrow> accepted_as_fresh (clock_tolerance_secs cfg) iat (secs_of z)"
    "began th \<le> c" "c \<le> m" "m \<le> finished th"
    "(i, m, jti, proof_window (clock_tolerance_secs cfg), Ok New) \<in> set (marks s)"
proof -
  let ?W = "proof_window (clock_tolerance_secs cfg)"
  from accepted_tape [OF assms(1,2) assms(4) [unfolded result_of_def] assms(5,6)]
  obtain iss keys a0 a now jti iat rest where
    T: "map snd (said th) = (Ask_keys iss, Keys (Ok keys)) # (Ask_clock, a0) # (Ask_clock, a)
       # (Ask_mark jti ?W, Marked (Ok New)) # rest"
    and p: "proof_iat E p = Some iat" "in_i64 iat" "proof_jti E p = Some jti"
    and now: "\<forall>t. a = Clock (Some t) \<longrightarrow> now = wrap_i64 (int t)"
    and f: "check_freshness (overflow_checks E) now iat (clock_tolerance_secs cfg) = Ok ()" .
  from T obtain e1 e2 c m l where
    l: "said th = e1 # e2 # (c, Ask_clock, a) # (m, Ask_mark jti ?W, Marked (Ok New)) # l"
    by (auto simp: map_eq_Cons_conv)
  have said: "began th \<le> t \<and> true_answer s i t q b" if "(t, q, b) \<in> set (said th)" for t q b
    using ok that unfolding thread_ok_def by blast
  from said [of c Ask_clock a] obtain z where z: "a = Clock (clock_shows z)" "(c, z) \<in> set (readings s)"
    and c: "began th \<le> c"
    using l by (auto simp: true_answer_def)
  have mk: "(i, m, jti, ?W, Ok New) \<in> set (marks s)"
    using said [of m "Ask_mark jti ?W"] l by (auto simp: true_answer_def)
  have "c \<le> m" using ok l by (simp add: thread_ok_def)
  have fin: "m \<le> finished th" using ok l by (auto simp: thread_ok_def finished_def)
  have "accepted_as_fresh (clock_tolerance_secs cfg) iat (secs_of z)" if "sane_wall z"
    using fresh_reading [OF assms(1) p(2) sane_wall_reading(2) [OF that] _ f] now z(1)
    by (simp add: sane_wall_reading(1) [OF that])
  then show thesis using that p z(2) c mk fin \<open>c \<le> m\<close> by blast
qed

subsection \<open>One proof, two verifications\<close>

text \<open>\<open>straddles W a b\<close>: \<open>b\<close> was under way when a window \<open>W\<close> opened during \<open>a\<close> ended.\<close>

definition straddles :: "nat \<Rightarrow> thread \<Rightarrow> thread \<Rightarrow> bool" where
  "straddles win a b \<longleftrightarrow>
     began a + win \<le> finished b \<and> began b < finished a + win \<and> began b < finished b"

lemma two_members:
  assumes "x \<in> set xs" "y \<in> set xs" "x \<noteq> y"
  shows "(\<exists>A B C. xs = A @ x # B @ y # C) \<or> (\<exists>A B C. xs = A @ y # B @ x # C)"
proof -
  obtain A D where xs: "xs = A @ x # D" using assms(1) by (auto dest: split_list)
  then consider "y \<in> set A" | "y \<in> set D" using assms(2,3) by auto
  then show ?thesis
  proof cases
    case 1
    then obtain A' B where "A = A' @ y # B" by (auto dest: split_list)
    then show ?thesis using xs by (intro disjI2) auto
  next
    case 2
    then obtain B C where "D = B @ y # C" by (auto dest: split_list)
    then show ?thesis using xs by (intro disjI1) auto
  qed
qed

lemma marks_apart:
  assumes "store_history mark contains s0 st now (map snd log)"
    and "(i, t, jti, ttl, Ok New) \<in> set log" "(j, t', jti, ttl, Ok New) \<in> set log" "i \<noteq> j"
  shows "t + ttl \<le> t' \<or> t' + ttl \<le> t"
proof -
  have "(\<exists>A B C. log = A @ (i, t, jti, ttl, Ok New) # B @ (j, t', jti, ttl, Ok New) # C)
      \<or> (\<exists>A B C. log = A @ (j, t', jti, ttl, Ok New) # B @ (i, t, jti, ttl, Ok New) # C)"
    using two_members [OF assms(2,3)] assms(4) by simp
  then show ?thesis
    using mem.history_New_apart [OF assms(1)] by fastforce
qed

lemma paced_readings:
  assumes "paced s" "system_ns s < 2 ^ 62 * 10 ^ 9" "(c, y) \<in> set (readings s)" "(d, z) \<in> set (readings s)"
    and "sane_wall y \<longrightarrow> accepted_as_fresh tol iat (secs_of y)" "sane_wall z \<longrightarrow> accepted_as_fresh tol iat (secs_of z)"
    and "sane_tolerance tol"
  shows "d < c + proof_window tol"
proof (cases "c < d")
  case True
  have "c \<le> time_ns s" "0 \<le> y" "y - int c \<le> system_ns s - int (time_ns s)"
       "d \<le> time_ns s" "0 \<le> z" "z - int d \<le> system_ns s - int (time_ns s)"
    using assms(1,3,4) by (auto simp: paced_def)
  then have "sane_wall y" "sane_wall z" using assms(2) by (simp_all add: sane_wall_def)
  then have "z < y + int (proof_window tol)"
    using fresh_instants assms(5-7) by blast
  moreover have "y - int c \<le> z - int d"
    using assms(1,3,4) True by (fastforce simp: paced_def)
  ultimately show ?thesis by linarith
next
  case False
  have "0 < proof_window tol" using assms(7) by (simp add: proof_window_def sane_tolerance_def)
  then show ?thesis using False by linarith
qed

text \<open>C3: Concurrent requests share a proof in vain. Let any number of requests be verified at once on one
  verifier that fails closed and one in-memory store, with any interleaving of their calls, any passage of
  time, any setting of the system clock and any answers of the key provider and the resolver. If two of them
  carry the same DPoP proof and are both accepted for key-bound tokens, then one of them ended at least a
  window after the other began: among verifications that all take place within a window, at most one accepts
  the proof. If the schedule never sets the system clock back, the window that one of them opened ended
  while the other was under way.\<close>

theorem concurrent_proof_accepted_once:
  assumes "sane_tolerance (clock_tolerance_secs cfg)" and "replay_fail_closed cfg"
    and "s = run_pool cfg E U schedule (fresh_pool t z cap_entries)"
    and "i \<noteq> j" and "running s i = Some a" and "running s j = Some b"
    and "dpop (request a) = Some p" and "dpop (request b) = Some p"
    and "result_of cfg E U a = Some (Ok tok)" and "tok_cnf_jkt tok \<noteq> None"
    and "result_of cfg E U b = Some (Ok tok')" and "tok_cnf_jkt tok' \<noteq> None"
  shows "(began a + proof_window (clock_tolerance_secs cfg) \<le> finished b
      \<or> began b + proof_window (clock_tolerance_secs cfg) \<le> finished a)
    \<and> (list_all forward_turn schedule \<and> 0 \<le> z \<and> system_ns s < 2 ^ 62 * 10 ^ 9 \<longrightarrow>
        straddles (proof_window (clock_tolerance_secs cfg)) a b
        \<or> straddles (proof_window (clock_tolerance_secs cfg)) b a)"
proof -
  let ?win = "proof_window (clock_tolerance_secs cfg)"
  have ok: "pool_ok cap_entries s" unfolding assms(3) by (rule run_pool_ok)
  then have th: "thread_ok s i a" "thread_ok s j b"
    using assms(5,6) by (simp_all add: pool_ok_def)
  from accepted_thread [OF assms(1,2) th(1) assms(9,10,7)] obtain c1 z1 m1 jti1 iat1 where
    1: "proof_iat E p = Some iat1" "proof_jti E p = Some jti1" "(c1, z1) \<in> set (readings s)"
      "sane_wall z1 \<longrightarrow> accepted_as_fresh (clock_tolerance_secs cfg) iat1 (secs_of z1)"
      "began a \<le> c1" "c1 \<le> m1" "m1 \<le> finished a" "(i, m1, jti1, ?win, Ok New) \<in> set (marks s)" .
  from accepted_thread [OF assms(1,2) th(2) assms(11,12,8)] obtain c2 z2 m2 jti2 iat2 where
    2: "proof_iat E p = Some iat2" "proof_jti E p = Some jti2" "(c2, z2) \<in> set (readings s)"
      "sane_wall z2 \<longrightarrow> accepted_as_fresh (clock_tolerance_secs cfg) iat2 (secs_of z2)"
      "began b \<le> c2" "c2 \<le> m2" "m2 \<le> finished b" "(j, m2, jti2, ?win, Ok New) \<in> set (marks s)" .
  have same: "iat2 = iat1" "jti2 = jti1" using 1(1,2) 2(1,2) by simp_all
  have apart: "m1 + ?win \<le> m2 \<or> m2 + ?win \<le> m1"
    using marks_apart [OF _ 1(8) 2(8) [unfolded same] assms(4)] ok by (auto simp: pool_ok_def)
  have "c2 < c1 + ?win \<and> c1 < c2 + ?win"
    if "list_all forward_turn schedule \<and> 0 \<le> z \<and> system_ns s < 2 ^ 62 * 10 ^ 9"
  proof -
    have p: "paced s" unfolding assms(3) using that by (intro run_pool_paced) simp_all
    then show ?thesis
      using paced_readings [OF p _ 1(3) 2(3) 1(4) 2(4) [unfolded same] assms(1)]
        paced_readings [OF p _ 2(3) 1(3) 2(4) [unfolded same] 1(4) assms(1)] that by simp
  qed
  then show ?thesis
    using apart 1(5-7) 2(5-7) unfolding straddles_def by linarith
qed

definition race_schedule :: "turn list" where
  "race_schedule =
     (let first = Advance 0 (Keys (Ok [ec_jwk ''k''])); second = Advance 1 (Keys (Ok [ec_jwk ''k''])) in
      [Begin 0 dpop_request, Begin 1 dpop_request, first, first, first, first,
       Pass (611 * 10 ^ 9 - 1), second, second, second, Pass 1, second])"

definition race_pool :: pool where
  "race_pool = run_pool race_config (sample_crates race_table) sample_url_crate race_schedule
     (fresh_pool (695 * 10 ^ 9) (695 * 10 ^ 9) 10)"


text \<open>The calls of the two verifications of the race, at the seconds 695 and 1305.\<close>

abbreviation race_next :: "(call \<times> answer) list \<Rightarrow> call option" where
  "race_next \<equiv> next_call race_config (sample_crates race_table) sample_url_crate dpop_request"

abbreviation race_keys :: "call \<times> answer" where
  "race_keys \<equiv> (Ask_keys ''https://idp'', Keys (Ok [ec_jwk ''k'']))"

abbreviation race_mark :: "call \<times> answer" where
  "race_mark \<equiv> (Ask_mark ''p1'' 611000000000, Marked (Ok New))"

lemma race_calls:
  "race_next [] = Some (Ask_keys ''https://idp'')"
  "race_next [race_keys] = Some Ask_clock"
  "race_next [race_keys, (Ask_clock, Clock (Some 695))] = Some Ask_clock"
  "race_next [race_keys, (Ask_clock, Clock (Some 1305))] = Some Ask_clock"
  "race_next [race_keys, (Ask_clock, Clock (Some 695)), (Ask_clock, Clock (Some 695))] =
     Some (Ask_mark ''p1'' 611000000000)"
  "race_next [race_keys, (Ask_clock, Clock (Some 1305)), (Ask_clock, Clock (Some 1305))] =
     Some (Ask_mark ''p1'' 611000000000)"
  by code_simp+

lemma race_answers:
  "answered race_config (sample_crates race_table) sample_url_crate dpop_request
     [race_keys, (Ask_clock, Clock (Some 695)), (Ask_clock, Clock (Some 695)), race_mark] = Some (Ok alice)"
  "answered race_config (sample_crates race_table) sample_url_crate dpop_request
     [race_keys, (Ask_clock, Clock (Some 1305)), (Ask_clock, Clock (Some 1305)), race_mark] = Some (Ok alice)"
  by code_simp+

lemma race_threads:
  "running race_pool 0 = Some \<lparr>began = 695 * 10 ^ 9, request = dpop_request,
     said = [(695 * 10 ^ 9, race_keys), (695 * 10 ^ 9, Ask_clock, Clock (Some 695)),
       (695 * 10 ^ 9, Ask_clock, Clock (Some 695)), (695 * 10 ^ 9, race_mark)]\<rparr>"
  "running race_pool 1 = Some \<lparr>began = 695 * 10 ^ 9, request = dpop_request,
     said = [(1306 * 10 ^ 9 - 1, race_keys), (1306 * 10 ^ 9 - 1, Ask_clock, Clock (Some 1305)),
       (1306 * 10 ^ 9 - 1, Ask_clock, Clock (Some 1305)), (1306 * 10 ^ 9, race_mark)]\<rparr>"
  "system_ns race_pool = 1306 * 10 ^ 9"
  by (simp_all add: Let_def race_pool_def run_pool_def race_schedule_def fresh_pool_def waiting_for_def race_calls
      respond_def clock_shows_def secs_of_def mark_def with_clock_def cap_def usize_max_def instant_max_def)

theorem concurrent_proof_accepted_once_witness:
  "\<exists>a b. running race_pool 0 = Some a \<and> running race_pool 1 = Some b
     \<and> began a + proof_window 5 \<le> finished b \<and> straddles (proof_window 5) a b"
proof -
  obtain a b where ab: "running race_pool 0 = Some a" "running race_pool 1 = Some b"
    using race_threads by blast
  have "sane_tolerance (clock_tolerance_secs race_config)" "replay_fail_closed race_config"
      "clock_tolerance_secs race_config = 5"
    by (simp_all add: race_config_def new_config_def DEFAULT_CLOCK_TOLERANCE_SECS_def sane_tolerance_def)
  moreover have "list_all forward_turn race_schedule" "system_ns race_pool < 2 ^ 62 * 10 ^ 9"
    by (simp_all add: race_schedule_def race_threads Let_def)
  moreover have "dpop (request a) = Some ''d.q.j''" "dpop (request b) = Some ''d.q.j''"
    using ab race_threads by auto
  moreover have
      "result_of race_config (sample_crates race_table) sample_url_crate a = Some (Ok alice)"
      "result_of race_config (sample_crates race_table) sample_url_crate b = Some (Ok alice)"
    using ab race_threads race_answers by (auto simp: result_of_def)
  moreover have "tok_cnf_jkt alice \<noteq> None" by (simp add: alice_bound)
  ultimately have "(began a + proof_window 5 \<le> finished b \<or> began b + proof_window 5 \<le> finished a)
      \<and> (straddles (proof_window 5) a b \<or> straddles (proof_window 5) b a)"
    using concurrent_proof_accepted_once [OF _ _ race_pool_def zero_neq_one ab, of "''d.q.j''" alice alice]
    by simp
  moreover have "\<not> straddles (proof_window 5) b a" "\<not> began b + proof_window 5 \<le> finished a"
    using ab race_threads by (auto simp: straddles_def finished_def proof_window_def)
  ultimately show ?thesis using ab by blast
qed

end
