(* ===== verification/Exactness.thy ===== *)
theory Exactness
  imports Guarantees
begin

section \<open>Exactly which requests are accepted\<close>

text \<open>
  The converses of the acceptance lemmas, up to \<open>verify\<close> itself: a request that meets the conditions is
  accepted, so the guarantees of \<open>Guarantees\<close> are not those of a verifier that refuses everything.
\<close>

lemma validate_dpop_proof_Ok_iff:
  "validate_dpop_proof V req p token jkt require_ath w = (Ok u, w') \<longleftrightarrow>
     (\<exists>c iat now. proof_valid V req p token jkt require_ath c iat \<and> now_secs V w = (Ok now, w')
        \<and> check_freshness (overflow_checks (v_crates V)) now iat (clock_tolerance_secs (v_config V)) = Ok ())"
  (is "?l \<longleftrightarrow> ?r")
proof
  assume ?r
  then obtain c iat now k where k: "verify_proof_with_embedded_jwk (v_crates V) p ''dpop+jwt'' = Ok (c, k)"
      "thumbprint_sha256 (v_crates V) k = Ok jkt"
    and htm: "eq_ignore_ascii_case (case str_claim c ''htm'' of Some s \<Rightarrow> s | None \<Rightarrow> []) (req_method req)"
    and htu: "\<exists>h. str_claim c ''htu'' = Some h
        \<and> normalize_htu (v_urls V) h = normalize_htu (v_urls V) (req_url req)"
    and jti: "nonempty_claim c ''jti''" and iat: "i64_claim c ''iat'' = Some iat"
    and ath: "check_ath (v_crates V) c token require_ath = Ok ()"
    and now: "now_secs V w = (Ok now, w')"
    and fresh: "check_freshness (overflow_checks (v_crates V)) now iat (clock_tolerance_secs (v_config V)) = Ok ()"
    by (auto simp: proof_valid_def check_ath_Ok_iff)
  have "case str_claim c ''htu'' of
      Some h \<Rightarrow> normalize_htu (v_urls V) h = normalize_htu (v_urls V) (req_url req) | None \<Rightarrow> False"
    "case str_claim c ''jti'' of Some s \<Rightarrow> s \<noteq> [] | None \<Rightarrow> False"
    using htu jti by (auto simp: nonempty_claim_def)
  then show ?l
    unfolding validate_dpop_proof_def Let_def
    by (simp add: k htm iat ath fresh io_bind_step(1) now)
qed (rule validate_dpop_proof_Ok)

lemma proof_step_iff:
  "io_bind (lift (ok_or (dpop req) e)) (\<lambda>p. io_bind (lift (ok_or j e')) (\<lambda>jkt.
      validate_dpop_proof V req p token jkt
        (\<not> (allow_missing_ath (v_config V) \<and> \<not> proof_has_ath (v_crates V) p)))) w = (Ok (), w')
   \<longleftrightarrow> (\<exists>jkt. j = Some jkt \<and> proof_given V req token jkt w w')"
  by (simp add: outcome_simps proof_given_def validate_dpop_proof_Ok_iff) blast

lemma validate_token_Ok_iff:
  "validate_token V req token issuer dpop_scheme w = (Ok c, w') \<longleftrightarrow>
    (\<exists>w1. validate_access_token V token issuer w = (Ok c, w1)
    \<and> extract_cnf_x5t_s256 (v_crates V) c \<noteq> Some Malformed
    \<and> (if must_dpop V c dpop_scheme
       then \<exists>jkt. extract_cnf_jkt c = Some jkt \<and> proof_given V req token jkt w1 w' else w' = w1)
    \<and> (\<forall>t. extract_cnf_x5t_s256 (v_crates V) c = Some (Thumbprint t) \<longrightarrow> client_cert_x5t_s256 req = Some t))"
  (is "?l \<longleftrightarrow> ?r")
proof
  assume ?r
  let ?x5t = "extract_cnf_x5t_s256 (v_crates V) c"
  let ?cert = "case ?x5t of Some (Thumbprint t) \<Rightarrow> Some t | _ \<Rightarrow> None"
  from \<open>?r\<close> obtain w1 where a: "validate_access_token V token issuer w = (Ok c, w1)"
    and m: "?x5t \<noteq> Some Malformed"
    and pop: "if must_dpop V c dpop_scheme
       then \<exists>jkt. extract_cnf_jkt c = Some jkt \<and> proof_given V req token jkt w1 w' else w' = w1"
    and cert: "\<forall>t. ?x5t = Some (Thumbprint t) \<longrightarrow> client_cert_x5t_s256 req = Some t"
    by blast
  have bound: "?cert \<noteq> None \<longleftrightarrow> (\<exists>t. ?x5t = Some (Thumbprint t))"
    by (auto split: option.splits x5t_s256.splits)
  have must: "(extract_cnf_jkt c \<noteq> None \<or> dpop_scheme \<or> require_dpop (v_config V) \<and> \<not> ?cert \<noteq> None)
      = must_dpop V c dpop_scheme"
    unfolding must_dpop_def bound by blast
  have c: "(case ?cert of Some e \<Rightarrow> validate_cert_binding req e | None \<Rightarrow> Ok ()) = Ok ()"
    using cert by (auto simp: validate_cert_binding_Ok_iff split: option.split x5t_s256.split)
  have pop': "(if extract_cnf_jkt c \<noteq> None \<or> dpop_scheme \<or> require_dpop (v_config V) \<and> \<not> ?cert \<noteq> None
      then io_bind (lift (ok_or (dpop req)
              (invalid_token_dpop ''DPoP proof is required (no DPoP HTTP Header).''))) (\<lambda>p.
            io_bind (lift (ok_or (extract_cnf_jkt c) (invalid_token_dpop
              ''Access token is not DPoP-bound (no cnf.jkt confirmation claim).''))) (\<lambda>jkt.
            validate_dpop_proof V req p token jkt
              (\<not> (allow_missing_ath (v_config V) \<and> \<not> proof_has_ath (v_crates V) p))))
      else lift (Ok ())) w1 = (Ok (), w')"
    unfolding must using pop
    by (cases "must_dpop V c dpop_scheme") (simp_all only: proof_step_iff if_True if_False lift_apply)
  have step: "io_bind P (\<lambda>_. io_bind (lift C) (\<lambda>_. lift (Ok c))) w1 = (Ok c, w')"
    if "P w1 = (Ok (), w')" "C = Ok ()" for P and C :: "(verify_error, unit) outcome"
    using that by (simp add: io_bind_step(1))
  show ?l
    unfolding validate_token_def Let_def io_bind_iffs(1) [of "validate_access_token V token issuer"]
    by (intro exI conjI, rule a, subst if_not_P [OF m], rule step, rule pop', rule c)
qed (rule validate_token_Ok)

text \<open>The conditions of an acceptance, with the worlds between the calls.\<close>

definition accepts ::
  "('w, 'k, 'p, 's, 'u) verifier \<Rightarrow> auth_request \<Rightarrow> 'w \<Rightarrow> verified_token \<Rightarrow> 'w \<Rightarrow> bool" where
  "accepts V req w tok w' \<longleftrightarrow> (\<exists>scheme token iss keys wk now c web_id wt w1 w2.
     parse_authorization (v_crates V) (authorization req) = Some (scheme, token)
     \<and> check_scheme V scheme token = Ok () \<and> peek_issuer (v_crates V) token = Ok iss
     \<and> iss \<in> set (trusted_issuers (v_config V))
     \<and> v_jwks V iss w = (Ok keys, wk) \<and> token_valid V token iss keys c
     \<and> now_secs V wk = (Ok now, wt)
     \<and> check_temporal_at (overflow_checks (v_crates V)) now
         (wrap_i64 (clock_tolerance_secs (v_config V))) c = Ok ()
     \<and> extract_cnf_x5t_s256 (v_crates V) c \<noteq> Some Malformed
     \<and> (if must_dpop V c (scheme = ''dpop'')
        then \<exists>jkt. extract_cnf_jkt c = Some jkt \<and> proof_given V req token jkt wt w1 else w1 = wt)
     \<and> (\<forall>t. extract_cnf_x5t_s256 (v_crates V) c = Some (Thumbprint t) \<longrightarrow> client_cert_x5t_s256 req = Some t)
     \<and> extract_webid V c = Ok web_id \<and> check_authorized_party V c = Ok ()
     \<and> (case dpop req of Some p \<Rightarrow> check_replay V p w1 = (Ok (), w2) | None \<Rightarrow> w2 = w1)
     \<and> check_bidirectional V web_id iss w2 = (Ok (), w')
     \<and> tok = credentials (v_crates V) c web_id iss)"

lemma acceptsI:
  assumes "parse_authorization (v_crates V) (authorization req) = Some (scheme, token)"
    "check_scheme V scheme token = Ok ()" "peek_issuer (v_crates V) token = Ok iss"
    "iss \<in> set (trusted_issuers (v_config V))"
    "v_jwks V iss w = (Ok keys, wk)" "token_valid V token iss keys c" "now_secs V wk = (Ok now, wt)"
    "check_temporal_at (overflow_checks (v_crates V)) now
       (wrap_i64 (clock_tolerance_secs (v_config V))) c = Ok ()"
    "extract_cnf_x5t_s256 (v_crates V) c \<noteq> Some Malformed"
    "if must_dpop V c (scheme = ''dpop'')
     then \<exists>jkt. extract_cnf_jkt c = Some jkt \<and> proof_given V req token jkt wt w1 else w1 = wt"
    "\<forall>t. extract_cnf_x5t_s256 (v_crates V) c = Some (Thumbprint t) \<longrightarrow> client_cert_x5t_s256 req = Some t"
    "extract_webid V c = Ok web_id" "check_authorized_party V c = Ok ()"
    "case dpop req of Some p \<Rightarrow> check_replay V p w1 = (Ok (), w2) | None \<Rightarrow> w2 = w1"
    "check_bidirectional V web_id iss w2 = (Ok (), w')"
  shows "accepts V req w (credentials (v_crates V) c web_id iss) w'"
  unfolding accepts_def using assms by (intro exI conjI) (assumption | rule refl)+

lemma accepts_verify:
  assumes "accepts V req w tok w'"
  shows "verify V req w = (Ok tok, w') \<and> \<not> is_public tok"
proof -
  from assms obtain scheme token iss keys wk now c web_id wt w1 w2 where
    p: "parse_authorization (v_crates V) (authorization req) = Some (scheme, token)"
      "check_scheme V scheme token = Ok ()" "peek_issuer (v_crates V) token = Ok iss"
      "iss \<in> set (trusted_issuers (v_config V))"
    and t: "v_jwks V iss w = (Ok keys, wk)" "token_valid V token iss keys c" "now_secs V wk = (Ok now, wt)"
      "check_temporal_at (overflow_checks (v_crates V)) now
         (wrap_i64 (clock_tolerance_secs (v_config V))) c = Ok ()"
    and b: "extract_cnf_x5t_s256 (v_crates V) c \<noteq> Some Malformed"
      "if must_dpop V c (scheme = ''dpop'')
       then \<exists>jkt. extract_cnf_jkt c = Some jkt \<and> proof_given V req token jkt wt w1 else w1 = wt"
      "\<forall>t. extract_cnf_x5t_s256 (v_crates V) c = Some (Thumbprint t) \<longrightarrow> client_cert_x5t_s256 req = Some t"
    and w: "extract_webid V c = Ok web_id" "check_authorized_party V c = Ok ()"
    and r: "case dpop req of Some p \<Rightarrow> check_replay V p w1 = (Ok (), w2) | None \<Rightarrow> w2 = w1"
    and i: "check_bidirectional V web_id iss w2 = (Ok (), w')"
    and tok: "tok = credentials (v_crates V) c web_id iss"
    unfolding accepts_def by blast
  have a: "validate_access_token V token iss w = (Ok c, wt)"
    using t unfolding validate_access_token_Ok_iff by blast
  have v: "validate_token V req token iss (scheme = ''dpop'') w = (Ok c, w1)"
    using a b unfolding validate_token_Ok_iff by blast
  have iss: "str_claim c ''iss'' = Some iss" using t(2) by (simp add: token_valid_def)
  have r': "(case dpop req of Some p \<Rightarrow> check_replay V p | None \<Rightarrow> lift (Ok ())) w1 = (Ok (), w2)"
    using r by (cases "dpop req") auto
  show ?thesis
    unfolding verify_def Let_def p(1)
    by (simp add: p(2-4) io_bind_step(1) v w iss r' i tok)
qed

lemma verify_accepts:
  assumes "verify V req w = (Ok tok, w')" "\<not> is_public tok"
  shows "accepts V req w tok w'"
proof -
  have "tok \<noteq> public_token" using assms(2) by (auto simp: is_public_def public_token_def)
  then obtain scheme token iss c web_id w1 w2 where *:
      "parse_authorization (v_crates V) (authorization req) = Some (scheme, token)"
      "check_scheme V scheme token = Ok ()" "peek_issuer (v_crates V) token = Ok iss"
      "iss \<in> set (trusted_issuers (v_config V))"
      "validate_token V req token iss (scheme = ''dpop'') w = (Ok c, w1)"
      "extract_webid V c = Ok web_id" "check_authorized_party V c = Ok ()"
      "case dpop req of Some p \<Rightarrow> check_replay V p w1 = (Ok (), w2) | None \<Rightarrow> w2 = w1"
      "check_bidirectional V web_id iss w2 = (Ok (), w')"
      "tok = credentials (v_crates V) c web_id iss"
    using verify_Ok [OF assms(1)] by blast
  then show ?thesis
    unfolding accepts_def validate_token_Ok_iff validate_access_token_Ok_iff by blast
qed

text \<open>C5: Exactly which requests are accepted, and as whom. A request is answered with an agent's
  credentials if and only if: the scheme gate passes; the unverified issuer is trusted; the keys the
  provider returns for it verify the token, whose claims and times are valid; the certificate binding is
  not malformed and, if there is one, met by the connection; where a proof is due, a valid and fresh one
  for the token's key came along; the WebID and the authorized party are acceptable; the replay check of
  the request's proof, if it has one, passes; and so does the issuer check. The credentials are those of
  the verified claims, and the world is that of these calls in this order.\<close>

theorem accepted_iff:
  "(verify V req w = (Ok tok, w') \<and> \<not> is_public tok) = accepts V req w tok w'"
proof
  assume "verify V req w = (Ok tok, w') \<and> \<not> is_public tok"
  then show "accepts V req w tok w'" by (elim conjE) (rule verify_accepts)
next
  assume "accepts V req w tok w'"
  then show "verify V req w = (Ok tok, w') \<and> \<not> is_public tok" by (rule accepts_verify)
qed

text \<open>
  A complete request under the DPoP scheme meets the conditions: this is what an honest client does.
\<close>

lemma pair_fresh:
  assumes "sane_time now" "sane_tolerance tol" "in_i64 iat" "fresh_at now tol iat"
  shows "check_freshness oc now iat tol = Ok ()"
  using freshness_Ok_iff [OF assms(1-3)] assms(4) by blast

lemma new_mark:
  assumes "peek_claims (v_crates V) p = Some pc" "str_claim pc ''jti'' = Some jti" "jti \<noteq> []"
    and "replay_ttl (overflow_checks (v_crates V)) (v_config V) = Ok ttl" "v_mark V jti ttl w = (Ok New, w')"
  shows "check_replay V p w = (Ok (), w')"
  using assms by (simp add: check_replay_def)

text \<open>C21: An honest client is served. A request under the DPoP scheme is accepted, with the credentials
  of its token, when: the token verifies under the keys of its trusted issuer, names a key, has valid
  times by the clock and an \<open>iat\<close> that is not negative; a certificate it names is the connection's; the
  proof is valid for this request, the token and the key (with an \<open>ath\<close> unless the configuration lets it
  be absent), fresh by the clock, and its \<open>jti\<close> is new to the store; the WebID and the authorized party
  are acceptable; and the issuer check is off, or the resolver gives a profile of the WebID that lists the
  issuer. Nothing else of the request or the world matters.\<close>

theorem honest_client_accepted:
  assumes "sane_clock V" and "sane_tolerance (clock_tolerance_secs (v_config V))"
    and "parse_authorization (v_crates V) (authorization req) = Some (''dpop'', token)"
    and "peek_issuer (v_crates V) token = Ok iss" and "iss \<in> set (trusted_issuers (v_config V))"
    and "v_jwks V iss w = (Ok keys, w1)" and "token_valid V token iss keys c"
    and "now_secs V w1 = (Ok now, w2)" and "valid_at now (clock_tolerance_secs (v_config V)) c"
    and "\<And>i. i64_claim c ''iat'' = Some i \<Longrightarrow> 0 \<le> i" and "extract_cnf_jkt c = Some jkt"
    and "\<And>b. extract_cnf_x5t_s256 (v_crates V) c = Some b
      \<Longrightarrow> \<exists>t. b = Thumbprint t \<and> client_cert_x5t_s256 req = Some t"
    and "dpop req = Some p" and "proof_valid V req p token jkt
      (\<not> (allow_missing_ath (v_config V) \<and> \<not> proof_has_ath (v_crates V) p)) pc iat"
    and "now_secs V w2 = (Ok now', w3)" and "fresh_at now' (clock_tolerance_secs (v_config V)) iat"
    and "extract_webid V c = Ok web_id" and "check_authorized_party V c = Ok ()"
    and "peek_claims (v_crates V) p = Some pc" and "str_claim pc ''jti'' = Some jti"
    and "v_mark V jti (nat (2 * (300 + clock_tolerance_secs (v_config V)) + 1) * 10 ^ 9) w3 = (Ok New, w4)"
    and "if bidirectional_mode (v_config V) = Off then w5 = w4
      else \<exists>resolver profile. webid_resolver (v_config V) = Some resolver
        \<and> resolver web_id w4 = (Ok profile, w5) \<and> iss \<in> issuers profile"
  shows "verify V req w = (Ok (credentials (v_crates V) c web_id iss), w5)"
proof -
  have temporal: "check_temporal_at (overflow_checks (v_crates V)) now
      (wrap_i64 (clock_tolerance_secs (v_config V))) c = Ok ()"
    using assms(2,9,10) temporal_Ok_iff [OF now_sane [OF assms(1,8)] assms(2)] tolerance_fits [OF assms(2)]
    by (fastforce simp: sane_tolerance_def split: option.split)
  have iat: "i64_claim pc ''iat'' = Some iat" using assms(14) by (simp add: proof_valid_def)
  have given: "proof_given V req token jkt w2 w3"
    unfolding proof_given_def
    using assms(13-15) pair_fresh [OF now_sane [OF assms(1,15)] assms(2) i64_claim_range [OF iat] assms(16)]
    by blast
  have jti: "jti \<noteq> []" using assms(14,20) by (auto simp: proof_valid_def nonempty_claim_def)
  have replay: "check_replay V p w3 = (Ok (), w4)"
    by (rule new_mark [OF assms(19,20) jti replay_ttl_exact [OF assms(2)] assms(21)])
  have "accepts V req w (credentials (v_crates V) c web_id iss) w5"
    using assms(3) _ assms(4-8) temporal
  proof (rule acceptsI)
    show "check_scheme V ''dpop'' token = Ok ()" by (simp add: check_scheme_def)
    show "if must_dpop V c (''dpop'' = ''dpop'')
        then \<exists>jkt. extract_cnf_jkt c = Some jkt \<and> proof_given V req token jkt w2 w3 else w3 = w2"
      using given assms(11) by (simp add: must_dpop_def)
    show "extract_cnf_x5t_s256 (v_crates V) c \<noteq> Some Malformed" using assms(12) by fastforce
    show "\<forall>t. extract_cnf_x5t_s256 (v_crates V) c = Some (Thumbprint t) \<longrightarrow> client_cert_x5t_s256 req = Some t"
      using assms(12) by fastforce
    show "check_bidirectional V web_id iss w4 = (Ok (), w5)"
      using assms(22) by (auto simp: check_bidirectional_def Let_def split: if_splits)
  qed (simp_all add: assms(13,17,18) replay)
  then show ?thesis by (rule accepts_verify [THEN conjunct1])
qed

definition plain_verifier :: "(nat, string, string, string, sample_url) verifier" where
  "plain_verifier = sample_verifier\<lparr>v_config := new_config [''https://idp''] ''https://rs''\<rparr>"

definition alice_claims :: claims where
  "alice_claims = token_claims ''https://idp'' (VObject [(''jkt'', VString proof_jkt)])"

lemma plain_parts [simp]:
  "v_crates plain_verifier = sample_crates verifier_table" "v_urls plain_verifier = sample_url_crate"
  "trusted_issuers (v_config plain_verifier) = [''https://idp'']"
  "clock_tolerance_secs (v_config plain_verifier) = 5" "bidirectional_mode (v_config plain_verifier) = Off"
  "now_secs plain_verifier w = (Ok 1000, w)" "v_mark plain_verifier j ttl w = (Ok New, Suc w)"
  "v_jwks plain_verifier ''https://idp'' w = (Ok [ec_jwk ''k''], w)" "sane_clock plain_verifier"
  by (simp_all add: plain_verifier_def sample_verifier_def new_config_def DEFAULT_CLOCK_TOLERANCE_SECS_def
      now_secs_def wrap_i64_def static_keys_for_def with_issuer_def new_static_def sane_clock_def)

lemma alice_steps:
  "peek_issuer (sample_crates verifier_table) ''h.p.k'' = Ok ''https://idp''"
  "token_valid plain_verifier ''h.p.k'' ''https://idp'' [ec_jwk ''k''] alice_claims"
  "valid_at 1000 5 alice_claims" "extract_cnf_jkt alice_claims = Some proof_jkt"
  "extract_cnf_x5t_s256 (sample_crates verifier_table) alice_claims = None"
  "extract_webid plain_verifier alice_claims = Ok ''https://alice.example/card#me''"
  "check_authorized_party plain_verifier alice_claims = Ok ()"
  "i64_claim alice_claims ''iat'' = Some 900"
  "credentials (sample_crates verifier_table) alice_claims ''https://alice.example/card#me'' ''https://idp'' = alice"
  by code_simp+

lemma alice_proof:
  "verify_proof_with_embedded_jwk (sample_crates verifier_table) ''d.q.j'' ''dpop+jwt''
     = Ok (proof_claims (VNumber (PosInt 1000)), ec_jwk ''j'')"
  "thumbprint_sha256 (sample_crates verifier_table) (ec_jwk ''j'') = Ok proof_jkt"
  "eq_ignore_ascii_case ''GET'' (req_method dpop_request)"
  "str_claim (proof_claims v) ''htm'' = Some ''GET''"
  "str_claim (proof_claims v) ''htu'' = Some ''https://rs/r?q=1''"
  "str_claim (proof_claims v) ''ath'' = Some ''h.p.k''" "str_claim (proof_claims v) ''jti'' = Some ''p1''"
  "normalize_htu sample_url_crate ''https://rs/r?q=1'' = normalize_htu sample_url_crate (req_url dpop_request)"
  "i64_claim (proof_claims (VNumber (PosInt 1000))) ''iat'' = Some 1000"
  "ath (sample_crates verifier_table) ''h.p.k'' = ''h.p.k''"
  "peek_claims (sample_crates verifier_table) ''d.q.j'' = Some (proof_claims (VNumber (PosInt 1000)))"
  by code_simp+

lemma alice_proof_valid:
  "proof_valid plain_verifier dpop_request ''d.q.j'' ''h.p.k'' proof_jkt True
     (proof_claims (VNumber (PosInt 1000))) 1000"
  unfolding proof_valid_def plain_parts
  using alice_proof(1-3,8) by (simp add: alice_proof(4-7,9,10) nonempty_claim_def)

theorem honest_client_accepted_witness: "verify plain_verifier dpop_request 7 = (Ok alice, 8)"
proof -
  have "verify plain_verifier dpop_request 7 = (Ok (credentials (v_crates plain_verifier) alice_claims
      ''https://alice.example/card#me'' ''https://idp''), 8)"
  proof (rule honest_client_accepted)
    show "proof_valid plain_verifier dpop_request ''d.q.j'' ''h.p.k'' proof_jkt
      (\<not> (allow_missing_ath (v_config plain_verifier)
         \<and> \<not> proof_has_ath (v_crates plain_verifier) ''d.q.j''))
      (proof_claims (VNumber (PosInt 1000))) 1000"
      using alice_proof_valid by (simp add: plain_verifier_def new_config_def)
    show "token_valid plain_verifier ''h.p.k'' ''https://idp'' [ec_jwk ''k''] alice_claims"
      by (rule alice_steps(2))
    show "valid_at 1000 (clock_tolerance_secs (v_config plain_verifier)) alice_claims"
      using alice_steps(3) by (simp only: plain_parts)
    show "fresh_at 1000 (clock_tolerance_secs (v_config plain_verifier)) 1000" by (simp add: fresh_at_def)
  qed (simp_all add: alice_steps alice_proof sane_tolerance_def)
  then show ?thesis by (simp add: alice_steps)
qed

end
