(* ===== verification/Effects.thy ===== *)
theory Effects
  imports Exactness Passage
begin

section \<open>What a verification does to the replay store\<close>

text \<open>
  The part of the world that only the store changes, seen through a projection \<open>st\<close>: it moves at most
  once in a verification, at the mark, and only for a request whose token, binding, WebID and party have
  been accepted. A caller without a valid token cannot fill the store.
\<close>

definition keeps :: "('w \<Rightarrow> 's) \<Rightarrow> ('w, 'e, 'a) io \<Rightarrow> bool" where
  "keeps st m \<longleftrightarrow> (\<forall>w r w'. m w = (r, w') \<longrightarrow> st w' = st w)"

lemma keeps_step: "keeps st m \<Longrightarrow> m w = (r, w') \<Longrightarrow> st w' = st w"
  unfolding keeps_def by blast

lemma keeps_at: "keeps st m \<Longrightarrow> preserves (\<lambda>w. st w = s) m"
  unfolding keeps_def preserves_def by blast

lemma keepsI: "(\<And>s. preserves (\<lambda>w. st w = s) m) \<Longrightarrow> keeps st m"
  unfolding keeps_def preserves_def by blast

lemma bind_moved:
  assumes "io_bind m f w = (r, w')" "st w' \<noteq> st w" "keeps st m"
  obtains x w1 where "m w = (Ok x, w1)" "st w1 = st w" "f x w1 = (r, w')" "st w' \<noteq> st w1"
proof -
  obtain q w1 where m: "m w = (q, w1)" by fastforce
  then have "st w1 = st w" using keeps_step [OF assms(3)] by blast
  then show thesis using assms(1,2) m that by (cases q) (auto simp: io_bind_def)
qed

lemma lift_moved:
  assumes "io_bind (lift q) f w = (r, w')" "st w' \<noteq> st w"
  obtains x where "q = Ok x" "f x w = (r, w')"
  using assms by (cases q) auto

lemma bind_moved_first:
  assumes "io_bind m f w = (r, w')" "\<And>x. keeps st (f x)"
  shows "st w' = st (snd (m w))"
proof -
  obtain q w1 where m: "m w = (q, w1)" by fastforce
  then show ?thesis using assms(1) keeps_step [OF assms(2)] by (cases q) (auto simp: io_bind_def)
qed

text \<open>The replay check leaves the world of its one mark, if it gets to it.\<close>

lemma check_replay_moved:
  assumes "st (snd (check_replay V p w)) \<noteq> st w"
  obtains pc jti ttl where "peek_claims (v_crates V) p = Some pc" "str_claim pc ''jti'' = Some jti" "jti \<noteq> []"
    "replay_ttl (overflow_checks (v_crates V)) (v_config V) = Ok ttl"
    "snd (check_replay V p w) = snd (v_mark V jti ttl w)"
proof -
  let ?jti = "case Option.bind (peek_claims (v_crates V) p) (\<lambda>c. str_claim c ''jti'') of
      Some s \<Rightarrow> if s \<noteq> [] then Some s else None | None \<Rightarrow> None"
  obtain r w' where c: "check_replay V p w = (r, w')" by fastforce
  have moved: "st w' \<noteq> st w" using assms by (simp add: c)
  obtain jti where j: "?jti = Some jti"
    using c moved unfolding check_replay_def by (cases ?jti) auto
  obtain ttl where t: "replay_ttl (overflow_checks (v_crates V)) (v_config V) = Ok ttl"
    using c moved j unfolding check_replay_def
    by (cases "replay_ttl (overflow_checks (v_crates V)) (v_config V)") auto
  obtain q w1 where m: "v_mark V jti ttl w = (q, w1)" by fastforce
  have "snd (check_replay V p w) = w1"
    unfolding check_replay_def using j t m
    by (auto split: outcome.split mark_result.split)
  moreover obtain pc where "peek_claims (v_crates V) p = Some pc" "str_claim pc ''jti'' = Some jti" "jti \<noteq> []"
    using j by (auto simp: bind_eq_Some_conv split: option.splits if_splits)
  ultimately show thesis using that t m by simp
qed

lemma verify_moved:
  assumes "\<And>iss. keeps st (v_jwks V iss)" and "\<And>w. st (snd (v_clock V w)) = st w"
    and "\<And>r u. webid_resolver (v_config V) = Some r \<Longrightarrow> keeps st (r u)"
    and "verify V req w = (r, w')" "st w' \<noteq> st w"
  obtains scheme token iss c w1 web_id p where
    "parse_authorization (v_crates V) (authorization req) = Some (scheme, token)"
    "check_scheme V scheme token = Ok ()" "peek_issuer (v_crates V) token = Ok iss"
    "iss \<in> set (trusted_issuers (v_config V))"
    "validate_token V req token iss (scheme = ''dpop'') w = (Ok c, w1)" "st w1 = st w"
    "extract_webid V c = Ok web_id" "check_authorized_party V c = Ok ()" "dpop req = Some p"
    "st w' = st (snd (check_replay V p w1))"
proof -
  let ?E = "v_crates V"
  obtain scheme token where p: "parse_authorization ?E (authorization req) = Some (scheme, token)"
    using assms(4,5) by (cases "parse_authorization ?E (authorization req)") (auto simp: verify_def Let_def)
  have tok: "keeps st (validate_token V req token iss d)" for iss d
    by (rule keepsI, rule validate_token_preserves, rule keeps_at, rule assms(1), simp only: assms(2))
  have last: "keeps st (io_bind (check_bidirectional V web_id iss) (\<lambda>_. lift (Ok x)))"
    for web_id iss and x :: verified_token
    by (rule keepsI, rule preserves_bind, rule check_bidirectional_preserves,
        rule keeps_at, rule assms(3), assumption, rule preserves_lift)
  note run = assms(4) [unfolded verify_def Let_def p option.case prod.case]
  obtain u where s: "check_scheme V scheme token = Ok u"
    by (rule lift_moved [OF run assms(5)])
  note run = run [unfolded s io_bind_lift]
  obtain iss where i: "peek_issuer ?E token = Ok iss"
    by (rule lift_moved [OF run assms(5)])
  note run = run [unfolded i io_bind_lift]
  obtain v where e: "ensure (iss \<in> set (trusted_issuers (v_config V))) (invalid_token ''Token issuer is not trusted.'') = Ok v"
    by (rule lift_moved [OF run assms(5)])
  note run = run [unfolded e io_bind_lift]
  obtain c w1 where t: "validate_token V req token iss (scheme = ''dpop'') w = (Ok c, w1)" "st w1 = st w"
      and moved: "st w' \<noteq> st w1"
    by (rule bind_moved [OF run assms(5) tok])
  note run = run [unfolded io_bind_step(1) [of "validate_token V req token iss (scheme = ''dpop'')", OF t(1)]]
  obtain web_id where x: "extract_webid V c = Ok web_id"
    by (rule lift_moved [OF run moved])
  note run = run [unfolded x io_bind_lift]
  obtain z where a: "check_authorized_party V c = Ok z"
    by (rule lift_moved [OF run moved])
  note run = run [unfolded a io_bind_lift]
  obtain p' where d: "dpop req = Some p'"
    using run moved keeps_step [OF last] by (cases "dpop req") auto
  have "st w' = st (snd (check_replay V p' w1))"
    using bind_moved_first [OF run last] by (simp add: d)
  then show thesis using that p s i e t x a d by (simp add: ensure_def split: if_splits)
qed

text \<open>C22: Only valid requests reach the replay store. Take any part of the world that the key provider,
  the clock and the resolver leave alone, such as the store. If a verification changes it, whatever its
  answer, then the token was of a trusted issuer, verified under its keys and valid at the clock reading,
  a proof and a certificate that were due had been checked, the WebID and the authorized party were
  acceptable, the request has a proof, and the change is that of one mark of its \<open>jti\<close> for the window.\<close>

theorem replay_store_reached_by_valid_requests:
  assumes "\<And>iss. keeps st (v_jwks V iss)" and "\<And>w. st (snd (v_clock V w)) = st w"
    and "\<And>r u. webid_resolver (v_config V) = Some r \<Longrightarrow> keeps st (r u)"
    and "verify V req w = (r, w')" and "st w' \<noteq> st w"
  shows "\<exists>scheme token iss keys wk now c wt w1 web_id p pc jti ttl.
    parse_authorization (v_crates V) (authorization req) = Some (scheme, token)
    \<and> check_scheme V scheme token = Ok () \<and> iss \<in> set (trusted_issuers (v_config V))
    \<and> v_jwks V iss w = (Ok keys, wk) \<and> token_valid V token iss keys c \<and> now_secs V wk = (Ok now, wt)
    \<and> check_temporal_at (overflow_checks (v_crates V)) now
        (wrap_i64 (clock_tolerance_secs (v_config V))) c = Ok ()
    \<and> extract_cnf_x5t_s256 (v_crates V) c \<noteq> Some Malformed
    \<and> (if must_dpop V c (scheme = ''dpop'')
       then \<exists>jkt. extract_cnf_jkt c = Some jkt \<and> proof_given V req token jkt wt w1 else w1 = wt)
    \<and> (\<forall>t. extract_cnf_x5t_s256 (v_crates V) c = Some (Thumbprint t) \<longrightarrow> client_cert_x5t_s256 req = Some t)
    \<and> extract_webid V c = Ok web_id \<and> check_authorized_party V c = Ok ()
    \<and> dpop req = Some p \<and> peek_claims (v_crates V) p = Some pc \<and> str_claim pc ''jti'' = Some jti \<and> jti \<noteq> []
    \<and> replay_ttl (overflow_checks (v_crates V)) (v_config V) = Ok ttl
    \<and> st w1 = st w \<and> st w' = st (snd (v_mark V jti ttl w1))"
proof -
  obtain scheme token iss c w1 web_id p where *:
      "parse_authorization (v_crates V) (authorization req) = Some (scheme, token)"
      "check_scheme V scheme token = Ok ()" "iss \<in> set (trusted_issuers (v_config V))"
      "validate_token V req token iss (scheme = ''dpop'') w = (Ok c, w1)" "st w1 = st w"
      "extract_webid V c = Ok web_id" "check_authorized_party V c = Ok ()" "dpop req = Some p"
      "st w' = st (snd (check_replay V p w1))"
    by (rule verify_moved [of st V req w r w', OF assms(1,2) _ assms(4,5)], erule assms(3)) blast
  have "st (snd (check_replay V p w1)) \<noteq> st w1" using *(5,9) assms(5) by simp
  then obtain pc jti ttl where "peek_claims (v_crates V) p = Some pc" "str_claim pc ''jti'' = Some jti" "jti \<noteq> []"
      "replay_ttl (overflow_checks (v_crates V)) (v_config V) = Ok ttl"
      "snd (check_replay V p w1) = snd (v_mark V jti ttl w1)"
    by (rule check_replay_moved)
  moreover obtain wt where t: "validate_access_token V token iss w = (Ok c, wt)"
      "extract_cnf_x5t_s256 (v_crates V) c \<noteq> Some Malformed"
      "if must_dpop V c (scheme = ''dpop'')
       then \<exists>jkt. extract_cnf_jkt c = Some jkt \<and> proof_given V req token jkt wt w1 else w1 = wt"
      "\<forall>t. extract_cnf_x5t_s256 (v_crates V) c = Some (Thumbprint t) \<longrightarrow> client_cert_x5t_s256 req = Some t"
    using *(4) unfolding validate_token_Ok_iff by blast
  moreover obtain keys wk now where "v_jwks V iss w = (Ok keys, wk)" "token_valid V token iss keys c"
      "now_secs V wk = (Ok now, wt)" "check_temporal_at (overflow_checks (v_crates V)) now
        (wrap_i64 (clock_tolerance_secs (v_config V))) c = Ok ()"
    using t(1) unfolding validate_access_token_Ok_iff by blast
  moreover have "st w' = st (snd (v_mark V jti ttl w1))"
    if "snd (check_replay V p w1) = snd (v_mark V jti ttl w1)" for jti ttl
    unfolding *(9) that by (rule refl)
  ultimately show ?thesis
    using *(1-3,5-8) by (intro exI conjI) (assumption | rule refl)+
qed

text \<open>A world of two parts, of which the store is one: the other requests made, the state of the store.\<close>

definition two_part_verifier :: "(nat \<times> nat, string, string, string, sample_url) verifier" where
  "two_part_verifier =
     \<lparr>v_config = bidirectional Strict (\<lambda>_ (n, s). (Ok \<lparr>issuers = {''https://idp''}\<rparr>, (Suc n, s)))
        (new_config [''https://idp''] ''https://rs''),
      v_jwks = (\<lambda>iss (n, s). (Ok [ec_jwk ''k''], (Suc n, s))),
      v_mark = (\<lambda>j ttl (n, s). (Ok New, (n, Suc s))),
      v_crates = sample_crates verifier_table, v_urls = sample_url_crate,
      v_clock = (\<lambda>(n, s). (Some 1000, (Suc n, s)))\<rparr>"

lemma two_part_keeps:
  "keeps snd (v_jwks two_part_verifier iss)" "snd (snd (v_clock two_part_verifier w)) = snd w"
  "webid_resolver (v_config two_part_verifier) = Some res \<Longrightarrow> keeps snd (res u)"
  by (auto simp: two_part_verifier_def bidirectional_def new_config_def keeps_def split: prod.splits)

lemma two_part_fields:
  "v_crates two_part_verifier = sample_crates verifier_table"
  "iss \<in> set (trusted_issuers (v_config two_part_verifier)) \<Longrightarrow> iss = ''https://idp''"
  "v_jwks two_part_verifier iss (0, 0) = (Ok keys, wk) \<Longrightarrow> keys = [ec_jwk ''k'']"
  by (auto simp: two_part_verifier_def bidirectional_def new_config_def)

theorem replay_store_reached_by_valid_requests_witness:
  "\<exists>c. token_valid two_part_verifier ''h.p.k'' ''https://idp'' [ec_jwk ''k''] c
     \<and> check_authorized_party two_part_verifier c = Ok ()
     \<and> snd (verify two_part_verifier dpop_request (0, 0)) = (4, 1)"
proof -
  obtain r w' where v: "verify two_part_verifier dpop_request (0, 0) = (r, w')" by (rule prod.exhaust)
  have e: "snd (verify two_part_verifier dpop_request (0, 0)) = (4, 1)" by code_simp
  then have "snd w' \<noteq> snd (0 :: nat, 0 :: nat)" by (simp add: v)
  from replay_store_reached_by_valid_requests
    [of snd two_part_verifier dpop_request "(0, 0)" r w', OF two_part_keeps(1,2) _ v this]
  obtain scheme token iss keys wk c where
    *: "parse_authorization (v_crates two_part_verifier) (authorization dpop_request) = Some (scheme, token)"
    "iss \<in> set (trusted_issuers (v_config two_part_verifier))"
    "v_jwks two_part_verifier iss (0, 0) = (Ok keys, wk)"
    "token_valid two_part_verifier token iss keys c" "check_authorized_party two_part_verifier c = Ok ()"
    using two_part_keeps(3) by blast
  have "parse_authorization (sample_crates verifier_table) (authorization dpop_request)
      = Some (''dpop'', ''h.p.k'')" by code_simp
  then have "token = ''h.p.k''" using *(1) by (simp add: two_part_fields(1))
  then show ?thesis
    using *(4,5) two_part_fields(2) [OF *(2)] two_part_fields(3) [OF *(3)] e by auto
qed

end
