(* ===== verification/Well_Formed.thy ===== *)
theory Well_Formed
  imports Guarantees
begin

section \<open>The shape of a result\<close>

text \<open>
  \<open>VerifiedToken\<close> is a struct of options; its documentation and its consumers rely on more: which
  options are filled together and what the filled ones look like. This is the type invariant of every
  result, proved of \<open>verify\<close> for all parameters.
\<close>

subsection \<open>Words without white space\<close>

definition spaceless :: "string \<Rightarrow> bool" where
  "spaceless s \<longleftrightarrow> (\<forall>i < length s. leading whitespace (drop i s) = 0)"

lemma whitespace_nonempty: "e \<in> set whitespace \<Longrightarrow> e \<noteq> []"
  by (auto simp: whitespace_def)

lemma leading_whitespace_0: "leading whitespace s = 0 \<longleftrightarrow> (\<forall>e \<in> set whitespace. take (length e) s \<noteq> e)"
proof (cases "find (\<lambda>e. take (length e) s = e) whitespace")
  case None
  then show ?thesis by (simp add: leading_def) (auto simp: find_None_iff)
next
  case (Some e)
  then have "e \<in> set whitespace" "take (length e) s = e" by (auto simp: find_Some_iff)
  then show ?thesis using Some whitespace_nonempty by (auto simp: leading_def)
qed

lemma leading_prefix: "leading whitespace (a @ b) = 0 \<Longrightarrow> leading whitespace a = 0"
proof (rule ccontr)
  assume 0: "leading whitespace (a @ b) = 0" and "leading whitespace a \<noteq> 0"
  then obtain e where e: "e \<in> set whitespace" "take (length e) a = e"
    by (auto simp: leading_whitespace_0)
  from e(2) have "length e \<le> length a" by (metis length_take min.cobounded1 min_def)
  then have "take (length e) (a @ b) = e" using e(2) by simp
  then show False using 0 e(1) by (auto simp: leading_whitespace_0)
qed

lemma split_ws_words:
  "(\<forall>i < length acc. leading whitespace (drop i acc @ s) = 0) \<Longrightarrow>
   w \<in> set (split_ws acc s) \<Longrightarrow> w \<noteq> [] \<and> spaceless w"
proof (induction acc s rule: split_ws.induct)
  case (1 acc s)
  have acc: "spaceless acc" using 1(3) leading_prefix by (auto simp: spaceless_def)
  show ?case
  proof (cases "s = []")
    case True
    then have "w = acc" "acc \<noteq> []" using 1(4) unfolding True by (simp_all add: split_ws.simps [of acc "[]"] split: if_splits)
    then show ?thesis using acc by simp
  next
    case s: False
    show ?thesis
    proof (cases "leading whitespace s = 0")
      case True
      have "leading whitespace (drop i (acc @ [hd s]) @ tl s) = 0" if "i < length (acc @ [hd s])" for i
        using 1(3) that True s by (cases "i < length acc") (auto simp: less_Suc_eq)
      moreover have "w \<in> set (split_ws (acc @ [hd s]) (tl s))"
        using 1(4) s True by (simp add: split_ws.simps [of acc s])
      ultimately show ?thesis using 1(1) [OF s True] by blast
    next
      case False
      then have "w = acc \<and> acc \<noteq> [] \<or> w \<in> set (split_ws [] (drop (leading whitespace s) s))"
        using 1(4) s by (auto simp: split_ws.simps [of acc s] split: if_splits)
      then show ?thesis using 1(2) [OF s False] acc by auto
    qed
  qed
qed

lemma split_whitespace_words: "w \<in> set (split_whitespace s) \<Longrightarrow> w \<noteq> [] \<and> spaceless w"
  unfolding split_whitespace_def by (rule split_ws_words) auto

subsection \<open>The type invariant\<close>

definition web_id_typed :: "('w, 'k, 'p, 's, 'u) verifier \<Rightarrow> string \<Rightarrow> bool" where
  "web_id_typed V web_id \<longleftrightarrow> web_id \<noteq> []
     \<and> (case url_parse (v_urls V) web_id of
          Some url \<Rightarrow> url_scheme (v_urls V) url = ''https'' \<and> \<not> has_userinfo (v_urls V) url
        | None \<Rightarrow> False)"

definition binding_typed :: "('w, 'k, 'p, 's, 'u) verifier \<Rightarrow> verified_token \<Rightarrow> bool" where
  "binding_typed V t \<longleftrightarrow> tok_cnf_jkt t \<noteq> Some []
     \<and> (case tok_cnf_x5t_s256 t of
          Some (Thumbprint s) \<Rightarrow> is_valid_x5t_s256 (v_crates V) s
        | Some Malformed \<Rightarrow> False
        | None \<Rightarrow> require_dpop (v_config V) \<longrightarrow> tok_cnf_jkt t \<noteq> None)"

definition token_typed :: "('w, 'k, 'p, 's, 'u) verifier \<Rightarrow> verified_token \<Rightarrow> bool" where
  "token_typed V t \<longleftrightarrow>
     (case (tok_web_id t, tok_issuer t, tok_client_id t, tok_expiry t) of
        (Some web_id, Some iss, Some client, Some expiry) \<Rightarrow>
          web_id_typed V web_id \<and> iss \<in> set (trusted_issuers (v_config V)) \<and> client \<noteq> []
          \<and> in_i64 expiry \<and> list_all (\<lambda>s. s \<noteq> [] \<and> spaceless s) (tok_scopes t) \<and> binding_typed V t
      | _ \<Rightarrow> t = public_token)"

lemma x5t_typed: "extract_cnf_x5t_s256 E c = Some (Thumbprint s) \<Longrightarrow> is_valid_x5t_s256 E s"
  by (auto simp: extract_cnf_x5t_s256_def split: option.splits if_splits bind_splits)

lemma jkt_typed: "extract_cnf_jkt c \<noteq> Some []"
  by (auto simp: extract_cnf_jkt_def split: option.splits if_splits bind_splits)

lemma temporal_has_exp: "check_temporal_at oc now tol c = Ok () \<Longrightarrow> \<exists>e. i64_claim c ''exp'' = Some e"
  by (auto simp: check_temporal_at_def outcome_simps split: option.splits)

text \<open>C8: The type of a result. Whatever is behind the parameters, a successful verification returns
  the anonymous token with every field empty, or one in which the WebID is a non-empty \<open>https\<close> URL without
  userinfo, the issuer is one of the trusted issuers, the client id is there and not empty, the expiry is
  there and an \<open>i64\<close>, the scopes are non-empty words without white space, the key thumbprint is not
  empty, the certificate thumbprint is 32 encoded bytes and never malformed, and, where DPoP is required,
  the token is bound to a key or to a certificate.\<close>

theorem verified_token_typed:
  assumes "verify V req w = (Ok tok, w')"
  shows "token_typed V tok"
proof (cases "is_public tok")
  case True
  then show ?thesis
    using verify_Ok [OF assms] by (auto simp: is_public_def token_typed_def public_token_def)
next
  case False
  from assms False show ?thesis
  proof (cases rule: accepted_cases)
    case (1 scheme token iss keys wk now c web_id wt w1 w2)
    have "web_id_typed V web_id"
      using 1(11) by (auto simp: web_id_typed_def extract_webid_Ok_iff validate_webid_claim_def
          split: option.splits if_splits)
    moreover obtain client where "str_claim c ''client_id'' = Some client" "client \<noteq> []"
      using 1(5) by (auto simp: token_valid_def nonempty_claim_def)
    moreover obtain e where "i64_claim c ''exp'' = Some e" "in_i64 e"
      using temporal_has_exp [OF 1(7)] i64_claim_range by blast
    moreover have "binding_typed V tok"
      unfolding binding_typed_def 1(15) credentials_fields
      using 1(8,9) x5t_typed jkt_typed by (auto simp: must_dpop_def split: option.splits x5t_s256.splits)
    ultimately show ?thesis
      using 1(3) unfolding 1(15) token_typed_def
      by (auto simp: credentials_def list_all_iff split: option.splits dest: split_whitespace_words)
  qed
qed

theorem verified_token_typed_witness: "token_typed sample_verifier alice"
  by (rule verified_token_typed [OF dpop_request_accepted])

end
