(* ===== verification/Robustness.thy ===== *)
theory Robustness
  imports Guarantees
begin

section \<open>What a verification cannot reveal and cannot do\<close>

text \<open>
  The error texts of the key provider, the replay store and the WebID resolver have no influence on
  the answer, and in a release build the verifier itself never panics. Both are composed along the
  steps of \<open>verify\<close>.
\<close>

subsection \<open>No detail of the backends\<close>

definition hush :: "('w, string, 'a) io \<Rightarrow> ('w, string, 'a) io" where
  "hush m = io_map_err (\<lambda>_. []) m"

text \<open>The verifier with every error text of what it calls replaced by the empty one.\<close>

definition without_details ::
  "('w, 'k, 'p, 's, 'u) verifier \<Rightarrow> ('w, 'k, 'p, 's, 'u) verifier" where
  "without_details V = V\<lparr>
     v_jwks := (\<lambda>iss. hush (v_jwks V iss)),
     v_mark := (\<lambda>jti ttl. hush (v_mark V jti ttl)),
     v_config := (v_config V)\<lparr>webid_resolver :=
       map_option (\<lambda>r web_id. hush (r web_id)) (webid_resolver (v_config V))\<rparr>\<rparr>"

lemma hush_apply: "hush m w = (map_err (\<lambda>_. []) (fst (m w)), snd (m w))"
  by (simp add: hush_def io_map_err_def split: prod.splits)

lemma io_map_err_hush: "io_map_err (\<lambda>_. e) (hush m) = io_map_err (\<lambda>_. e) m"
  by (auto simp: hush_def io_map_err_def map_err_def fun_eq_iff split: prod.splits outcome.splits)

lemma without_details_fields [simp]:
  "v_crates (without_details V) = v_crates V" "v_urls (without_details V) = v_urls V"
  "v_clock (without_details V) = v_clock V"
  "v_jwks (without_details V) iss = hush (v_jwks V iss)"
  "v_mark (without_details V) jti ttl = hush (v_mark V jti ttl)"
  "trusted_issuers (v_config (without_details V)) = trusted_issuers (v_config V)"
  "webid_claim (v_config (without_details V)) = webid_claim (v_config V)"
  "require_dpop (v_config (without_details V)) = require_dpop (v_config V)"
  "allow_missing_ath (v_config (without_details V)) = allow_missing_ath (v_config V)"
  "clock_tolerance_secs (v_config (without_details V)) = clock_tolerance_secs (v_config V)"
  "audience (v_config (without_details V)) = audience (v_config V)"
  "authorized_parties (v_config (without_details V)) = authorized_parties (v_config V)"
  "bidirectional_mode (v_config (without_details V)) = bidirectional_mode (v_config V)"
  "replay_fail_closed (v_config (without_details V)) = replay_fail_closed (v_config V)"
  "webid_resolver (v_config (without_details V)) =
     map_option (\<lambda>r web_id. hush (r web_id)) (webid_resolver (v_config V))"
  by (simp_all add: without_details_def)

named_theorems hushed \<open>steps that do not see error texts\<close>

lemma now_secs_hushed [hushed]: "now_secs (without_details V) = now_secs V"
  unfolding now_secs_def without_details_fields ..

lemma clock_hushed [hushed]:
  "check_temporal (without_details V) = check_temporal V"
  "check_authorized_party (without_details V) = check_authorized_party V"
  "extract_webid (without_details V) = extract_webid V"
  "check_scheme (without_details V) = check_scheme V"
  unfolding check_temporal_def check_authorized_party_def extract_webid_def check_scheme_def
    hushed without_details_fields by (rule refl)+

lemma tokens_hushed [hushed]:
  "validate_access_token (without_details V) = validate_access_token V"
  "validate_dpop_proof (without_details V) = validate_dpop_proof V"
  unfolding validate_access_token_def validate_dpop_proof_def hushed without_details_fields
    io_map_err_hush by (rule refl)+

lemma validate_token_hushed [hushed]: "validate_token (without_details V) = validate_token V"
  unfolding validate_token_def hushed without_details_fields ..

lemma check_replay_hushed [hushed]: "check_replay (without_details V) = check_replay V"
proof -
  have h: "(case hush m w of
         (Ok New, w') \<Rightarrow> (Ok (), w') | (Ok Replay, w') \<Rightarrow> (Err e, w')
       | (Err _, w') \<Rightarrow> (d, w') | (Panic, w') \<Rightarrow> (Panic, w')) =
     (case m w of
         (Ok New, w') \<Rightarrow> (Ok (), w') | (Ok Replay, w') \<Rightarrow> (Err e, w')
       | (Err _, w') \<Rightarrow> (d, w') | (Panic, w') \<Rightarrow> (Panic, w'))"
    for m :: "('w, string, mark_result) io" and w :: 'w and e :: verify_error and d
    by (auto simp: hush_apply split: prod.splits outcome.splits mark_result.splits)
  have r: "replay_ttl oc (v_config (without_details V)) = replay_ttl oc (v_config V)" for oc
    by (simp add: replay_ttl_def)
  show ?thesis
    unfolding check_replay_def without_details_fields r h ..
qed

lemma check_bidirectional_hushed [hushed]:
  "check_bidirectional (without_details V) = check_bidirectional V"
proof (intro ext)
  fix web_id iss w
  show "check_bidirectional (without_details V) web_id iss w = check_bidirectional V web_id iss w"
  proof (cases "webid_resolver (v_config V)")
    case (Some r)
    obtain q w' where "r web_id w = (q, w')" by fastforce
    then show ?thesis
      using Some by (cases q) (simp_all add: check_bidirectional_def Let_def hush_apply)
  qed (simp add: check_bidirectional_def Let_def)
qed

text \<open>C33: The answer reveals nothing of the backends. Replacing every error text of the key provider,
  the replay store and the WebID resolver by the empty text changes neither the answer to any request
  nor the world it leaves, so no internal URL, connection string or profile error reaches a client.\<close>

theorem no_backend_detail_in_answers: "verify (without_details V) req w = verify V req w"
  unfolding verify_def Let_def hushed without_details_fields ..

subsection \<open>No panic\<close>

definition no_panic :: "('w, 'e, 'a) io \<Rightarrow> bool" where
  "no_panic m \<longleftrightarrow> (\<forall>w. fst (m w) \<noteq> Panic)"

named_theorems no_panic_rules \<open>operations that do not panic\<close>

lemma no_panic_io [no_panic_rules]:
  "m' \<noteq> Panic \<Longrightarrow> no_panic (lift m')" "m' \<noteq> Panic \<Longrightarrow> no_panic (Pair m')"
  "no_panic k \<Longrightarrow> no_panic (io_map_err g k)"
  "no_panic m \<Longrightarrow> (\<And>x. no_panic (f x)) \<Longrightarrow> no_panic (io_bind m f)"
  unfolding no_panic_def io_map_err_def io_bind_def map_err_def
  by (auto split: prod.splits outcome.splits) (metis fst_conv)+

lemma no_panic_results [no_panic_rules]:
  "Ok x \<noteq> Panic" "Err e \<noteq> Panic" "ensure b e \<noteq> Panic" "ok_or v e \<noteq> Panic"
  "m' \<noteq> Panic \<Longrightarrow> map_err g m' \<noteq> Panic"
  "m \<noteq> Panic \<Longrightarrow> (\<And>x. f x \<noteq> Panic) \<Longrightarrow> and_then m f \<noteq> Panic"
  "i64_result False n \<noteq> Panic" "u64_result False n \<noteq> Panic"
  by (auto simp: outcome_simps)

lemma no_panic_bind_lift:
  "m' \<noteq> Panic \<Longrightarrow> (\<And>x. m' = Ok x \<Longrightarrow> no_panic (f x)) \<Longrightarrow> no_panic (io_bind (lift m') f)"
  by (cases m') (simp_all add: no_panic_def)

text \<open>The release profile, with backends that do not panic themselves on the calls that are made.\<close>

definition calm :: "('w, 'k, 'p, 's, 'u) verifier \<Rightarrow> bool" where
  "calm V \<longleftrightarrow> \<not> overflow_checks (v_crates V) \<and> (\<forall>iss. no_panic (v_jwks V iss))
     \<and> (\<forall>jti ttl. replay_ttl False (v_config V) = Ok ttl \<longrightarrow> no_panic (v_mark V jti ttl))
     \<and> (\<forall>r web_id. webid_resolver (v_config V) = Some r \<longrightarrow> no_panic (r web_id))"

lemma no_panic_signature [no_panic_rules]: "verify_signature E token ks typ \<noteq> Panic"
proof -
  have "verify_es512_over_candidates E token ks \<noteq> Panic"
    by (auto simp: verify_es512_over_candidates_def outcome_simps split: if_splits dest!: try_keys_Panic)
  then show ?thesis
    by (auto simp: verify_signature_def outcome_simps split: if_splits dest!: try_keys_Panic)
qed

lemma no_panic_parsing [no_panic_rules]:
  "peek_header E token \<noteq> Panic" "peek_issuer E token \<noteq> Panic"
  "verify_proof_with_embedded_jwk E p typ \<noteq> Panic" "thumbprint_sha256 E k \<noteq> Panic"
  using no_panic_signature
  by (auto simp: peek_issuer_def verify_proof_with_embedded_jwk_def thumbprint_sha256_def
      canonical_jwk_def outcome_simps split: option.splits if_splits prod.splits)

lemma no_panic_checks [no_panic_rules]:
  "check_temporal_at False now tol c \<noteq> Panic" "check_freshness False now iat tol \<noteq> Panic"
  "check_ath E c token b \<noteq> Panic" "check_authorized_party V c \<noteq> Panic"
  "extract_webid V c \<noteq> Panic" "validate_cert_binding req t \<noteq> Panic"
  "check_scheme V scheme token \<noteq> Panic" "check_required c ks \<noteq> Panic"
  "replay_ttl False cfg \<noteq> Panic"
proof -
  show "check_required c ks \<noteq> Panic" by (induction ks) auto
qed (auto simp: check_temporal_at_def check_freshness_def check_ath_def check_authorized_party_def
    extract_webid_def validate_webid_claim_def validate_cert_binding_def check_scheme_def Let_def
    replay_ttl_def outcome_simps split: option.splits if_splits)

lemma no_panic_now [no_panic_rules]: "no_panic (now_secs V)"
  by (auto simp: no_panic_def now_secs_def split: prod.splits option.splits)

lemma no_panic_steps [no_panic_rules]:
  assumes "calm V"
  shows "no_panic (validate_access_token V token iss)"
    and "no_panic (validate_dpop_proof V req p token jkt b)"
    and "no_panic (check_replay V p)" and "no_panic (check_bidirectional V web_id iss)"
proof -
  have oc: "\<not> overflow_checks (v_crates V)" and j: "no_panic (v_jwks V iss)"
    and m: "replay_ttl False (v_config V) = Ok ttl \<Longrightarrow> no_panic (v_mark V jti ttl)"
    and r: "webid_resolver (v_config V) = Some r \<Longrightarrow> no_panic (r web_id)" for jti ttl r
    using assms by (simp_all add: calm_def)
  show "no_panic (validate_access_token V token iss)"
    unfolding validate_access_token_def check_temporal_def Let_def
    by (auto simp: oc simp del: check_required.simps intro!: no_panic_rules j)
  show "no_panic (validate_dpop_proof V req p token jkt b)"
    unfolding validate_dpop_proof_def Let_def
    by (auto simp: oc intro!: no_panic_rules)
  show "no_panic (check_replay V p)"
    unfolding check_replay_def
  proof (intro no_panic_bind_lift)
    show "no_panic (\<lambda>w. case v_mark V jti ttl w of
         (Ok New, w') \<Rightarrow> (Ok (), w')
       | (Ok Replay, w') \<Rightarrow> (Err (invalid_token_dpop ''DPoP proof has already been used (replay).''), w')
       | (Err _, w') \<Rightarrow> (if replay_fail_closed (v_config V) then Err replay_unavailable else Ok (), w')
       | (Panic, w') \<Rightarrow> (Panic, w'))" if "replay_ttl (overflow_checks (v_crates V)) (v_config V) = Ok ttl" for jti ttl
      using m [of ttl jti] that oc unfolding no_panic_def
      by (auto split: prod.splits outcome.splits mark_result.splits) (metis fst_conv)
  qed (simp_all add: oc no_panic_rules)
  show "no_panic (check_bidirectional V web_id iss)"
    using r unfolding no_panic_def check_bidirectional_def Let_def
    by (auto split: option.splits prod.splits outcome.splits) (metis fst_conv)+
qed

lemma no_panic_validate_token [no_panic_rules]:
  "calm V \<Longrightarrow> no_panic (validate_token V req token iss d)"
  unfolding validate_token_def Let_def
  by (auto split: option.split x5t_s256.split intro!: no_panic_rules)

lemma calm_verify:
  assumes "calm V"
  shows "no_panic (verify V req)"
proof (cases "parse_authorization (v_crates V) (authorization req)")
  case None
  then show ?thesis by (simp add: verify_def no_panic_def)
next
  case (Some st)
  obtain scheme token where "st = (scheme, token)" by fastforce
  with Some show ?thesis
    unfolding verify_def Let_def
    by (auto split: option.split intro!: no_panic_rules assms)
qed

text \<open>In a release build \<open>verify\<close> never panics, whatever the request holds: no header, token,
  proof, key or claim takes the verifier down, as long as the provider, the store and the resolver
  return.\<close>

theorem verify_never_panics:
  assumes "\<not> overflow_checks (v_crates V)"
    and "\<And>iss w. fst (v_jwks V iss w) \<noteq> Panic"
    and "\<And>jti ttl w. replay_ttl False (v_config V) = Ok ttl \<Longrightarrow> fst (v_mark V jti ttl w) \<noteq> Panic"
    and "\<And>r web_id w. webid_resolver (v_config V) = Some r \<Longrightarrow> fst (r web_id w) \<noteq> Panic"
  shows "fst (verify V req w) \<noteq> Panic"
proof -
  have "calm V" using assms by (simp add: calm_def no_panic_def)
  then show ?thesis using calm_verify [of V req] by (simp add: no_panic_def)
qed

text \<open>
  The release build, and a request whose proof was issued \<open>2 ^ 63\<close> seconds ago: the age overflows to
  the smallest \<open>i64\<close>, which is within the window, and the stale proof is accepted. With overflow
  checks the same request is a panic.
\<close>

definition release_verifier :: "(nat, string, string, string, sample_url) verifier" where
  "release_verifier = sample_verifier\<lparr>v_crates := (sample_crates verifier_table)\<lparr>overflow_checks := False\<rparr>\<rparr>"

definition overflow_request :: auth_request where
  "overflow_request = dpop_request\<lparr>dpop := Some ''d.o.j''\<rparr>"

lemma overflow_proof_accepted_in_release: "verify release_verifier overflow_request 0 = (Ok alice, 1)"
  by code_simp

lemma overflow_proof_panics_with_checks: "verify sample_verifier overflow_request 0 = (Panic, 0)"
  by code_simp

theorem verify_never_panics_witness: "fst (verify release_verifier overflow_request 7) \<noteq> Panic"
  by (rule verify_never_panics)
    (auto simp: release_verifier_def sample_verifier_def sample_config_def new_config_def bidirectional_def
      static_keys_for_def outcome_simps)

text \<open>
  A certificate-bound token under the Bearer scheme needs no proof, so the proof of its request is not
  validated; its \<open>jti\<close> is marked nevertheless. Here the proof is signed by nobody.
\<close>

definition unvalidated_proof_request :: auth_request where
  "unvalidated_proof_request = cert_request\<lparr>dpop := Some ''x.q.x''\<rparr>"

lemma unvalidated_proof_is_marked:
  "verify sample_verifier unvalidated_proof_request 0 = (Ok alice_by_cert, 1)"
  "\<not> is_ok (verify_proof_with_embedded_jwk (v_crates sample_verifier) ''x.q.x'' ''dpop+jwt'')"
  by code_simp+

text \<open>
  With \<open>allow_missing_ath\<close>, an \<open>ath\<close> that is present but no string passes as a missing one.
\<close>

definition compat_table :: "(bytes \<times> json) list" where
  "compat_table = (''a'', VObject (AList.update ''ath'' (VNumber (PosInt 7)) (proof_claims (VNumber (PosInt 1000)))))
     # verifier_table"

definition compat_verifier :: "(nat, string, string, string, sample_url) verifier" where
  "compat_verifier = sample_verifier\<lparr>v_config := set_allow_missing_ath True sample_config,
     v_crates := sample_crates compat_table\<rparr>"

lemma wrong_ath_accepted_in_compat:
  "verify compat_verifier (dpop_request\<lparr>dpop := Some ''d.a.j''\<rparr>) 0 = (Ok alice, 1)"
  by code_simp

end
