(* ===== verification/Ipaddr_Text.thy ===== *)
theory Ipaddr_Text
  imports Ipaddr
begin

section \<open>The text of an IP address\<close>

text \<open>
  \<open>Display\<close> of the address types (the decimal quad; the hexadecimal groups with the first longest
  run of zeros compressed; the mapped form) and its round trip through the parsers. The network
  layer classifies resolved records by their text, so this is what lets its theorems speak of the
  addresses themselves.
\<close>

definition show_v4 :: "ipv4 \<Rightarrow> string" where
  "show_v4 v = (case v of V4 a b c d \<Rightarrow>
     show_nat (unat a) @ ''.'' @ show_nat (unat b) @ ''.'' @ show_nat (unat c) @ ''.'' @ show_nat (unat d))"

definition hex_digit :: "nat \<Rightarrow> char" where
  "hex_digit n = char_of (if n < 10 then 48 + n else 87 + n)"

fun show_hex :: "nat \<Rightarrow> string" where
  "show_hex n = (if n < 16 then [hex_digit n] else show_hex (n div 16) @ [hex_digit (n mod 16)])"

declare show_hex.simps [simp del]

definition show_groups :: "u16 list \<Rightarrow> string" where
  "show_groups gs = join_with '':'' (map (\<lambda>g. show_hex (unat g)) gs)"

text \<open>The loop that finds the longest run of zero segments; each span is its start and length.\<close>

fun zero_spans :: "nat \<Rightarrow> nat \<times> nat \<Rightarrow> nat \<times> nat \<Rightarrow> u16 list \<Rightarrow> nat \<times> nat" where
  "zero_spans i longest current [] = longest"
| "zero_spans i longest current (s # segs) =
     (if s = 0 then
        (let cur = (if snd current = 0 then i else fst current, snd current + 1)
         in zero_spans (i + 1) (if snd longest < snd cur then cur else longest) cur segs)
      else zero_spans (i + 1) longest (0, 0) segs)"

definition show_v6 :: "ipv6 \<Rightarrow> string" where
  "show_v6 a =
     (case to_ipv4_mapped a of
        Some v4 \<Rightarrow> ''::ffff:'' @ show_v4 v4
      | None \<Rightarrow>
          (case zero_spans 0 (0, 0) (0, 0) a of (start, len) \<Rightarrow>
             if 1 < len then show_groups (take start a) @ ''::'' @ show_groups (drop (start + len) a)
             else show_groups a))"

fun show_ip :: "ip_addr \<Rightarrow> string" where
  "show_ip (IpV4 v) = show_v4 v"
| "show_ip (IpV6 a) = show_v6 a"

subsection \<open>Digits\<close>

lemma decimal_digits:
  "list_all (\<lambda>n. digit_value (char_of (48 + n)) = Some n \<and> is_digit 10 (char_of (48 + n))
      \<and> (char_of (48 + n) = CHR ''0'' \<longleftrightarrow> n = 0)) [0..<10]"
  by code_simp

lemma hex_digits:
  "list_all (\<lambda>n. digit_value (hex_digit n) = Some n \<and> is_digit 16 (hex_digit n)) [0..<16]"
  by code_simp

lemma digit_value_decimal:
  fixes n :: nat
  assumes "n < 10"
  shows "digit_value (char_of (48 + n)) = Some n" "is_digit 10 (char_of (48 + n))"
    "char_of (48 + n) = CHR ''0'' \<longleftrightarrow> n = 0"
  using assms decimal_digits by (auto simp: list_all_iff)

lemma digit_value_hex:
  assumes "n < 16"
  shows "digit_value (hex_digit n) = Some n" "is_digit 16 (hex_digit n)"
  using assms hex_digits by (auto simp: list_all_iff)

lemma not_digit [simp]:
  "\<not> is_digit r (CHR ''.'')" "\<not> is_digit r (CHR '':'')"
  by (simp_all add: is_digit_def digit_value_def)

lemma digits_value_snoc: "digits_value r (ds @ [c]) = digits_value r ds * r + the (digit_value c)"
  by (simp add: digits_value_def)

lemma show_nat_digits:
  "digits_value 10 (show_nat n) = n \<and> list_all (is_digit 10) (show_nat n) \<and> show_nat n \<noteq> []
   \<and> (hd (show_nat n) = CHR ''0'' \<longleftrightarrow> n = 0)"
proof (induction n rule: show_nat.induct)
  case (1 n)
  show ?case
  proof (cases "n < 10")
    case True
    then show ?thesis
      by (simp add: show_nat.simps [of n] digits_value_def digit_value_decimal)
  next
    case False
    then have IH: "digits_value 10 (show_nat (n div 10)) = n div 10"
        "list_all (is_digit 10) (show_nat (n div 10))" "show_nat (n div 10) \<noteq> []"
        "hd (show_nat (n div 10)) \<noteq> CHR ''0''"
      using 1 by auto
    show ?thesis
      using IH False digit_value_decimal [of "n mod 10"]
      by (simp add: show_nat.simps [of n] digits_value_snoc)
  qed
qed

lemma show_hex_digits:
  "digits_value 16 (show_hex n) = n \<and> list_all (is_digit 16) (show_hex n) \<and> show_hex n \<noteq> []"
proof (induction n rule: show_hex.induct)
  case (1 n)
  then show ?case
    using digit_value_hex [of n] digit_value_hex [of "n mod 16"]
    by (cases "n < 16")
      (simp_all add: show_hex.simps [of n] digits_value_def digits_value_snoc [unfolded digits_value_def])
qed

lemma show_nat_length: "n < 256 \<Longrightarrow> length (show_nat n) \<le> 3 \<and> (n < 10 \<longrightarrow> length (show_nat n) = 1)"
  by (simp add: show_nat.simps [of n] show_nat.simps [of "n div 10"] show_nat.simps [of "n div 100"]
      div_mult2_eq [symmetric] del: show_nat.simps)

lemma show_hex_length: "n < 16 ^ Suc k \<Longrightarrow> length (show_hex n) \<le> Suc k"
proof (induction k arbitrary: n)
  case (Suc k)
  then have "n div 16 < 16 ^ Suc k"
    by (simp add: less_mult_imp_div_less)
  with Suc.IH show ?case
    by (simp add: show_hex.simps [of n])
qed (simp add: show_hex.simps)

subsection \<open>Reading what was shown\<close>

definition ends_number :: "nat \<Rightarrow> string \<Rightarrow> bool" where
  "ends_number r s \<longleftrightarrow> s = [] \<or> \<not> is_digit r (hd s)"

lemma ends_number_simps [simp]:
  "ends_number r []" "ends_number r (CHR ''.'' # s)" "ends_number r (CHR '':'' # s)"
  by (simp_all add: ends_number_def)

lemma takeWhile_digits:
  "list_all (is_digit r) ds \<Longrightarrow> ends_number r s \<Longrightarrow> takeWhile (is_digit r) (ds @ s) = ds"
  by (induction ds) (auto simp: ends_number_def takeWhile_eq_Nil_iff)

lemma read_decimal:
  assumes "n < 256" "ends_number 10 s"
  shows "read_number 10 3 False 255 (show_nat n @ s) = Some (n, s)"
proof -
  have "length (show_nat n) \<le> 3" "n = 0 \<longrightarrow> length (show_nat n) = 1"
    using show_nat_length [OF assms(1)] by auto
  then show ?thesis
    using show_nat_digits [of n] assms
    by (auto simp: read_number_def takeWhile_digits)
qed

lemma read_hex:
  fixes g :: u16
  assumes "ends_number 16 s"
  shows "read_number 16 4 True 65535 (show_hex (unat g) @ s) = Some (unat g, s)"
proof -
  have "unat g < 65536"
    using unsigned_less [of g, where 'a = nat] by simp
  then show ?thesis
    using show_hex_digits [of "unat g"] show_hex_length [of "unat g" 3] assms
    by (simp add: read_number_def takeWhile_digits)
qed

lemma read_show_v4: "ends_number 10 s \<Longrightarrow> read_ipv4_addr (show_v4 v @ s) = Some (v, s)"
proof (cases v)
  case (V4 a b c d)
  assume s: "ends_number 10 s"
  have u: "unat x < 256" for x :: u8
    using unsigned_less [of x, where 'a = nat] by simp
  show ?thesis
    unfolding V4 show_v4_def read_ipv4_addr_def read_octet_def read_separator_def
    by (simp add: read_decimal u s)
qed

lemma show_v4_length: "length (show_v4 v) \<le> 15"
proof (cases v)
  case (V4 a b c d)
  have u: "length (show_nat (unat x)) \<le> 3" for x :: u8
    using unsigned_less [of x, where 'a = nat] show_nat_length [of "unat x"] by simp
  show ?thesis
    using u [of a] u [of b] u [of c] u [of d] by (simp add: V4 show_v4_def)
qed

lemma parse_show_v4: "parse_ipv4 (show_v4 v) = Some v"
  using read_show_v4 [of "[]" v] show_v4_length [of v] by (simp add: parse_ipv4_def)

subsection \<open>Groups\<close>

text \<open>The text of groups \<open>gs\<close> from index \<open>i\<close> on, followed by \<open>rest\<close>.\<close>

fun group_text :: "nat \<Rightarrow> u16 list \<Rightarrow> string \<Rightarrow> string" where
  "group_text i [] rest = rest"
| "group_text i (g # gs) rest =
     (if 0 < i then '':'' else []) @ show_hex (unat g) @ group_text (Suc i) gs rest"

lemma show_groups_Cons:
  "show_groups (g # gs) @ rest = show_hex (unat g) @ group_text (Suc i) gs rest"
  by (induction gs arbitrary: g i) (auto simp: show_groups_def)

lemma show_groups_text: "show_groups gs @ rest = group_text 0 gs rest"
  by (cases gs) (simp_all add: show_groups_Cons [of _ _ _ 0], simp add: show_groups_def)

lemma no_dot_hex: "CHR ''.'' \<notin> set (show_hex n)"
  using show_hex_digits [of n] by (auto simp: list_all_iff)

lemma no_dot_group_text: "CHR ''.'' \<notin> set rest \<Longrightarrow> CHR ''.'' \<notin> set (group_text i gs rest)"
  by (induction i gs rest rule: group_text.induct) (auto simp: no_dot_hex)

lemma read_given_Some: "read_given_char c s = Some r \<longleftrightarrow> s = c # r"
  by (cases s) auto

lemma read_number_suffix: "read_number r m z x s = Some (n, s') \<Longrightarrow> set s' \<subseteq> set s"
  by (auto simp: read_number_def Let_def split: if_splits dest: in_set_dropD)

lemma no_dot_no_quad:
  assumes "CHR ''.'' \<notin> set s"
  shows "read_ipv4_addr s = None"
proof (rule ccontr)
  assume "read_ipv4_addr s \<noteq> None"
  then obtain a s1 b s2 where "read_octet 0 s = Some (a, s1)" "read_octet 1 s1 = Some (b, s2)"
    by (auto simp: read_ipv4_addr_def bind_eq_Some_conv)
  then have "set s1 \<subseteq> set s" "\<exists>r. s1 = CHR ''.'' # r"
    by (auto simp: read_octet_def read_separator_def bind_eq_Some_conv read_given_Some
        dest: read_number_suffix)
  then show False using assms by auto
qed

definition group_end :: "string \<Rightarrow> bool" where
  "group_end rest \<longleftrightarrow> rest = [] \<or> (\<exists>r. rest = CHR '':'' # CHR '':'' # r)"

lemma group_end_ends: "group_end rest \<Longrightarrow> ends_number 16 (group_text (Suc i) gs rest)"
  by (cases gs) (auto simp: group_end_def)

lemma read_nothing:
  "s = [] \<or> (\<exists>r. s = CHR '':'' # r) \<Longrightarrow> read_number 16 4 True 65535 s = None"
  by (auto simp: read_number_def)

lemma read_groups_none:
  assumes "read_separator (CHR '':'') i (read_number 16 4 True 65535) s = None"
    "read_separator (CHR '':'') i read_ipv4_addr s = None"
  shows "read_groups n i acc s = (acc, False, s)"
  using assms by (cases n) simp_all

lemma read_groups_hex:
  assumes "n = Suc left" "read_separator (CHR '':'') i read_ipv4_addr s = None"
    "read_separator (CHR '':'') i (read_number 16 4 True 65535) s = Some (g, s')"
  shows "read_groups n i acc s = read_groups left (Suc i) (acc @ [of_nat g]) s'"
  using assms by simp

lemma read_groups_quad:
  assumes "n = Suc left" "0 < left"
    "read_separator (CHR '':'') i read_ipv4_addr s = Some (v, s')"
  shows "read_groups n i acc s = (acc @ v4_groups v, True, s')"
  using assms by simp

lemma read_groups_stop:
  assumes "group_end rest" "CHR ''.'' \<notin> set rest"
  shows "read_groups n i acc rest = (acc, False, rest)"
proof (rule read_groups_none)
  show "read_separator (CHR '':'') i (read_number 16 4 True 65535) rest = None"
    using assms(1) by (auto simp: group_end_def read_separator_def read_nothing)
  show "read_separator (CHR '':'') i read_ipv4_addr rest = None"
    using assms by (auto simp: group_end_def read_separator_def no_dot_no_quad)
qed

lemma read_groups_text:
  assumes "group_end rest" "CHR ''.'' \<notin> set rest" "length gs \<le> n"
  shows "read_groups n i acc (group_text i gs rest) = (acc @ gs, False, rest)"
  using assms(3)
proof (induction gs arbitrary: n i acc)
  case Nil
  then show ?case using read_groups_stop [OF assms(1,2)] by simp
next
  case (Cons g gs)
  then obtain left where n: "n = Suc left" "length gs \<le> left"
    by (cases n) auto
  let ?t = "show_hex (unat g) @ group_text (Suc i) gs rest"
  have "CHR ''.'' \<notin> set ?t"
    using no_dot_hex no_dot_group_text [OF assms(2)] by auto
  from no_dot_no_quad [OF this] have q: "read_separator (CHR '':'') i read_ipv4_addr (group_text i (g # gs) rest) = None"
    by (cases i) (simp_all add: read_separator_def)
  have "read_separator (CHR '':'') i (read_number 16 4 True 65535) (group_text i (g # gs) rest)
      = Some (unat g, group_text (Suc i) gs rest)"
    using read_hex [OF group_end_ends [OF assms(1)]] by (simp add: read_separator_def)
  then show ?case
    using Cons.IH [OF n(2), of "Suc i" "acc @ [g]"] q n by (cases left) auto
qed

subsection \<open>The zero run\<close>

definition span_in :: "u16 list \<Rightarrow> nat \<times> nat \<Rightarrow> bool" where
  "span_in a sp \<longleftrightarrow> fst sp + snd sp \<le> length a \<and> (\<forall>k < snd sp. a ! (fst sp + k) = 0)"

lemma zero_spans_in:
  assumes "span_in (pre @ segs) longest" "span_in (pre @ segs) current"
    "snd current = 0 \<or> fst current + snd current = length pre"
  shows "span_in (pre @ segs) (zero_spans (length pre) longest current segs)"
  using assms
proof (induction segs arbitrary: pre longest current)
  case (Cons s segs)
  let ?cur = "(if snd current = 0 then length pre else fst current, snd current + 1)"
  have app: "pre @ s # segs = (pre @ [s]) @ segs" by simp
  have zero: "span_in (pre @ s # segs) (0, 0)" by (simp add: span_in_def)
  show ?case
  proof (cases "s = 0")
    case True
    have "(pre @ 0 # segs) ! (fst current + k) = 0" if "k < Suc (snd current)" "snd current \<noteq> 0" for k
      using that Cons.prems(2,3) True by (cases "k = snd current") (auto simp: span_in_def)
    then have "span_in (pre @ s # segs) ?cur"
      using Cons.prems(3) True by (auto simp: span_in_def)
    then show ?thesis
      using Cons.IH [of "pre @ [s]" "if snd longest < snd ?cur then ?cur else longest" ?cur] Cons.prems True
      by (auto simp: Let_def)
  next
    case False
    then show ?thesis
      using Cons.IH [of "pre @ [s]" longest "(0, 0)"] Cons.prems zero by simp
  qed
qed simp

lemma span_split:
  assumes "span_in a (k, n)"
  shows "take k a @ replicate n 0 @ drop (k + n) a = a"
proof -
  have "take n (drop k a) = replicate n 0"
    using assms by (intro nth_equalityI) (auto simp: span_in_def)
  then show ?thesis
    by (metis append_take_drop_id drop_drop add.commute)
qed

lemma read_show_v6:
  assumes "length a = 8" "to_ipv4_mapped a = None"
  shows "read_ipv6_addr (show_v6 a) = Some (a, [])" "CHR ''.'' \<notin> set (show_v6 a)"
proof -
  obtain k n where z: "zero_spans 0 (0, 0) (0, 0) a = (k, n)" by fastforce
  have sp: "span_in a (k, n)"
    using zero_spans_in [of "[]" a "(0, 0)" "(0, 0)"] z by (simp add: span_in_def)
  have nodot: "CHR ''.'' \<notin> set (show_groups gs)" for gs
    using no_dot_group_text [of "[]" 0 gs] show_groups_text [of gs "[]"] by simp
  then show "CHR ''.'' \<notin> set (show_v6 a)"
    using assms(2) z by (simp add: show_v6_def)
  show "read_ipv6_addr (show_v6 a) = Some (a, [])"
  proof (cases "1 < n")
    case False
    then have "show_v6 a = group_text 0 a []"
      using assms(2) z show_groups_text [of a "[]"] by (simp add: show_v6_def)
    then show ?thesis
      using read_groups_text [of "[]" a 8 0 "[]"] assms(1)
      by (simp add: read_ipv6_addr_def group_end_def)
  next
    case True
    let ?tl = "drop (k + n) a"
    let ?rest = "''::'' @ group_text 0 ?tl []"
    have s: "show_v6 a = group_text 0 (take k a) ?rest"
      using assms(2) z True show_groups_text [of ?tl "[]"] show_groups_text [of "take k a" ?rest]
      by (simp add: show_v6_def)
    have len: "k + n \<le> 8" using sp assms(1) by (simp add: span_in_def)
    have hd: "read_groups 8 0 [] (show_v6 a) = (take k a, False, ?rest)"
      unfolding s using read_groups_text [of ?rest "take k a" 8 0 "[]"] no_dot_group_text [of "[]" 0 ?tl] len
      by (simp add: group_end_def)
    have tl: "read_groups (7 - k) 0 [] (group_text 0 ?tl []) = (?tl, False, [])"
      using read_groups_text [of "[]" ?tl "7 - k" 0 "[]"] assms(1) len True by (simp add: group_end_def)
    have "take k a @ replicate (8 - k - length ?tl) 0 @ ?tl = a"
      using span_split [OF sp] assms(1) len by simp
    then show ?thesis
      using hd tl assms(1) len True by (simp add: read_ipv6_addr_def)
  qed
qed

text \<open>The mapped form.\<close>

lemma v4_groups_bytes: "v4_groups (V4 (high_byte s) (low_byte s) (high_byte t) (low_byte t)) = [s, t]"
  by (simp add: v4_groups_def segment_of_bytes)

lemma mapped_segments:
  assumes "length a = 8" "to_ipv4_mapped a = Some v"
  shows "a = [0, 0, 0, 0, 0, 0xffff] @ v4_groups v"
proof -
  have "take 6 a = [0, 0, 0, 0, 0, 0xffff]"
    and v: "v = V4 (high_byte (a ! 6)) (low_byte (a ! 6)) (high_byte (a ! 7)) (low_byte (a ! 7))"
    using assms(2) by (auto simp: to_ipv4_mapped_def split: if_splits)
  moreover have "drop 6 a = [a ! 6, a ! 7]"
    using assms(1) by (auto simp: numeral_eq_Suc length_Suc_conv)
  ultimately show ?thesis
    by (metis v4_groups_bytes append_take_drop_id)
qed

lemma read_hex_ffff:
  "read_number 16 4 True 65535 (''ffff'' @ CHR '':'' # s) = Some (65535, CHR '':'' # s)"
proof -
  have "takeWhile (is_digit 16) (''ffff'' @ CHR '':'' # s) = ''ffff''"
    by (intro takeWhile_digits) (code_simp, simp)
  moreover have "digits_value 16 ''ffff'' = 65535" by code_simp
  ultimately show ?thesis by (simp add: read_number_def)
qed

lemma read_quad_not_digit: "\<not> is_digit 10 c \<Longrightarrow> read_ipv4_addr (c # s) = None"
  by (simp add: read_ipv4_addr_def read_octet_def read_separator_def read_number_def)

lemma read_mapped:
  "read_ipv6_addr (''::ffff:'' @ show_v4 v) = Some ([0, 0, 0, 0, 0, 0xffff] @ v4_groups v, [])"
proof -
  have f: "\<not> is_digit 10 (CHR ''f'')" by code_simp
  have c: "\<not> is_digit 10 (CHR '':'')" by simp
  have "read_groups 8 0 [] (''::ffff:'' @ show_v4 v) = ([], False, ''::ffff:'' @ show_v4 v)"
    using read_quad_not_digit [OF c]
    by (intro read_groups_none) (simp_all add: read_separator_def read_nothing)
  moreover have "read_groups 7 0 [] (''ffff:'' @ show_v4 v) = ([0xffff] @ v4_groups v, True, [])"
  proof -
    have "read_groups 7 0 [] (''ffff:'' @ show_v4 v) =
        read_groups 6 (Suc 0) ([] @ [of_nat 65535]) ('':'' @ show_v4 v)"
      using read_quad_not_digit [OF f] read_hex_ffff [of "show_v4 v"]
      by (intro read_groups_hex) (simp_all add: read_separator_def)
    also have "\<dots> = (([] @ [of_nat 65535]) @ v4_groups v, True, [])"
      using read_show_v4 [of "[]" v]
      by (intro read_groups_quad [of _ 5]) (simp_all add: read_separator_def)
    finally show ?thesis by simp
  qed
  moreover have "length (v4_groups v) = 2" by (cases v) (simp add: v4_groups_def)
  ultimately show ?thesis
    by (simp add: read_ipv6_addr_def numeral_eq_Suc)
qed

lemma read_ipv6_show: "length a = 8 \<Longrightarrow> read_ipv6_addr (show_v6 a) = Some (a, [])"
  using read_show_v6(1) [of a] mapped_segments [of a] read_mapped
  by (cases "to_ipv4_mapped a") (auto simp: show_v6_def)

lemma parse_show_v6: "length a = 8 \<Longrightarrow> parse_ipv6 (show_v6 a) = Some a"
  by (simp add: parse_ipv6_def read_ipv6_show)

lemma show_v6_not_quad: "length a = 8 \<Longrightarrow> read_ipv4_addr (show_v6 a) = None"
proof (cases "to_ipv4_mapped a")
  case (Some v)
  then show ?thesis
    using read_quad_not_digit [of "CHR '':''"] by (simp add: show_v6_def)
qed (simp add: read_show_v6 no_dot_no_quad)

lemma parse_ipv4_show_v6: "length a = 8 \<Longrightarrow> parse_ipv4 (show_v6 a) = None"
  by (simp add: parse_ipv4_def show_v6_not_quad)

subsection \<open>The parser of \<open>IpAddr\<close>\<close>

definition ip_ok :: "ip_addr \<Rightarrow> bool" where
  "ip_ok ip = (case ip of IpV4 _ \<Rightarrow> True | IpV6 a \<Rightarrow> length a = 8)"

lemma parse_show_ip: "ip_ok ip \<Longrightarrow> parse_ip_addr (show_ip ip) = Some ip"
  using read_show_v4 [of "[]"]
  by (cases ip) (auto simp: ip_ok_def parse_ip_addr_def read_ipv6_show show_v6_not_quad)

lemma read_octet_length: 
  "read_octet i s = Some (n, r) \<Longrightarrow> length s \<le> length r + (if 0 < i then 4 else 3)"
  by (auto simp: read_octet_def read_separator_def bind_eq_Some_conv read_given_Some read_number_def Let_def
      split: if_splits)

lemma read_quad_length: "read_ipv4_addr s = Some (v, r) \<Longrightarrow> length s \<le> length r + 15"
  by (auto simp: read_ipv4_addr_def bind_eq_Some_conv dest!: read_octet_length)

lemma parse_ip_addr_Some:
  assumes "parse_ip_addr s = Some ip"
  shows "case ip of IpV4 v \<Rightarrow> parse_ipv4 s = Some v
    | IpV6 a \<Rightarrow> parse_ipv4 s = None \<and> parse_ipv6 s = Some a"
  using assms read_quad_length [of s]
  by (auto simp: parse_ip_addr_def parse_ipv4_def parse_ipv6_def split: option.splits if_splits)

lemma parse_ip_addr_ok: "parse_ip_addr s = Some ip \<Longrightarrow> ip_ok ip"
  using read_ipv6_length [of s]
  by (auto simp: parse_ip_addr_def ip_ok_def split: option.splits if_splits)

end
