(* ===== verification/Net.thy ===== *)
theory Net
  imports Webid Ipaddr_Text
begin

section \<open>The guarded fetch: \<open>net.rs\<close>\<close>

text \<open>
  \<open>SafeFetcher::get\<close> with its hop loop, the classification of every resolved record, the pinned
  client of one HTTP hop and the bounded body read. The DNS resolver is the \<open>HostResolver\<close> the
  fetcher is generic over; \<open>reqwest\<close> and the worker thread are parameters that act on the world.
  A body is the sequence of reads of its stream, so its length is not known in advance.
\<close>

definition MAX_BODY_BYTES :: nat where
  "MAX_BODY_BYTES = 1024 * 1024"

definition DEFAULT_TIMEOUT :: nat where
  "DEFAULT_TIMEOUT = 10 * 10 ^ 9"

definition MAX_REDIRECTS :: nat where
  "MAX_REDIRECTS = 5"

record safe_response =
  response_body :: bytes
  final_url :: string

record safe_fetch_config =
  allow_loopback :: bool
  timeout :: nat
  max_body_bytes :: nat
  max_redirects :: nat
  nat64 :: nat64_policy

definition default_fetch_config :: safe_fetch_config where
  "default_fetch_config = \<lparr>allow_loopback = False, timeout = DEFAULT_TIMEOUT,
     max_body_bytes = MAX_BODY_BYTES, max_redirects = MAX_REDIRECTS, nat64 = strict\<rparr>"

type_synonym 'w host_resolver = "string \<Rightarrow> ('w, string, ip_addr list) io"

subsection \<open>One hop\<close>

type_synonym socket_addr = "ip_addr \<times> nat"

record hop_request =
  hop_url :: string
  hop_host :: string
  hop_accept :: string
  hop_pinned :: "socket_addr list"
  hop_timeout :: nat
  hop_max_body :: nat

datatype hop_outcome = Redirect string | Body bytes

text \<open>The \<open>reqwest\<close> client as the settings \<open>run_http_hop\<close> gives it, and a response.\<close>

record client =
  follows_redirects :: bool
  uses_ambient_proxy :: bool
  client_timeout :: nat
  connect_timeout :: nat
  dns_overrides :: "(string \<times> socket_addr list) list"

record http_response =
  resp_status :: nat
  resp_location :: "string option"
  resp_content_length :: "nat option"
  resp_stream :: "(string + bytes) list"

record 'w http_crate =
  spawn_worker :: "('w, string, unit) io"
  build_client :: "client \<Rightarrow> string + unit"
  send_get :: "client \<Rightarrow> string \<Rightarrow> string \<Rightarrow> ('w, string, http_response) io"
  status_text :: "nat \<Rightarrow> string"

definition u64_max :: nat where
  "u64_max = 2 ^ 64 - 1"

text \<open>\<open>take(limit).read_to_end\<close>: reads stop at the limit, at the end, or at an error before it.\<close>

fun read_taken :: "nat \<Rightarrow> (string + bytes) list \<Rightarrow> string + bytes" where
  "read_taken limit [] = Inr []"
| "read_taken limit (r # rs) =
     (if limit = 0 then Inr []
      else case r of Inl e \<Rightarrow> Inl e
      | Inr chunk \<Rightarrow>
          (case read_taken (limit - length chunk) rs of
             Inl e \<Rightarrow> Inl e | Inr b \<Rightarrow> Inr (take limit chunk @ b)))"

definition read_bounded :: "(string + bytes) list \<Rightarrow> nat \<Rightarrow> (string, bytes) outcome" where
  "read_bounded stream max_len =
     (let limit = min (max_len + 1) u64_max in
      and_then (map_err (\<lambda>e. ''body read failed: '' @ e) (of_sum (read_taken limit stream))) (\<lambda>buf.
        if max_len < length buf then Err ''response body exceeds the size cap.'' else Ok buf))"

definition hop_client :: "hop_request \<Rightarrow> client" where
  "hop_client req = \<lparr>follows_redirects = False, uses_ambient_proxy = False,
     client_timeout = hop_timeout req, connect_timeout = hop_timeout req,
     dns_overrides = [(hop_host req, hop_pinned req)]\<rparr>"

definition run_http_hop :: "'w http_crate \<Rightarrow> hop_request \<Rightarrow> ('w, string, hop_outcome) io" where
  "run_http_hop H req =
     io_bind (lift (map_err (\<lambda>e. ''HTTP client build failed: '' @ e)
                      (of_sum (build_client H (hop_client req))))) (\<lambda>_.
     io_bind (io_map_err (\<lambda>e. ''request failed: '' @ e)
                (send_get H (hop_client req) (hop_url req) (hop_accept req))) (\<lambda>resp. lift (
       if 300 \<le> resp_status resp \<and> resp_status resp \<le> 399 then
         (case resp_location resp of
            None \<Rightarrow> Err ''redirect without a Location header.''
          | Some location \<Rightarrow> Ok (Redirect location))
       else if \<not> (200 \<le> resp_status resp \<and> resp_status resp \<le> 299) then
         Err (''upstream returned HTTP '' @ status_text H (resp_status resp) @ ''.'')
       else if (case resp_content_length resp of Some len \<Rightarrow> hop_max_body req < len | None \<Rightarrow> False)
       then Err ''response body exceeds the size cap.''
       else and_then (read_bounded (resp_stream resp) (hop_max_body req)) (\<lambda>b. Ok (Body b)))))"

definition http_hop_off_runtime :: "'w http_crate \<Rightarrow> hop_request \<Rightarrow> ('w, string, hop_outcome) io" where
  "http_hop_off_runtime H req =
     io_bind (io_map_err (\<lambda>e. ''HTTP worker thread spawn failed: '' @ e) (spawn_worker H)) (\<lambda>_ w.
       case run_http_hop H req w of
         (Panic, w') \<Rightarrow> (Err ''HTTP worker thread panicked.'', w')
       | (r, w') \<Rightarrow> (r, w'))"

subsection \<open>The fetch\<close>

fun classify_records ::
  "'u url_crate \<Rightarrow> safe_fetch_config \<Rightarrow> 'u \<Rightarrow> ip_addr list \<Rightarrow> (string, unit) outcome" where
  "classify_records U cfg parsed [] = Ok ()"
| "classify_records U cfg parsed (ip # ips) =
     and_then (classify_resolved_address_with_nat64 U (show_ip ip) parsed (allow_loopback cfg) (nat64 cfg))
       (\<lambda>_. classify_records U cfg parsed ips)"

definition pinned_addresses ::
  "'u url_crate \<Rightarrow> 'w host_resolver \<Rightarrow> safe_fetch_config \<Rightarrow> 'u \<Rightarrow> string \<Rightarrow> ('w, string, ip_addr list) io" where
  "pinned_addresses U resolve_host cfg parsed host =
     (case parse_ip_addr host of
        Some ip \<Rightarrow> lift (Ok [ip])
      | None \<Rightarrow>
          io_bind (resolve_host host) (\<lambda>records. lift (
            if records = [] then Err ''host did not resolve to any address.''
            else and_then (classify_records U cfg parsed records) (\<lambda>_. Ok records))))"

text \<open>The loop of \<open>get\<close>; the first number is the hops still allowed.\<close>

fun get_hops ::
  "'u url_crate \<Rightarrow> 'w host_resolver \<Rightarrow> 'w http_crate \<Rightarrow> safe_fetch_config \<Rightarrow> string \<Rightarrow> nat \<Rightarrow> string
   \<Rightarrow> ('w, string, safe_response) io" where
  "get_hops U resolve_host H cfg accept 0 current = lift (Err ''too many redirects.'')"
| "get_hops U resolve_host H cfg accept (Suc hops) current =
     io_bind (lift (ssrf_gate_static_with_nat64 U current (allow_loopback cfg) (nat64 cfg))) (\<lambda>_.
     io_bind (lift (ok_or (url_parse U current) ''URL is malformed.'')) (\<lambda>parsed.
     io_bind (lift (ok_or (map_option strip_brackets (url_host_str U parsed)) ''URL has no host.'')) (\<lambda>host.
     io_bind (pinned_addresses U resolve_host cfg parsed host) (\<lambda>pinned.
     io_bind (lift (ok_or (url_port_or_known_default U parsed) ''URL has no usable port.'')) (\<lambda>port.
     io_bind (http_hop_off_runtime H
                \<lparr>hop_url = url_to_string U parsed, hop_host = host, hop_accept = accept,
                 hop_pinned = map (\<lambda>ip. (ip, port)) pinned, hop_timeout = timeout cfg,
                 hop_max_body = max_body_bytes cfg\<rparr>) (\<lambda>outcome.
       case outcome of
         Redirect location \<Rightarrow>
           io_bind (lift (ok_or (url_join U parsed location) ''redirect Location is malformed.''))
             (\<lambda>next. get_hops U resolve_host H cfg accept hops (url_to_string U next))
       | Body body \<Rightarrow> lift (Ok \<lparr>response_body = body, final_url = url_to_string U parsed\<rparr>)))))))"

definition get ::
  "'u url_crate \<Rightarrow> 'w host_resolver \<Rightarrow> 'w http_crate \<Rightarrow> safe_fetch_config \<Rightarrow> string \<Rightarrow> string
   \<Rightarrow> ('w, string, safe_response) io" where
  "get U resolve_host H cfg url accept =
     get_hops U resolve_host H cfg accept (max_redirects cfg + 1) url"

subsection \<open>Addresses by value\<close>

definition is_public_ip :: "ip_addr \<Rightarrow> bool \<Rightarrow> nat64_policy \<Rightarrow> bool" where
  "is_public_ip ip al pol =
     (case ip of IpV4 v \<Rightarrow> is_public_ipv4 v al | IpV6 a \<Rightarrow> is_public_ipv6 a al pol)"

definition is_loopback_ip :: "ip_addr \<Rightarrow> bool" where
  "is_loopback_ip ip =
     (case ip of IpV4 v \<Rightarrow> octets v ! 0 = 127
      | IpV6 a \<Rightarrow> if a = LOCALHOST then True
                 else (case to_ipv4_mapped a of Some v \<Rightarrow> octets v ! 0 = 127 | None \<Rightarrow> False))"

lemma shown_address:
  assumes "ip_ok ip"
  shows "is_public_address_with_nat64 (show_ip ip) al pol = is_public_ip ip al pol"
    "is_loopback_address (show_ip ip) = is_loopback_ip ip"
  using assms
  by (cases ip; simp add: ip_ok_def is_public_address_with_nat64_def is_loopback_address_def
      is_public_ip_def is_loopback_ip_def parse_show_v4 parse_ipv4_show_v6 parse_show_v6)+

lemma literal_address:
  assumes "parse_ip_addr h = Some ip"
  shows "is_literal h" "is_public_address_with_nat64 h al pol = is_public_ip ip al pol"
    "is_loopback_address h = is_loopback_ip ip"
  using parse_ip_addr_Some [OF assms]
  by (cases ip; simp add: is_literal_def is_public_address_with_nat64_def is_loopback_address_def
      is_public_ip_def is_loopback_ip_def)+

text \<open>The policy of one address under the fetcher's configuration, and of all of them.\<close>

definition address_allowed :: "'u url_crate \<Rightarrow> safe_fetch_config \<Rightarrow> 'u \<Rightarrow> ip_addr \<Rightarrow> bool" where
  "address_allowed U cfg parsed ip \<longleftrightarrow>
     is_public_ip ip (allow_loopback cfg) (nat64 cfg)
     \<and> (url_scheme U parsed = ''http'' \<and> allow_loopback cfg \<longrightarrow> is_loopback_ip ip)"

lemma classify_records_Ok:
  "list_all ip_ok ips \<Longrightarrow>
     classify_records U cfg parsed ips = Ok () \<longleftrightarrow> list_all (address_allowed U cfg parsed) ips"
  by (induction ips) (auto simp: outcome_simps address_allowed_def shown_address)

text \<open>What the resolver must deliver for its records to be addresses: eight segments in an IPv6 one.\<close>

definition resolver_typed :: "'w host_resolver \<Rightarrow> bool" where
  "resolver_typed resolve_host \<longleftrightarrow>
     (\<forall>h w ips w'. resolve_host h w = (Ok ips, w') \<longrightarrow> list_all ip_ok ips)"

lemma pinned_allowed:
  assumes "resolver_typed resolve_host"
    and "ssrf_gate_static_with_nat64 U raw (allow_loopback cfg) (nat64 cfg) = Ok ()"
    and "url_parse U raw = Some parsed" "map_option strip_brackets (url_host_str U parsed) = Some host"
    and "returns (pinned_addresses U resolve_host cfg parsed host) ips"
  shows "ips \<noteq> [] \<and> list_all (address_allowed U cfg parsed) ips"
proof (cases "parse_ip_addr host")
  case (Some ip)
  then have "ips = [ip]" using assms(5) by (simp add: pinned_addresses_def)
  moreover have "address_allowed U cfg parsed ip"
    using assms(2-4) literal_address [OF Some]
    by (auto simp: gate_Ok_iff classify_Ok_iff address_allowed_def)
  ultimately show ?thesis by simp
next
  case None
  then obtain w w1 where "resolve_host host w = (Ok ips, w1)" "ips \<noteq> []"
      "classify_records U cfg parsed ips = Ok ()"
    using assms(5) by (auto simp: pinned_addresses_def returns_def outcome_simps split: if_splits)
  then show ?thesis
    using assms(1) classify_records_Ok by (metis resolver_typed_def)
qed

subsection \<open>Every request that leaves\<close>

definition egress_ok :: "'u url_crate \<Rightarrow> safe_fetch_config \<Rightarrow> client \<Rightarrow> string \<Rightarrow> bool" where
  "egress_ok U cfg c url \<longleftrightarrow>
     \<not> follows_redirects c \<and> \<not> uses_ambient_proxy c
     \<and> client_timeout c = timeout cfg \<and> connect_timeout c = timeout cfg
     \<and> (\<exists>raw parsed host addrs.
          url_parse U raw = Some parsed \<and> url = url_to_string U parsed
          \<and> (url_scheme U parsed = ''https'' \<or> url_scheme U parsed = ''http'' \<and> allow_loopback cfg)
          \<and> \<not> has_userinfo U parsed
          \<and> map_option strip_brackets (url_host_str U parsed) = Some host
          \<and> dns_overrides c = [(host, addrs)] \<and> addrs \<noteq> []
          \<and> list_all (\<lambda>(ip, port). address_allowed U cfg parsed ip
              \<and> url_port_or_known_default U parsed = Some port) addrs)"

lemma hop_preserves:
  assumes "preserves I (spawn_worker H)"
    and "preserves I (send_get H (hop_client req) (hop_url req) (hop_accept req))"
  shows "preserves I (http_hop_off_runtime H req)"
proof -
  have "preserves I (run_http_hop H req)"
    unfolding run_http_hop_def by (intro io_rules assms(2))
  then have "preserves I (\<lambda>w. case run_http_hop H req w of
      (Panic, w') \<Rightarrow> (Err ''HTTP worker thread panicked.'', w') | (r, w') \<Rightarrow> (r, w'))"
    by (auto simp: preserves_def split: prod.splits outcome.splits)
  then show ?thesis
    unfolding http_hop_off_runtime_def by (intro io_rules assms(1))
qed

lemma get_hops_preserves:
  assumes "resolver_typed resolve_host"
    and "\<And>h. preserves I (resolve_host h)" "preserves I (spawn_worker H)"
    and "\<And>c u a. egress_ok U cfg c u \<Longrightarrow> preserves I (send_get H c u a)"
  shows "preserves I (get_hops U resolve_host H cfg accept n current)"
proof (induction n arbitrary: current)
  case (Suc n)
  have pin: "preserves I (pinned_addresses U resolve_host cfg p h)" for p h
    unfolding pinned_addresses_def by (auto split: option.split intro!: io_rules assms(2))
  have hop: "preserves I (http_hop_off_runtime H
      \<lparr>hop_url = url_to_string U p, hop_host = h, hop_accept = accept,
       hop_pinned = map (\<lambda>ip. (ip, port)) ips, hop_timeout = timeout cfg,
       hop_max_body = max_body_bytes cfg\<rparr>)"
    if g: "ssrf_gate_static_with_nat64 U current (allow_loopback cfg) (nat64 cfg) = Ok ()"
      and p: "url_parse U current = Some p"
      and h: "map_option strip_brackets (url_host_str U p) = Some h"
      and ips: "returns (pinned_addresses U resolve_host cfg p h) ips"
      and port: "url_port_or_known_default U p = Some port" for p h ips port
  proof (rule hop_preserves [OF assms(3)], rule assms(4))
    let ?req = "\<lparr>hop_url = url_to_string U p, hop_host = h, hop_accept = accept,
       hop_pinned = map (\<lambda>ip. (ip, port)) ips, hop_timeout = timeout cfg,
       hop_max_body = max_body_bytes cfg\<rparr>"
    have "url_scheme U p = ''https'' \<or> url_scheme U p = ''http'' \<and> allow_loopback cfg"
      "\<not> has_userinfo U p"
      using g p by (auto simp: gate_Ok_iff)
    then show "egress_ok U cfg (hop_client ?req) (hop_url ?req)"
      using pinned_allowed [OF assms(1) g p h ips] p h port
      unfolding egress_ok_def
      by (intro conjI exI [of _ current] exI [of _ p] exI [of _ h]
          exI [of _ "map (\<lambda>ip. (ip, port)) ips"])
        (simp_all add: hop_client_def list_all_iff)
  qed
  show ?case
    unfolding get_hops.simps
    by (intro io_rules; (auto simp: outcome_simps intro: pin hop; fail)?)
      (auto simp: outcome_simps split: hop_outcome.split intro!: io_rules Suc.IH)
qed (simp add: preserves_lift)

subsection \<open>Concrete networks for the witnesses\<close>

text \<open>The world is the log of the requests sent; names and pages come from tables.\<close>

type_synonym net_log = "(client \<times> string) list"

definition table_resolver :: "(string \<times> ip_addr list) list \<Rightarrow> net_log host_resolver" where
  "table_resolver table h = lift (ok_or (map_of table h) ''no such host'')"

definition table_http :: "(string \<times> http_response) list \<Rightarrow> net_log http_crate" where
  "table_http pages =
     \<lparr>spawn_worker = lift (Ok ()), build_client = (\<lambda>_. Inr ()),
      send_get = (\<lambda>c u a w. (ok_or (map_of pages u) ''connection refused'', (c, u) # w)),
      status_text = show_nat\<rparr>"

definition page :: "string \<Rightarrow> http_response" where
  "page body = \<lparr>resp_status = 200, resp_location = None, resp_content_length = None,
     resp_stream = [Inr body]\<rparr>"

definition moved :: "string \<Rightarrow> http_response" where
  "moved to = \<lparr>resp_status = 302, resp_location = Some to, resp_content_length = None, resp_stream = []\<rparr>"

lemma table_resolver_rules [simp]:
  "preserves I (table_resolver t h)" "costs f 0 (table_resolver t h)"
  by (simp_all add: table_resolver_def io_rules)

lemma table_resolver_typed:
  "list_all (\<lambda>(h, ips). list_all ip_ok ips) t \<Longrightarrow> resolver_typed (table_resolver t)"
  by (fastforce simp: resolver_typed_def table_resolver_def outcome_simps list_all_iff dest: map_of_SomeD)

lemma table_http_rules [simp]:
  "preserves I (spawn_worker (table_http t))" "costs f 0 (spawn_worker (table_http t))"
  "costs length (Suc 0) (send_get (table_http t) c u a)"
  by (simp_all add: table_http_def io_rules costs_def)

definition sample_names :: "(string \<times> ip_addr list) list" where
  "sample_names = [(''a.example'', [IpV4 (V4 8 8 8 8)]), (''b.example'', [IpV4 (V4 8 8 8 8), IpV4 (V4 10 0 0 1)])]"

definition sample_pages :: "(string \<times> http_response) list" where
  "sample_pages = [(''https://a.example/x'', moved ''/y''), (''https://a.example/x/y'', page ''doc'')]"

abbreviation sample_get :: "(net_log, string, safe_response) io" where
  "sample_get \<equiv> get sample_url_crate (table_resolver sample_names) (table_http sample_pages)
     default_fetch_config ''https://a.example/x'' ''text/plain''"

subsection \<open>The guarantees of a fetch\<close>

text \<open>C13: Nothing leaves the guarded fetch but guarded requests. Whatever the resolver answers and
  wherever the servers redirect, any property of the world survives a fetch if the resolver, the
  worker thread and every request of the following kind keep it: a request sent by a client that
  follows no redirect and uses no ambient proxy, has the configured timeouts, to a URL of an allowed
  scheme without userinfo, with its host pinned to a non-empty list of addresses every one of which
  is public (and a loopback address for \<open>http\<close>).\<close>

theorem get_sends_only_guarded_requests:
  assumes "resolver_typed resolve_host"
    and "\<And>h. preserves I (resolve_host h)" and "preserves I (spawn_worker H)"
    and "\<And>c u a. egress_ok U cfg c u \<Longrightarrow> preserves I (send_get H c u a)"
    and "I w" and "get U resolve_host H cfg url accept w = (r, w')"
  shows "I w'"
  using get_hops_preserves [OF assms(1-4)] assms(5,6)
  unfolding get_def preserves_def by blast

theorem get_sends_only_guarded_requests_witness:
  "list_all (\<lambda>(c, u). egress_ok sample_url_crate default_fetch_config c u) (snd (sample_get []))"
    (is "?I (snd ?g)")
proof (rule get_sends_only_guarded_requests [where I = ?I and w = "[]" and r = "fst ?g"])
  show "resolver_typed (table_resolver sample_names)"
    by (rule table_resolver_typed) (simp add: sample_names_def ip_ok_def)
  show "preserves ?I (send_get (table_http sample_pages) c u a)"
    if "egress_ok sample_url_crate default_fetch_config c u" for c u a
    using that by (simp add: table_http_def preserves_def)
qed simp_all

text \<open>C35: A fetch sends at most one request more than the redirects allowed, whatever the servers
  answer.\<close>

theorem get_request_bound:
  assumes "\<And>h. costs f 0 (resolve_host h)" and "costs f 0 (spawn_worker H)"
    and "\<And>c u a. costs f 1 (send_get H c u a)"
    and "get U resolve_host H cfg url accept w = (r, w')"
  shows "f w' \<le> f w + max_redirects cfg + 1"
proof -
  have pin: "costs f 0 (pinned_addresses U resolve_host cfg p h)" for p h
    unfolding pinned_addresses_def by (auto split: option.split intro!: io_rules assms(1))
  have send: "costs f 1 (io_bind (io_map_err g (send_get H c u a)) (\<lambda>x. lift (m x)))" for g c u a m
    using costs_bind [OF costs_map_err [OF assms(3)] costs_lift] by simp
  have run: "costs f 1 (run_http_hop H req)" for req
    unfolding run_http_hop_def by (rule costs_free [OF costs_lift send])
  have hop: "costs f 1 (http_hop_off_runtime H req)" for req
    unfolding http_hop_off_runtime_def
    using run [of req]
    by (intro io_rules assms(2)) (auto simp: costs_def split: prod.splits outcome.splits)
  have "costs f n (get_hops U resolve_host H cfg accept n current)" for n current
  proof (induction n arbitrary: current)
    case (Suc n)
    have "costs f (1 + n) (get_hops U resolve_host H cfg accept (Suc n) current)"
      unfolding get_hops.simps
      by (intro costs_free costs_lift pin costs_bind [OF hop])
        (auto split: hop_outcome.split intro!: io_rules Suc.IH intro: costs_mono [OF costs_lift])
    then show ?case by simp
  qed (simp add: costs_lift)
  then show ?thesis
    using assms(4) unfolding get_def costs_def by fastforce
qed

theorem get_request_bound_witness: "length (snd (sample_get [])) \<le> 6"
  using get_request_bound [where f = length and w = "[]" and r = "fst (sample_get [])" and w' = "snd (sample_get [])",
      of "table_resolver sample_names" "table_http sample_pages" sample_url_crate default_fetch_config
         "''https://a.example/x''" "''text/plain''"]
  by (simp add: default_fetch_config_def MAX_REDIRECTS_def)

subsection \<open>The body\<close>

lemma read_taken_length: "read_taken n rs = Inr b \<Longrightarrow> length b \<le> n"
proof (induction n rs arbitrary: b rule: read_taken.induct)
  case (2 limit r rs)
  show ?case
  proof (cases "limit = 0")
    case False
    then obtain chunk d where r: "r = Inr chunk" and d: "read_taken (limit - length chunk) rs = Inr d"
        "b = take limit chunk @ d"
      using 2(2) by (auto split: sum.splits)
    have "length d \<le> limit - length chunk"
      using 2(1) [OF False r d(1)] .
    then show ?thesis using d(2) by simp
  qed (use 2 in simp)
qed simp

lemma read_bounded_length: "read_bounded stream m = Ok b \<Longrightarrow> length b \<le> m"
  by (auto simp: read_bounded_def Let_def outcome_simps split: if_splits)

lemma bind_last: "io_bind m f w = (Ok y, w') \<Longrightarrow> (\<And>x w1. f x w1 = (Ok y, w') \<Longrightarrow> P) \<Longrightarrow> P"
  by (auto simp: outcome_simps)

lemma run_body_length:
  assumes "run_http_hop H req w = (Ok (Body b), w')"
  shows "length b \<le> hop_max_body req"
proof -
  have "read_bounded (resp_stream resp) (hop_max_body req) = Ok b"
    if "and_then (read_bounded (resp_stream resp) (hop_max_body req)) (\<lambda>b. Ok (Body b)) = Ok (Body b)" for resp
    using that by (simp add: outcome_simps)
  then show ?thesis
    using assms unfolding run_http_hop_def
    by (elim bind_last) (auto simp del: and_then_iffs split: if_splits option.splits dest: read_bounded_length)
qed

lemma hop_body_length:
  assumes "http_hop_off_runtime H req w = (Ok (Body b), w')"
  shows "length b \<le> hop_max_body req"
  using assms unfolding http_hop_off_runtime_def
  by (elim bind_last) (auto split: prod.splits outcome.splits dest: run_body_length)

text \<open>C36: A successful fetch returns at most the configured number of body bytes, whatever length
  the server announces or streams, and its final URL is one that passed the gate.\<close>

theorem get_body_bounded:
  assumes "get U resolve_host H cfg url accept w = (Ok resp, w')"
  shows "length (response_body resp) \<le> max_body_bytes cfg
    \<and> (\<exists>raw parsed. ssrf_gate_static_with_nat64 U raw (allow_loopback cfg) (nat64 cfg) = Ok ()
         \<and> url_parse U raw = Some parsed \<and> final_url resp = url_to_string U parsed)"
proof -
  have "get_hops U resolve_host H cfg accept n current w = (Ok resp, w') \<Longrightarrow> ?thesis" for n current w
  proof (induction n arbitrary: current w)
    case (Suc n)
    then obtain parsed host pinned port outcome w1 w2 where
      g: "ssrf_gate_static_with_nat64 U current (allow_loopback cfg) (nat64 cfg) = Ok ()"
        "url_parse U current = Some parsed" and
      hop: "http_hop_off_runtime H
        \<lparr>hop_url = url_to_string U parsed, hop_host = host, hop_accept = accept,
         hop_pinned = map (\<lambda>ip. (ip, port)) pinned, hop_timeout = timeout cfg,
         hop_max_body = max_body_bytes cfg\<rparr> w1 = (Ok outcome, w2)" and
      rest: "(case outcome of
         Redirect location \<Rightarrow>
           io_bind (lift (ok_or (url_join U parsed location) ''redirect Location is malformed.''))
             (\<lambda>next. get_hops U resolve_host H cfg accept n (url_to_string U next))
       | Body body \<Rightarrow> lift (Ok \<lparr>response_body = body, final_url = url_to_string U parsed\<rparr>)) w2
       = (Ok resp, w')"
      unfolding get_hops.simps io_bind_iffs(1) lift_apply prod.inject ok_or_iffs(1)
      by (elim exE conjE) simp
    show ?case
    proof (cases outcome)
      case (Redirect location)
      then show ?thesis using rest Suc.IH by (auto simp: outcome_simps)
    next
      case (Body body)
      then show ?thesis using rest g hop_body_length [OF hop [unfolded Body]] by auto
    qed
  qed simp
  then show ?thesis using assms unfolding get_def by blast
qed

theorem get_body_bounded_witness: "length ''doc'' \<le> max_body_bytes default_fetch_config"
proof -
  have "fst (sample_get []) = Ok \<lparr>response_body = ''doc'', final_url = ''https://a.example/x/y''\<rparr>"
    by code_simp
  then have "sample_get [] = (Ok \<lparr>response_body = ''doc'', final_url = ''https://a.example/x/y''\<rparr>,
      snd (sample_get []))"
    by (rule pair_of_fst)
  from get_body_bounded [OF this] show ?thesis by simp
qed

text \<open>C40: One refused record refuses the request: if any address a name resolves to is not public,
  the fetch of that URL is an error and nothing is sent, whatever public addresses come with it.\<close>

theorem mixed_records_refused:
  assumes "ssrf_gate_static_with_nat64 U url (allow_loopback cfg) (nat64 cfg) = Ok ()"
    and "url_parse U url = Some parsed" and "url_host_str U parsed = Some h"
    and "parse_ip_addr (strip_brackets h) = None"
    and "resolve_host (strip_brackets h) w = (Ok ips, w1)" and "list_all ip_ok ips"
    and "ip \<in> set ips" and "\<not> is_public_ip ip (allow_loopback cfg) (nat64 cfg)"
  shows "\<exists>e. get U resolve_host H cfg url accept w = (Err e, w1)"
proof -
  have "classify_records U cfg parsed ips \<noteq> Ok ()"
    using assms(6-8) by (auto simp: classify_records_Ok list_all_iff address_allowed_def)
  moreover have "classify_records U cfg parsed ips \<noteq> Panic"
    by (induction ips) (auto simp: outcome_simps classify_resolved_address_with_nat64_def)
  ultimately obtain e where e: "classify_records U cfg parsed ips = Err e"
    by (cases "classify_records U cfg parsed ips") auto
  have "ips \<noteq> []" using assms(7) by auto
  then have "pinned_addresses U resolve_host cfg parsed (strip_brackets h) w = (Err e, w1)"
    using assms(4,5) e by (simp add: pinned_addresses_def io_bind_def)
  then show ?thesis
    using assms(1-3) by (simp add: get_def io_bind_def)
qed

theorem mixed_records_refused_witness:
  "\<exists>e. get sample_url_crate (table_resolver sample_names) (table_http []) default_fetch_config
     ''https://b.example/x'' ''text/plain'' [] = (Err e, [])"
  by (rule mixed_records_refused [where parsed = "(''https'', [], ''b.example'', ''/x'')"
        and h = "''b.example''" and ips = "[IpV4 (V4 8 8 8 8), IpV4 (V4 10 0 0 1)]"
        and ip = "IpV4 (V4 10 0 0 1)"]) code_simp+

end
