(* ===== verification/Providers.thy ===== *)
theory Providers
  imports Config Net
begin

section \<open>The network-backed provider and resolver: \<open>config.rs\<close>, \<open>webid.rs\<close>\<close>

text \<open>
  \<open>NetworkJwksProvider\<close>: OIDC discovery, the JWKS fetch and parser, and the cache behind its
  mutex; \<open>NetworkWebIdResolver\<close>. Both reach the network through \<open>get\<close> of theory \<open>Net\<close> only. The
  provider's world is the network together with the cache; \<open>instant_now\<close> reads the monotonic
  clock of the network's world.
\<close>

subsection \<open>Discovery and key sets\<close>

definition ends_with_slash :: "string \<Rightarrow> bool" where
  "ends_with_slash s \<longleftrightarrow> s \<noteq> [] \<and> last s = CHR ''/''"

definition join_well_known :: "'u url_crate \<Rightarrow> string \<Rightarrow> string option" where
  "join_well_known U issuer =
     (case url_parse U issuer of
        None \<Rightarrow> None
      | Some base0 \<Rightarrow>
          if url_scheme U base0 \<noteq> ''https'' \<and> url_scheme U base0 \<noteq> ''http'' then None
          else
            (let base = (if \<not> ends_with_slash (url_path U base0)
                         then url_set_path U (url_path U base0 @ ''/'') base0 else base0)
             in map_option (url_to_string U) (url_join U base ''.well-known/openid-configuration'')))"

definition MAX_KEYS :: nat where
  "MAX_KEYS = 64"

text \<open>The loop over the entries: one that does not deserialise or is no public key is skipped.\<close>

fun usable_keys :: "('k, 'p, 's) crates \<Rightarrow> json list \<Rightarrow> jwk list" where
  "usable_keys E [] = []"
| "usable_keys E (entry # rest) =
     (case jwk_from_value E entry of
        None \<Rightarrow> usable_keys E rest
      | Some k \<Rightarrow> if is_symmetric k \<or> has_private_material k then usable_keys E rest
                  else k # usable_keys E rest)"

definition parse_jwks :: "('k, 'p, 's) crates \<Rightarrow> bytes \<Rightarrow> (string, jwk list) outcome" where
  "parse_jwks E body =
     and_then (ok_or (json_parse E body) ''JWKS is not valid JSON.'') (\<lambda>doc.
     and_then (ok_or (Option.bind (value_get doc ''keys'') as_array) ''JWKS has no `keys` array.'') (\<lambda>arr.
       if MAX_KEYS < length arr then Err ''JWKS contains too many keys.''
       else (let keys = usable_keys E arr in
             if keys = [] then Err ''JWKS contained no usable public keys.'' else Ok keys)))"

text \<open>\<open>fetch_keys\<close>, over the fetch \<open>g\<close> of the provider's fetcher.\<close>

definition fetch_keys ::
  "('k, 'p, 's) crates \<Rightarrow> 'u url_crate \<Rightarrow> (string \<Rightarrow> string \<Rightarrow> ('w, string, safe_response) io)
   \<Rightarrow> string \<Rightarrow> ('w, string, jwk list) io" where
  "fetch_keys E U g issuer =
     io_bind (lift (ok_or (join_well_known U issuer) (''issuer is not a valid URL: '' @ issuer))) (\<lambda>discovery_url.
     io_bind (io_map_err (\<lambda>e. ''OIDC discovery failed: '' @ e) (g discovery_url ''application/json'')) (\<lambda>disc.
     io_bind (lift (ok_or (json_parse E (response_body disc))
                      ''OIDC discovery document is not valid JSON.'')) (\<lambda>doc.
     io_bind (lift (if Option.bind (value_get doc ''issuer'') as_str = Some issuer then Ok ()
                    else Err ''OIDC discovery issuer mismatch.'')) (\<lambda>_.
     io_bind (lift (ok_or (Option.bind (value_get doc ''jwks_uri'') as_str)
                      ''OIDC discovery document has no jwks_uri.'')) (\<lambda>jwks_uri.
     io_bind (io_map_err (\<lambda>e. ''JWKS fetch failed: '' @ e) (g jwks_uri ''application/json'')) (\<lambda>resp.
     lift (parse_jwks E (response_body resp))))))))"

subsection \<open>The cache\<close>

record 'w provider_world =
  net :: 'w
  cache :: "string \<rightharpoonup> jwk list \<times> nat"
  cache_poisoned :: bool

type_synonym 'w clock = "'w \<Rightarrow> nat \<times> 'w"

definition on_net :: "('w, 'e, 'a) io \<Rightarrow> ('w provider_world, 'e, 'a) io" where
  "on_net m pw = (case m (net pw) of (r, w') \<Rightarrow> (r, pw\<lparr>net := w'\<rparr>))"

text \<open>The first critical section: a fresh entry, if there is one.\<close>

definition cache_lookup ::
  "'w clock \<Rightarrow> nat \<Rightarrow> string \<Rightarrow> ('w provider_world, string, jwk list option) io" where
  "cache_lookup instant_now cache_ttl issuer pw =
     (if cache_poisoned pw then (Err ''JWKS cache mutex poisoned'', pw)
      else case cache pw issuer of
        None \<Rightarrow> (Ok None, pw)
      | Some (keys, at) \<Rightarrow>
          (case instant_now (net pw) of (now, w') \<Rightarrow>
             (Ok (if now - at < cache_ttl then Some keys else None), pw\<lparr>net := w'\<rparr>)))"

text \<open>The second one: nothing is stored when the mutex is poisoned.\<close>

definition cache_store ::
  "'w clock \<Rightarrow> string \<Rightarrow> jwk list \<Rightarrow> ('w provider_world, string, unit) io" where
  "cache_store instant_now issuer keys pw =
     (if cache_poisoned pw then (Ok (), pw)
      else case instant_now (net pw) of (now, w') \<Rightarrow>
        (Ok (), pw\<lparr>net := w', cache := (cache pw)(issuer \<mapsto> (keys, now))\<rparr>))"

definition network_keys_for ::
  "('k, 'p, 's) crates \<Rightarrow> 'u url_crate \<Rightarrow> (string \<Rightarrow> string \<Rightarrow> ('w, string, safe_response) io)
   \<Rightarrow> 'w clock \<Rightarrow> nat \<Rightarrow> 'w provider_world jwks_provider" where
  "network_keys_for E U g instant_now cache_ttl issuer =
     io_bind (cache_lookup instant_now cache_ttl issuer) (\<lambda>hit.
       case hit of
         Some keys \<Rightarrow> lift (Ok keys)
       | None \<Rightarrow>
           io_bind (on_net (fetch_keys E U g issuer)) (\<lambda>keys.
           io_bind (cache_store instant_now issuer keys) (\<lambda>_. lift (Ok keys))))"

definition with_fetcher :: "'w \<Rightarrow> 'w provider_world" where
  "with_fetcher w = \<lparr>net = w, cache = Map.empty, cache_poisoned = False\<rparr>"

subsection \<open>The WebID resolver\<close>

definition PROFILE_ACCEPT :: string where
  "PROFILE_ACCEPT = ''text/turtle, application/x-turtle;q=0.9, */*;q=0.1''"

definition network_resolve ::
  "'u url_crate \<Rightarrow> turtle_crate \<Rightarrow> (string \<Rightarrow> string \<Rightarrow> ('w, string, safe_response) io) \<Rightarrow> 'w webid_resolver" where
  "network_resolve U T g web_id =
     (let profile_url = canonicalise_profile_url U web_id in
      io_bind (io_map_err (\<lambda>e. ''WebID profile fetch failed: '' @ e) (g profile_url PROFILE_ACCEPT)) (\<lambda>resp.
      io_bind (lift (parse_oidc_issuers T (response_body resp) (final_url resp) web_id profile_url)) (\<lambda>is.
      lift (Ok \<lparr>issuers = is\<rparr>))))"

subsection \<open>What a parsed key set holds\<close>

lemma usable_keys_filter:
  "usable_keys E arr =
     filter (\<lambda>k. \<not> is_symmetric k \<and> \<not> has_private_material k) (List.map_filter (jwk_from_value E) arr)"
  by (induction arr) (auto simp: map_filter_simps split: option.splits)

lemma value_get_Some: "value_get v k = Some x \<longleftrightarrow> (\<exists>m. v = VObject m \<and> member m k = Some x)"
  by (cases v) auto

lemma as_array_Some: "as_array v = Some vs \<longleftrightarrow> v = VArray vs"
  by (cases v) auto

lemma parse_jwks_not_Panic [simp]: "parse_jwks E body \<noteq> Panic"
  by (auto simp: parse_jwks_def outcome_simps Let_def)

text \<open>A JWKS document yields keys exactly when it is a JSON object whose \<open>keys\<close> is an array of
  at most 64 entries with a usable one among them; the result is the entries that deserialise, in
  order, without the symmetric keys and those that carry private material.\<close>

theorem parse_jwks_iff:
  "parse_jwks E body = Ok ks \<longleftrightarrow>
     (\<exists>m arr. json_parse E body = Some (VObject m) \<and> member m ''keys'' = Some (VArray arr)
        \<and> length arr \<le> 64 \<and> ks \<noteq> []
        \<and> ks = filter (\<lambda>k. \<not> is_symmetric k \<and> \<not> has_private_material k)
                (List.map_filter (jwk_from_value E) arr))"
proof -
  have tail: "(if MAX_KEYS < length arr then Err ''JWKS contains too many keys.''
       else (let keys = usable_keys E arr in
             if keys = [] then Err ''JWKS contained no usable public keys.'' else Ok keys)) = Ok ks
     \<longleftrightarrow> length arr \<le> 64 \<and> ks \<noteq> [] \<and> ks = usable_keys E arr" for arr
    by (auto simp: Let_def MAX_KEYS_def)
  show ?thesis
    unfolding parse_jwks_def and_then_iffs(1) ok_or_iffs(1) tail
    by (auto simp: bind_eq_Some_conv value_get_Some as_array_Some usable_keys_filter)
qed

lemma parse_jwks_usable:
  "parse_jwks E body = Ok ks \<Longrightarrow> list_all (\<lambda>k. \<not> is_symmetric k \<and> \<not> has_private_material k) ks"
  by (auto simp: parse_jwks_def outcome_simps Let_def usable_keys_filter list_all_iff split: if_splits)

subsection \<open>The provider keeps its contract\<close>

text \<open>
  A key set the issuer published: its own discovery document, at the well-known URL below it, names
  the issuer itself and the place of the JWKS, and both documents came through the fetch.
\<close>

definition published ::
  "('k, 'p, 's) crates \<Rightarrow> 'u url_crate \<Rightarrow> (string \<Rightarrow> string \<Rightarrow> ('w, string, safe_response) io)
   \<Rightarrow> string \<Rightarrow> jwk list \<Rightarrow> bool" where
  "published E U g issuer ks \<longleftrightarrow>
     (\<exists>url disc doc jwks_uri resp.
        join_well_known U issuer = Some url \<and> returns (g url ''application/json'') disc
        \<and> json_parse E (response_body disc) = Some (VObject doc)
        \<and> str_claim doc ''issuer'' = Some issuer \<and> str_claim doc ''jwks_uri'' = Some jwks_uri
        \<and> returns (g jwks_uri ''application/json'') resp
        \<and> parse_jwks E (response_body resp) = Ok ks)"

lemma fetch_keys_published:
  assumes "fetch_keys E U g issuer w = (Ok ks, w')"
  shows "published E U g issuer ks"
proof -
  obtain url disc w1 doc jwks_uri w2 resp where
    "join_well_known U issuer = Some url" "g url ''application/json'' w = (Ok disc, w1)"
    and doc: "json_parse E (response_body disc) = Some doc"
      "Option.bind (value_get doc ''issuer'') as_str = Some issuer"
      "Option.bind (value_get doc ''jwks_uri'') as_str = Some jwks_uri"
    and "g jwks_uri ''application/json'' w1 = (Ok resp, w2)" "parse_jwks E (response_body resp) = Ok ks"
    using assms by (auto simp: fetch_keys_def outcome_simps split: if_splits)
  moreover obtain m where "doc = VObject m"
    using doc(2) by (cases doc) auto
  ultimately show ?thesis
    unfolding published_def returns_def by (fastforce simp: str_claim_def)
qed

definition cache_ok :: "(string \<Rightarrow> jwk list \<Rightarrow> bool) \<Rightarrow> 'w provider_world \<Rightarrow> bool" where
  "cache_ok P pw \<longleftrightarrow> (\<forall>issuer keys at. cache pw issuer = Some (keys, at) \<longrightarrow> P issuer keys)"

lemma on_net_iff:
  "on_net m pw = (r, pw') \<longleftrightarrow> (\<exists>w'. m (net pw) = (r, w') \<and> pw' = pw\<lparr>net := w'\<rparr>)"
  by (auto simp: on_net_def split: prod.splits)

lemma lookup_cases:
  assumes "cache_lookup clk ttl issuer pw = (r, pw')"
  shows "cache pw' = cache pw \<and> cache_poisoned pw' = cache_poisoned pw
    \<and> (r = Err ''JWKS cache mutex poisoned'' \<and> cache_poisoned pw \<or> r = Ok None
       \<or> (\<exists>keys at. r = Ok (Some keys) \<and> cache pw issuer = Some (keys, at)))"
  using assms by (auto simp: cache_lookup_def split: option.splits prod.splits if_splits)

lemma store_cases:
  "cache_store clk issuer keys pw = (r, pw') \<Longrightarrow>
     r = Ok () \<and> (cache pw' = cache pw \<or> (\<exists>now. cache pw' = (cache pw)(issuer \<mapsto> (keys, now))))"
  by (auto simp: cache_store_def split: prod.splits if_splits)

lemma network_keys_cases:
  assumes "network_keys_for E U g clk ttl issuer pw = (r, pw')"
  obtains (poisoned) "r = Err ''JWKS cache mutex poisoned''" "cache pw' = cache pw"
  | (hit) keys at where "r = Ok keys" "cache pw issuer = Some (keys, at)" "cache pw' = cache pw"
  | (fetched) keys w w1 where "r = Ok keys" "fetch_keys E U g issuer w = (Ok keys, w1)"
      "cache pw' = cache pw \<or> (\<exists>now. cache pw' = (cache pw)(issuer \<mapsto> (keys, now)))"
  | (failed) "\<nexists>keys. r = Ok keys" "cache pw' = cache pw"
proof -
  obtain q pw1 where l: "cache_lookup clk ttl issuer pw = (q, pw1)" by fastforce
  note lc = lookup_cases [OF l]
  show thesis
  proof (cases "q = Ok None")
    case True
    obtain f w1 where f: "fetch_keys E U g issuer (net pw1) = (f, w1)" by fastforce
    then have o: "on_net (fetch_keys E U g issuer) pw1 = (f, pw1\<lparr>net := w1\<rparr>)"
      by (simp add: on_net_iff)
    show thesis
    proof (cases f)
      case (Ok keys)
      obtain s pw2 where s: "cache_store clk issuer keys (pw1\<lparr>net := w1\<rparr>) = (s, pw2)" by fastforce
      then have "r = Ok keys" "pw' = pw2"
        using assms l True o Ok store_cases [OF s] by (auto simp: network_keys_for_def io_bind_def)
      then show thesis
        using fetched [of keys] f Ok store_cases [OF s] lc by auto
    qed (use assms l True o lc failed in \<open>auto simp: network_keys_for_def io_bind_def\<close>)
  next
    case False
    then show thesis
      using assms l lc poisoned hit by (auto simp: network_keys_for_def io_bind_def)
  qed
qed

interpretation network: jwks_provider "network_keys_for E U g clk ttl" "cache_ok (published E U g)"
    "published E U g" for E U g clk ttl
proof unfold_locales
  fix pw issuer r pw'
  assume ok: "cache_ok (published E U g) pw" and k: "network_keys_for E U g clk ttl issuer pw = (r, pw')"
  from k show "cache_ok (published E U g) pw'"
    by (cases rule: network_keys_cases)
      (use ok fetch_keys_published in \<open>fastforce simp: cache_ok_def split: if_splits\<close>)+
next
  fix pw issuer ks pw'
  assume ok: "cache_ok (published E U g) pw" and k: "network_keys_for E U g clk ttl issuer pw = (Ok ks, pw')"
  from k show "published E U g issuer ks"
    by (cases rule: network_keys_cases) (use ok fetch_keys_published in \<open>auto simp: cache_ok_def\<close>)
qed

text \<open>No mix-up of issuers, cached or not. After any sequence of calls on a new provider, the
  keys it returns for an issuer were published by that issuer: by the discovery document at the
  well-known URL below it, which names that same issuer, and the JWKS this document points to; none
  of them is symmetric or private.\<close>

theorem network_keys_published:
  assumes "provider_calls (network_keys_for E U g clk ttl) (with_fetcher w0) pw"
    and "network_keys_for E U g clk ttl issuer pw = (Ok ks, pw')"
  shows "published E U g issuer ks
    \<and> list_all (\<lambda>k. \<not> is_symmetric k \<and> \<not> has_private_material k) ks"
proof -
  have "cache_ok (published E U g) (with_fetcher w0)"
    by (simp add: cache_ok_def with_fetcher_def)
  then have "published E U g issuer ks"
    using assms network.keys_after_calls by blast
  then show ?thesis
    using parse_jwks_usable by (auto simp: published_def)
qed

text \<open>A world of documents for the witnesses.\<close>

definition sample_doc :: "string \<Rightarrow> json" where
  "sample_doc issuer = VObject [(''issuer'', VString issuer), (''jwks_uri'', VString ''https://idp/jwks'')]"

definition sample_keyset :: json where
  "sample_keyset = VObject [(''keys'', VArray
     [VObject [(''kty'', VString ''oct''), (''kid'', VString ''s'')], VNull,
      VObject [(''kty'', VString ''EC''), (''crv'', VString ''P-256''), (''x'', VString ''k''), (''y'', VString ''y'')]])]"

definition doc_table :: "(bytes \<times> json) list" where
  "doc_table = [(''disc'', sample_doc ''https://idp''), (''jwks'', sample_keyset)]"

definition doc_fetch :: "string \<Rightarrow> string \<Rightarrow> (nat, string, safe_response) io" where
  "doc_fetch url accept w =
     (map_err (\<lambda>e. e) (ok_or (map_option (\<lambda>b. \<lparr>response_body = b, final_url = url\<rparr>)
        (map_of [(''https://idp/.well-known/openid-configuration'', ''disc''), (''https://idp/jwks'', ''jwks'')] url))
        ''upstream returned HTTP 404.''), Suc w)"

abbreviation sample_network_keys :: "nat \<Rightarrow> nat provider_world jwks_provider" where
  "sample_network_keys ttl \<equiv> network_keys_for (sample_crates doc_table) sample_url_crate doc_fetch
     (\<lambda>w. (w, w)) ttl"

theorem network_keys_published_witness:
  "published (sample_crates doc_table) sample_url_crate doc_fetch ''https://idp'' [ec_jwk ''k'']"
proof -
  let ?call = "sample_network_keys 60 ''https://idp'' (with_fetcher 0)"
  have "fetch_keys (sample_crates doc_table) sample_url_crate doc_fetch ''https://idp'' 0 = (Ok [ec_jwk ''k''], 2)"
    by code_simp
  then have "fst ?call = Ok [ec_jwk ''k'']"
    by (simp add: network_keys_for_def cache_lookup_def cache_store_def on_net_def io_bind_def with_fetcher_def)
  then have "?call = (Ok [ec_jwk ''k''], snd ?call)" by (rule pair_of_fst)
  from network_keys_published [OF provider_calls.no_call this] show ?thesis by simp
qed

subsection \<open>The cache\<close>

text \<open>The cache hands out what it holds while it is fresh and fetches otherwise. A fresh entry
  is returned after one reading of the clock, with no other action on the network; a missing or
  stale one is fetched again, stored with the time at which it was received when the fetch succeeds,
  and left as it was when it fails, so no failure is cached and no stale entry served.\<close>

theorem network_keys_cache:
  assumes "\<not> cache_poisoned pw" and "instant_now (net pw) = (now, w1)"
  shows "network_keys_for E U g instant_now cache_ttl issuer pw =
    (case cache pw issuer of
       Some (keys, at) \<Rightarrow>
         if now - at < cache_ttl then (Ok keys, pw\<lparr>net := w1\<rparr>)
         else (case fetch_keys E U g issuer w1 of
                 (Ok ks, w2) \<Rightarrow> (case instant_now w2 of (received, w3) \<Rightarrow>
                    (Ok ks, pw\<lparr>net := w3, cache := (cache pw)(issuer \<mapsto> (ks, received))\<rparr>))
               | (Err e, w2) \<Rightarrow> (Err e, pw\<lparr>net := w2\<rparr>)
               | (Panic, w2) \<Rightarrow> (Panic, pw\<lparr>net := w2\<rparr>))
     | None \<Rightarrow>
         (case fetch_keys E U g issuer (net pw) of
            (Ok ks, w2) \<Rightarrow> (case instant_now w2 of (received, w3) \<Rightarrow>
               (Ok ks, pw\<lparr>net := w3, cache := (cache pw)(issuer \<mapsto> (ks, received))\<rparr>))
          | (Err e, w2) \<Rightarrow> (Err e, pw\<lparr>net := w2\<rparr>)
          | (Panic, w2) \<Rightarrow> (Panic, pw\<lparr>net := w2\<rparr>)))"
  using assms
  by (auto simp: network_keys_for_def cache_lookup_def cache_store_def on_net_def io_bind_def
      split: option.split prod.split outcome.split)

theorem network_keys_cache_witness:
  "sample_network_keys 60 ''https://idp'' \<lparr>net = 100, cache = [''https://idp'' \<mapsto> ([ec_jwk ''c''], 41)],
     cache_poisoned = False\<rparr>
   = (Ok [ec_jwk ''c''], \<lparr>net = 100, cache = [''https://idp'' \<mapsto> ([ec_jwk ''c''], 41)], cache_poisoned = False\<rparr>)"
  by (subst network_keys_cache [where now = 100 and ?w1.0 = 100]) simp_all

subsection \<open>The WebID resolver\<close>

text \<open>The issuers the network resolver reports are exactly those that the fetched profile
  document lists for the WebID itself or for its document: the document is fetched from the
  canonical URL of the WebID, every triple of it parsed, and nothing is reported when the fetch or
  the parse fails.\<close>

theorem network_resolve_iff:
  "network_resolve U T g web_id w = (Ok profile, w') \<longleftrightarrow>
     (\<exists>resp ts. g (canonicalise_profile_url U web_id) PROFILE_ACCEPT w = (Ok resp, w')
        \<and> turtle_results T (if base_iri_ok T (final_url resp) then Some (final_url resp) else None)
            (response_body resp) = map Inr ts
        \<and> issuers profile =
            {i. \<exists>t \<in> set ts. lists_issuer web_id (canonicalise_profile_url U web_id) i t})"
  by (cases profile)
    (auto simp: network_resolve_def Let_def outcome_simps parse_oidc_issuers_def collect_issuers_Ok)

subsection \<open>Guarded paths\<close>

lemma preserves_on_net:
  "preserves I m \<Longrightarrow> preserves (\<lambda>pw. I (net pw)) (on_net m)"
  by (auto simp: preserves_def on_net_def split: prod.splits)

lemma fetch_keys_preserves:
  "(\<And>u a. preserves I (g u a)) \<Longrightarrow> preserves I (fetch_keys E U g issuer)"
  unfolding fetch_keys_def by (intro io_rules)

lemma cache_preserves:
  assumes "\<And>w. I w \<Longrightarrow> I (snd (clk w))"
  shows "preserves (\<lambda>pw. I (net pw)) (cache_lookup clk ttl issuer)"
    "preserves (\<lambda>pw. I (net pw)) (cache_store clk issuer keys)"
  using assms
  by (fastforce simp: preserves_def cache_lookup_def cache_store_def
      split: option.splits prod.splits if_splits)+

text \<open>Discovery, key sets and WebID profiles have no way to the network but the guarded one.
  Whatever the documents say (a \<open>jwks_uri\<close> at a private host, a redirect, a hostile profile), any
  property of the network's world survives a call of the key provider and of the WebID resolver if
  the resolver, the worker thread, the clock and every guarded request keep it.\<close>

theorem providers_send_only_guarded_requests:
  assumes "resolver_typed resolve_host"
    and "\<And>h. preserves I (resolve_host h)" and "preserves I (spawn_worker H)"
    and "\<And>c u a. egress_ok U cfg c u \<Longrightarrow> preserves I (send_get H c u a)"
    and "\<And>w. I w \<Longrightarrow> I (snd (instant_now w))"
  shows "preserves (\<lambda>pw. I (net pw))
      (network_keys_for E U (get U resolve_host H cfg) instant_now cache_ttl issuer)
    \<and> preserves I (network_resolve U T (get U resolve_host H cfg) web_id)"
proof -
  have g: "preserves I (get U resolve_host H cfg u a)" for u a
    unfolding get_def by (rule get_hops_preserves [OF assms(1-4)])
  have "preserves (\<lambda>pw. I (net pw)) (network_keys_for E U (get U resolve_host H cfg) instant_now cache_ttl issuer)"
    unfolding network_keys_for_def
    by (auto split: option.split
        intro!: io_rules cache_preserves [of I instant_now, OF assms(5)] preserves_on_net [OF fetch_keys_preserves [OF g]])
  moreover have "preserves I (network_resolve U T (get U resolve_host H cfg) web_id)"
    unfolding network_resolve_def Let_def by (intro io_rules g)
  ultimately show ?thesis ..
qed

theorem providers_send_only_guarded_requests_witness:
  "preserves (\<lambda>log. list_all (\<lambda>(c, u). egress_ok sample_url_crate default_fetch_config c u) log)
     (network_resolve sample_url_crate \<lparr>base_iri_ok = (\<lambda>_. True), turtle_results = (\<lambda>_ _. [])\<rparr>
        (get sample_url_crate (table_resolver sample_names) (table_http sample_pages) default_fetch_config)
        ''https://a.example/x'')"
proof (rule providers_send_only_guarded_requests [THEN conjunct2])
  show "resolver_typed (table_resolver sample_names)"
    by (rule table_resolver_typed) (simp add: sample_names_def ip_ok_def)
  show "preserves (list_all (\<lambda>(c, u). egress_ok sample_url_crate default_fetch_config c u))
      (send_get (table_http sample_pages) c u a)"
    if "egress_ok sample_url_crate default_fetch_config c u" for c u a
    using that by (simp add: table_http_def preserves_def)
  show "list_all (\<lambda>(c, u). egress_ok sample_url_crate default_fetch_config c u) (snd ((\<lambda>w. (0, w)) w))"
    if "list_all (\<lambda>(c, u). egress_ok sample_url_crate default_fetch_config c u) w" for w
    using that by simp
qed simp_all

end
