(* ===== verification/Resolver.thy ===== *)
theory Resolver
  imports Net "HOL-Library.Multiset"
begin

section \<open>The production resolver: the dispatch thread of \<open>net.rs\<close>\<close>

text \<open>
  \<open>SystemResolver\<close> is a thread with an unbounded job channel: every \<open>resolve_host\<close> sends a job with a
  reply channel of its own and blocks on it; the thread receives the jobs in order, spawns one lookup
  task per job, and each task answers its own channel when its lookup ends. The lookup itself
  (hickory) is a parameter: the relation \<open>lk host r\<close> says which results are possible, a panic of the
  task included. The lemmas show that the machine is invisible: a caller gets a result of its own
  lookup, exactly one, and can get it while every other lookup is still running.
\<close>

subsection \<open>Construction\<close>

text \<open>
  What building the thread may report: the spawn, the runtime, the resolver from the system
  configuration and, when that fails, the resolver from the built-in one. \<open>None\<close> for the signal is a
  thread that ended without reporting.
\<close>

record resolver_init =
  thread_spawn :: "string + unit"
  runtime_build :: "string + unit"
  system_build :: "string + unit"
  google_build :: "string + unit"

definition init_signal :: "resolver_init \<Rightarrow> (string, unit) outcome" where
  "init_signal B =
     (case runtime_build B of
        Inl e \<Rightarrow> Err (''DNS runtime init failed: '' @ e)
      | Inr _ \<Rightarrow>
          (case system_build B of
             Inr _ \<Rightarrow> Ok ()
           | Inl _ \<Rightarrow>
               (case google_build B of
                  Inr _ \<Rightarrow> Ok ()
                | Inl e \<Rightarrow> Err (''DNS resolver init failed: '' @ e))))"

text \<open>A job: the host and the requester whose channel takes the reply.\<close>

type_synonym resolve_job = "string \<times> nat"

text \<open>
  The channel, the running lookup tasks, the replies sent (a reply channel dropped without one is
  \<open>Panic\<close>), and whether a sender is left; \<open>asked\<close> is the history of the hosts asked for.
\<close>

record dispatcher =
  job_queue :: "resolve_job list"
  tasks :: "resolve_job list"
  replies :: "(nat \<times> (string, ip_addr list) outcome) list"
  sender_alive :: bool
  asked :: "string list"

definition new_dispatcher :: dispatcher where
  "new_dispatcher = \<lparr>job_queue = [], tasks = [], replies = [], sender_alive = True, asked = []\<rparr>"

definition new_resolver :: "resolver_init \<Rightarrow> (string, dispatcher) outcome" where
  "new_resolver B =
     and_then (map_err (\<lambda>e. ''DNS resolver thread spawn failed: '' @ e) (of_sum (thread_spawn B))) (\<lambda>_.
     case init_signal B of
       Ok _ \<Rightarrow> Ok new_dispatcher
     | Err msg \<Rightarrow> Err msg
     | Panic \<Rightarrow> Err ''DNS resolver thread exited before initialising.'')"

subsection \<open>The loop and its callers\<close>

text \<open>The first half of \<open>resolve_host\<close>: the send, which fails once the loop has ended.\<close>

definition loop_ended :: "dispatcher \<Rightarrow> bool" where
  "loop_ended d \<longleftrightarrow> \<not> sender_alive d \<and> job_queue d = []"

definition send_job :: "string \<Rightarrow> dispatcher \<Rightarrow> (string, nat) outcome \<times> dispatcher" where
  "send_job host d =
     (if loop_ended d then (Err ''DNS resolver thread is not available.'', d)
      else (let n = length (asked d) in
        (Ok n, d\<lparr>job_queue := job_queue d @ [(host, n)], asked := asked d @ [host]\<rparr>)))"

text \<open>The second half: the blocking receive; \<open>None\<close> while no reply is there.\<close>

definition recv_reply :: "nat \<Rightarrow> dispatcher \<Rightarrow> (string, ip_addr list) outcome option" where
  "recv_reply n d =
     (case map_of (replies d) n of
        None \<Rightarrow> None
      | Some Panic \<Rightarrow> Some (Err ''DNS resolver thread dropped the request.'')
      | Some r \<Rightarrow> Some r)"

text \<open>One turn of \<open>while let Some(job) = rx.recv()\<close>: the job becomes a task of its own.\<close>

definition recv_job :: "dispatcher \<Rightarrow> dispatcher option" where
  "recv_job d =
     (case job_queue d of
        [] \<Rightarrow> None
      | job # rest \<Rightarrow> Some (d\<lparr>job_queue := rest, tasks := tasks d @ [job]\<rparr>))"

text \<open>A spawned task ends with the result of its lookup and answers its channel.\<close>

definition finish_task :: "nat \<Rightarrow> (string, ip_addr list) outcome \<Rightarrow> dispatcher \<Rightarrow> dispatcher" where
  "finish_task i r d =
     d\<lparr>tasks := take i (tasks d) @ drop (Suc i) (tasks d), replies := (snd (tasks d ! i), r) # replies d\<rparr>"

text \<open>
  The steps, in any order. The last sender goes away with the \<open>SystemResolver\<close>, which every waiting
  caller borrows, so only when nobody waits.
\<close>

inductive dispatch_step ::
  "(string \<Rightarrow> (string, ip_addr list) outcome \<Rightarrow> bool) \<Rightarrow> dispatcher \<Rightarrow> dispatcher \<Rightarrow> bool" for lk where
  submit: "sender_alive d \<Longrightarrow> send_job host d = (Ok n, d') \<Longrightarrow> dispatch_step lk d d'"
| spawn: "recv_job d = Some d' \<Longrightarrow> dispatch_step lk d d'"
| finish: "i < length (tasks d) \<Longrightarrow> lk (fst (tasks d ! i)) r \<Longrightarrow> dispatch_step lk d (finish_task i r d)"
| drop_sender: "job_queue d = [] \<Longrightarrow> tasks d = [] \<Longrightarrow> dispatch_step lk d (d\<lparr>sender_alive := False\<rparr>)"

inductive_cases dispatch_stepE: "dispatch_step lk d d'"

abbreviation dispatch_steps where
  "dispatch_steps lk \<equiv> (dispatch_step lk)\<^sup>*\<^sup>*"

subsection \<open>The invariant\<close>

text \<open>Every request is in exactly one place, with its own host, and replies are results of it.\<close>

definition places :: "dispatcher \<Rightarrow> nat list" where
  "places d = map snd (job_queue d) @ map snd (tasks d) @ map fst (replies d)"

definition dispatch_inv :: "(string \<Rightarrow> (string, ip_addr list) outcome \<Rightarrow> bool) \<Rightarrow> dispatcher \<Rightarrow> bool" where
  "dispatch_inv lk d \<longleftrightarrow> mset (places d) = mset [0..<length (asked d)]
     \<and> (\<forall>j \<in> set (job_queue d) \<union> set (tasks d). asked d ! snd j = fst j)
     \<and> (\<forall>p \<in> set (replies d). lk (asked d ! fst p) (snd p))"

lemma inv_place_range:
  assumes "dispatch_inv lk d"
  shows "set (places d) = {0..<length (asked d)}" "distinct (places d)"
proof -
  have m: "mset (places d) = mset [0..<length (asked d)]"
    using assms by (simp add: dispatch_inv_def)
  show "set (places d) = {0..<length (asked d)}"
    using mset_eq_setD [OF m] by simp
  show "distinct (places d)"
    using mset_eq_imp_distinct_iff [OF m] by simp
qed

lemma inv_new: "dispatch_inv lk new_dispatcher"
  by (simp add: dispatch_inv_def new_dispatcher_def places_def)

lemma inv_send:
  assumes inv: "dispatch_inv lk d" and s: "send_job host d = (Ok n, d')"
  shows "dispatch_inv lk d'"
proof -
  have d': "d' = d\<lparr>job_queue := job_queue d @ [(host, length (asked d))], asked := asked d @ [host]\<rparr>"
    using s by (auto simp: send_job_def Let_def split: if_splits)
  have old: "asked d' ! i = asked d ! i" if "i \<in> set (places d)" for i
    using inv_place_range(1) [OF inv] that by (simp add: d' nth_append)
  have "mset (places d') = mset [0..<length (asked d')]"
    using inv by (simp add: dispatch_inv_def d' places_def)
  moreover have "asked d' ! snd j = fst j" if "j \<in> set (job_queue d') \<union> set (tasks d')" for j
  proof (cases "j = (host, length (asked d))")
    case False
    then have "j \<in> set (job_queue d) \<union> set (tasks d)" using that by (auto simp: d')
    then show ?thesis using inv old [of "snd j"] by (auto simp: dispatch_inv_def places_def)
  qed (simp add: d')
  moreover have "lk (asked d' ! fst p) (snd p)" if "p \<in> set (replies d')" for p
    using that inv old [of "fst p"] by (auto simp: dispatch_inv_def places_def d')
  ultimately show ?thesis by (simp add: dispatch_inv_def)
qed

lemma inv_recv:
  assumes "dispatch_inv lk d" and "recv_job d = Some d'"
  shows "dispatch_inv lk d'"
proof -
  obtain job rest where q: "job_queue d = job # rest"
      and d': "d' = d\<lparr>job_queue := rest, tasks := tasks d @ [job]\<rparr>"
    using assms(2) by (auto simp: recv_job_def split: list.splits)
  show ?thesis using assms(1) by (simp add: dispatch_inv_def places_def q d' ball_Un)
qed

lemma inv_finish:
  assumes inv: "dispatch_inv lk d" and i: "i < length (tasks d)" and r: "lk (fst (tasks d ! i)) r"
  shows "dispatch_inv lk (finish_task i r d)"
proof -
  obtain h n where t: "tasks d ! i = (h, n)" by fastforce
  have split: "tasks d = take i (tasks d) @ (h, n) # drop (Suc i) (tasks d)"
    using id_take_nth_drop [OF i] t by simp
  define rest where "rest = take i (tasks d) @ drop (Suc i) (tasks d)"
  have d': "finish_task i r d = d\<lparr>tasks := rest, replies := (n, r) # replies d\<rparr>"
    by (simp add: finish_task_def t rest_def)
  have m: "mset (tasks d) = add_mset (h, n) (mset rest)"
    by (subst split) (simp add: rest_def)
  then have sub: "set (tasks d) = insert (h, n) (set rest)" by (rule mset_eq_setD [of _ "(h, n) # rest", simplified])
  have "asked d ! n = h"
    using inv sub by (auto simp: dispatch_inv_def)
  then show ?thesis
    using inv r t m sub unfolding dispatch_inv_def places_def d'
    by (simp add: ball_Un)
qed

lemma inv_drop: "dispatch_inv lk d \<Longrightarrow> dispatch_inv lk (d\<lparr>sender_alive := b\<rparr>)"
  by (simp add: dispatch_inv_def places_def)

lemma inv_step: "dispatch_step lk d d' \<Longrightarrow> dispatch_inv lk d \<Longrightarrow> dispatch_inv lk d'"
  by (erule dispatch_stepE) (auto intro: inv_send inv_recv inv_finish inv_drop)

lemma inv_steps: "dispatch_steps lk d d' \<Longrightarrow> dispatch_inv lk d \<Longrightarrow> dispatch_inv lk d'"
  by (induction rule: rtranclp_induct) (auto intro: inv_step)

subsection \<open>What a caller sees\<close>

lemma new_resolver_Ok_iff:
  "new_resolver B = Ok d \<longleftrightarrow> (\<exists>u. thread_spawn B = Inr u) \<and> (\<exists>u. runtime_build B = Inr u)
     \<and> ((\<exists>u. system_build B = Inr u) \<or> (\<exists>u. google_build B = Inr u)) \<and> d = new_dispatcher"
  by (auto simp: new_resolver_def init_signal_def outcome_simps split: sum.splits)

lemma asked_grows: "dispatch_step lk d d' \<Longrightarrow> \<exists>l. asked d' = asked d @ l"
  by (erule dispatch_stepE)
    (auto simp: send_job_def recv_job_def finish_task_def Let_def split: if_splits list.splits)

lemma asked_stays:
  "dispatch_steps lk d d' \<Longrightarrow> n < length (asked d) \<Longrightarrow> n < length (asked d') \<and> asked d' ! n = asked d ! n"
proof (induction rule: rtranclp_induct)
  case (step d1 d2)
  obtain l where "asked d2 = asked d1 @ l" using asked_grows [OF step.hyps(2)] by blast
  then show ?case using step.IH step.prems by (simp add: nth_append)
qed simp

definition seen_by_caller :: "(string, ip_addr list) outcome \<Rightarrow> (string, ip_addr list) outcome" where
  "seen_by_caller r = (case r of Panic \<Rightarrow> Err ''DNS resolver thread dropped the request.'' | _ \<Rightarrow> r)"

lemma recv_reply_Some:
  "recv_reply n d = Some r \<longleftrightarrow> (\<exists>r'. map_of (replies d) n = Some r' \<and> r = seen_by_caller r')"
  by (auto simp: recv_reply_def seen_by_caller_def split: option.splits outcome.splits)

lemma steps_from_new: "dispatch_steps lk new_dispatcher d \<Longrightarrow> dispatch_inv lk d"
  using inv_steps inv_new by blast

lemma send_step: "sender_alive d \<Longrightarrow> send_job host d = (Ok n, d') \<Longrightarrow> dispatch_steps lk d d'"
  by (rule r_into_rtranclp) (rule dispatch_step.submit)

lemma send_asks: "send_job host d = (Ok n, d') \<Longrightarrow> n < length (asked d') \<and> asked d' ! n = host"
  by (auto simp: send_job_def Let_def split: if_splits)

text \<open>C37: No cross-talk between concurrent lookups. Under every interleaving of callers, dispatches and
  completions, the reply a \<open>resolve_host\<close> call receives is a result of the lookup of its own host (an
  error if that task died), never one of another caller's.\<close>

theorem resolver_replies_own_lookup:
  assumes "dispatch_steps lk new_dispatcher d" and "sender_alive d" and "send_job host d = (Ok n, d1)"
    and "dispatch_steps lk d1 d2" and "recv_reply n d2 = Some r"
  shows "\<exists>r'. lk host r' \<and> r = seen_by_caller r'"
proof -
  have "dispatch_steps lk new_dispatcher d2"
    using assms(1) send_step [OF assms(2,3)] assms(4) by (meson rtranclp_trans)
  then have inv: "dispatch_inv lk d2" by (rule steps_from_new)
  have "asked d2 ! n = host"
    using asked_stays [OF assms(4)] send_asks [OF assms(3)] by simp
  moreover obtain r' where r': "map_of (replies d2) n = Some r'" "r = seen_by_caller r'"
    using assms(5) recv_reply_Some by blast
  ultimately have "lk host r'"
    using inv map_of_SomeD [OF r'(1)] by (force simp: dispatch_inv_def)
  then show ?thesis using r'(2) by blast
qed

lemma drain_queue:
  "dispatch_steps lk d (d\<lparr>job_queue := [], tasks := tasks d @ job_queue d\<rparr>)"
proof (induction "job_queue d" arbitrary: d)
  case (Cons job rest)
  let ?d1 = "d\<lparr>job_queue := rest, tasks := tasks d @ [job]\<rparr>"
  have q: "job_queue d = job # rest" using Cons.hyps(2) by simp
  have "dispatch_step lk d ?d1"
    by (rule dispatch_step.spawn) (simp add: recv_job_def q)
  moreover have "dispatch_steps lk ?d1 (?d1\<lparr>job_queue := [], tasks := tasks ?d1 @ job_queue ?d1\<rparr>)"
    by (rule Cons.hyps(1)) simp
  ultimately show ?case by (simp add: q converse_rtranclp_into_rtranclp)
next
  case Nil
  have "d\<lparr>job_queue := [], tasks := tasks d @ job_queue d\<rparr> = d" using Nil by (cases d) simp
  then show ?case by simp
qed

text \<open>C38: No lookup blocks another. In every reachable state, for every request not yet answered and every
  result its lookup can have, the thread can answer this request without a single other lookup having
  to end: the one new reply is its own.\<close>

theorem resolver_no_blocking:
  assumes "dispatch_steps lk new_dispatcher d" and "n < length (asked d)" and "n \<notin> fst ` set (replies d)"
    and "lk (asked d ! n) r"
  shows "\<exists>d'. dispatch_steps lk d d' \<and> recv_reply n d' = Some (seen_by_caller r)
    \<and> replies d' = (n, r) # replies d"
proof -
  let ?d1 = "d\<lparr>job_queue := [], tasks := tasks d @ job_queue d\<rparr>"
  have inv: "dispatch_inv lk d" using assms(1) by (rule steps_from_new)
  then have "n \<in> set (places d)" using inv_place_range(1) assms(2) by simp
  then have "n \<in> snd ` set (tasks ?d1)" using assms(3) by (auto simp: places_def)
  then obtain j where "j \<in> set (tasks ?d1)" "snd j = n" by blast
  then obtain i where i: "i < length (tasks ?d1)" "snd (tasks ?d1 ! i) = n"
    unfolding in_set_conv_nth by blast
  have "asked d ! n = fst (tasks ?d1 ! i)"
    using inv nth_mem [OF i(1)] i(2) by (auto simp: dispatch_inv_def)
  then have "dispatch_step lk ?d1 (finish_task i r ?d1)"
    using assms(4) i(1) by (intro dispatch_step.finish) simp_all
  then have "dispatch_steps lk d (finish_task i r ?d1)"
    using drain_queue [of lk d] by (simp add: rtranclp.rtrancl_into_rtrancl)
  moreover have "replies (finish_task i r ?d1) = (n, r) # replies d"
    using i(2) by (simp add: finish_task_def)
  ultimately show ?thesis by (intro exI [of _ "finish_task i r ?d1"]) (simp add: recv_reply_Some)
qed

text \<open>Nobody is left waiting when the thread ends.\<close>

lemma ended_means_answered:
  assumes "dispatch_steps lk new_dispatcher d"
  shows "sender_alive d \<or> job_queue d = [] \<and> tasks d = []"
  using assms
proof (induction rule: rtranclp_induct)
  case (step d1 d2)
  from step.hyps(2) step.IH show ?case
    by (cases rule: dispatch_step.cases) (auto simp: send_job_def recv_job_def finish_task_def Let_def
        split: if_splits list.splits)
qed (simp add: new_dispatcher_def)

lemma all_answered_at_end:
  assumes "dispatch_steps lk new_dispatcher d" "\<not> sender_alive d" "n < length (asked d)"
  shows "recv_reply n d \<noteq> None"
proof -
  have "set (places d) = {0..<length (asked d)}"
    using inv_place_range(1) [OF steps_from_new [OF assms(1)]] .
  then have "n \<in> set (map fst (replies d))"
    using ended_means_answered [OF assms(1)] assms(2,3) by (auto simp: places_def)
  then show ?thesis
    by (auto simp: recv_reply_def map_of_eq_None_iff split: option.splits outcome.splits)
qed

text \<open>A slow host asked first, a fast one second: the fast one is answered first.\<close>

definition sample_lookup :: "string \<Rightarrow> (string, ip_addr list) outcome \<Rightarrow> bool" where
  "sample_lookup host r \<longleftrightarrow> r = (if host = ''fast'' then Ok [IpV4 (V4 1 2 3 4)] else Err ''SERVFAIL'')"

definition two_asked :: dispatcher where
  "two_asked = snd (send_job ''fast'' (snd (send_job ''slow'' new_dispatcher)))"

lemma two_asked_reached:
  "dispatch_steps lk new_dispatcher (snd (send_job ''slow'' new_dispatcher))"
  "dispatch_steps lk new_dispatcher two_asked"
proof -
  show a: "dispatch_steps lk new_dispatcher (snd (send_job ''slow'' new_dispatcher))"
    by (rule send_step [of _ "''slow''" 0]) (simp_all add: new_dispatcher_def send_job_def loop_ended_def)
  have "dispatch_steps lk (snd (send_job ''slow'' new_dispatcher)) two_asked"
    by (rule send_step [of _ "''fast''" 1])
      (simp_all add: new_dispatcher_def send_job_def loop_ended_def two_asked_def)
  with a show "dispatch_steps lk new_dispatcher two_asked" by (rule rtranclp_trans)
qed

theorem resolver_no_blocking_witness:
  "\<exists>d'. recv_reply 1 d' = Some (Ok [IpV4 (V4 1 2 3 4)]) \<and> replies d' = [(1, Ok [IpV4 (V4 1 2 3 4)])]"
  using resolver_no_blocking [OF two_asked_reached(2) [of sample_lookup], of 1 "Ok [IpV4 (V4 1 2 3 4)]"]
  by (auto simp: two_asked_def new_dispatcher_def send_job_def loop_ended_def sample_lookup_def seen_by_caller_def)

theorem resolver_replies_own_lookup_witness:
  "\<exists>d2 r'. recv_reply 1 d2 = Some (Ok [IpV4 (V4 1 2 3 4)]) \<and> sample_lookup ''fast'' r'
     \<and> seen_by_caller r' = Ok [IpV4 (V4 1 2 3 4)]"
proof -
  let ?d1 = "two_asked\<lparr>job_queue := [], tasks := [(''slow'', 0), (''fast'', 1)]\<rparr>"
  let ?d2 = "finish_task 1 (Ok [IpV4 (V4 1 2 3 4)]) ?d1"
  have "dispatch_steps sample_lookup two_asked ?d1"
    using drain_queue [of sample_lookup two_asked]
    by (simp add: two_asked_def new_dispatcher_def send_job_def loop_ended_def)
  then have s: "dispatch_steps sample_lookup two_asked ?d2"
    by (rule rtranclp.rtrancl_into_rtrancl) (rule dispatch_step.finish, simp_all add: sample_lookup_def)
  have r: "recv_reply 1 ?d2 = Some (Ok [IpV4 (V4 1 2 3 4)])"
    by (simp add: recv_reply_def finish_task_def)
  have "\<exists>r'. sample_lookup ''fast'' r' \<and> Ok [IpV4 (V4 1 2 3 4)] = seen_by_caller r'"
    by (rule resolver_replies_own_lookup [OF two_asked_reached(1) _ _ s r])
      (simp_all add: two_asked_def new_dispatcher_def send_job_def loop_ended_def)
  then show ?thesis using r by metis
qed

end
