(* ===== verification/Shim.thy ===== *)
theory Shim
  imports Exactness Failures Passage Providers Resolver
begin

section \<open>The wired server: the constructors and \<open>examples/cth_shim.rs\<close>\<close>

text \<open>
  The production constructors (system resolver, network key provider, network WebID resolver) and the
  resource-server shim that wires them: environment, configuration, the handler from an HTTP request to
  an HTTP response. The environment, the header types and the listener are parameters; the verifier it
  runs is the model of the whole crate, so the theorems here are about the composition of all parts.
\<close>

subsection \<open>Production constructors\<close>

definition system_fetcher :: "resolver_init \<Rightarrow> safe_fetch_config \<Rightarrow> (string, dispatcher \<times> safe_fetch_config) outcome" where
  "system_fetcher B cfg = and_then (new_resolver B) (\<lambda>d. Ok (d, cfg))"

definition provider_fetch_config :: "bool \<Rightarrow> safe_fetch_config" where
  "provider_fetch_config al = default_fetch_config\<lparr>allow_loopback := al\<rparr>"

definition new_network_provider :: "resolver_init \<Rightarrow> bool \<Rightarrow> (string, dispatcher \<times> safe_fetch_config) outcome" where
  "new_network_provider B al =
     map_err (\<lambda>e. ''JWKS fetcher init failed: '' @ e) (system_fetcher B (provider_fetch_config al))"

definition new_network_resolver :: "resolver_init \<Rightarrow> bool \<Rightarrow> (string, dispatcher \<times> safe_fetch_config) outcome" where
  "new_network_resolver B al =
     map_err (\<lambda>e. ''WebID fetcher init failed: '' @ e) (system_fetcher B (provider_fetch_config al))"

subsection \<open>The environment\<close>

text \<open>\<open>std::env::var\<close> is \<open>None\<close> for an unset variable and for one that is no Unicode.\<close>

type_synonym environment = "string \<Rightarrow> string option"

definition env_required :: "environment \<Rightarrow> string \<Rightarrow> (string, string) outcome" where
  "env_required env key = (case env key of Some v \<Rightarrow> Ok v | None \<Rightarrow> Panic)"

definition env_flag :: "environment \<Rightarrow> string \<Rightarrow> bool \<Rightarrow> bool" where
  "env_flag env key dflt =
     (case env key of Some v \<Rightarrow> v \<in> {''1'', ''true'', ''TRUE'', ''yes''} | None \<Rightarrow> dflt)"

fun split_any :: "char list \<Rightarrow> string \<Rightarrow> string list" where
  "split_any cs [] = [[]]"
| "split_any cs (x # xs) =
     (if x \<in> set cs then [] # split_any cs xs
      else (case split_any cs xs of [] \<Rightarrow> [[x]] | y # ys \<Rightarrow> (x # y) # ys))"

definition split_issuers :: "string \<Rightarrow> string list" where
  "split_issuers raw = filter (\<lambda>s. s \<noteq> []) (map trim (split_any [CHR '' '', CHR '',''] raw))"

text \<open>\<open>u64::from_str\<close>: an optional plus sign, then decimal digits, in range.\<close>

definition parse_u64 :: "string \<Rightarrow> nat option" where
  "parse_u64 s =
     (let ds = (if s \<noteq> [] \<and> hd s = CHR ''+'' \<and> 1 < length s then tl s else s) in
      if s = [] \<or> \<not> list_all (is_digit 10) ds \<or> u64_max < digits_value 10 ds then None
      else Some (digits_value 10 ds))"

definition expect :: "('e, 'a) outcome \<Rightarrow> ('f, 'a) outcome" where
  "expect m = (case m of Ok x \<Rightarrow> Ok x | _ \<Rightarrow> Panic)"

lemma expect_Ok [outcome_simps]: "expect m = Ok x \<longleftrightarrow> m = Ok x"
  by (cases m) (auto simp: expect_def)

subsection \<open>The start of \<open>main\<close>\<close>

text \<open>What \<open>main\<close> has built when it starts to listen; times in nanoseconds.\<close>

record 'w shim =
  shim_config :: "'w verifier_config"
  public_base :: string
  shim_fetch :: safe_fetch_config
  shim_dispatcher :: dispatcher
  jwks_cache_ttl :: nat
  shim_store :: mem_store

definition env_config :: "environment \<Rightarrow> string \<Rightarrow> string \<Rightarrow> 'w verifier_config" where
  "env_config env raw_issuers aud =
     set_allow_missing_ath (env_flag env ''PSS_ALLOW_MISSING_ATH'' False)
       (set_require_dpop (env_flag env ''PSS_REQUIRE_DPOP'' True) (new_config (split_issuers raw_issuers) aud))"

definition cache_secs :: "environment \<Rightarrow> nat" where
  "cache_secs env = (case Option.bind (env ''PSS_JWKS_CACHE_SECS'') parse_u64 of Some n \<Rightarrow> n | None \<Rightarrow> 300)"

definition shim_setup :: "bool \<Rightarrow> environment \<Rightarrow> resolver_init \<Rightarrow> (string, 'w shim) outcome" where
  "shim_setup oc env B =
     and_then (env_required env ''PSS_TRUSTED_ISSUERS'') (\<lambda>raw_issuers.
     and_then (env_required env ''PSS_AUDIENCE'') (\<lambda>aud.
     and_then (env_required env ''PSS_PUBLIC_BASE'') (\<lambda>base.
     let config = env_config env raw_issuers aud in
     and_then (expect (new_network_provider B (env_flag env ''PSS_ALLOW_LOOPBACK'' False))) (\<lambda>(d, fetch).
     and_then (expect (replay_ttl oc config)) (\<lambda>ttl.
     and_then (expect (validate config)) (\<lambda>_.
     Ok \<lparr>shim_config = config, public_base = trim_end_matches (CHR ''/'') base, shim_fetch = fetch,
         shim_dispatcher = d, jwks_cache_ttl = cache_secs env * 10 ^ 9,
         shim_store = with_window ttl\<rparr>))))))"

subsection \<open>The handler\<close>

text \<open>
  The parts of an \<open>axum\<close> request that are read, and the operations of the \<open>http\<close> crate: a header
  value as visible text, status codes and header values that are accepted.
\<close>

record shim_request =
  sr_method :: string
  sr_path :: "string option"
  sr_header :: "string \<Rightarrow> bytes option"

record http_types =
  value_to_str :: "bytes \<Rightarrow> string option"
  method_upper :: "string \<Rightarrow> string"
  status_from_u16 :: "nat \<Rightarrow> nat option"
  header_value_ok :: "string \<Rightarrow> bool"

record shim_response =
  shim_status :: nat
  shim_body :: json
  shim_challenge :: "string option"

definition header_str :: "http_types \<Rightarrow> (string \<Rightarrow> bytes option) \<Rightarrow> string \<Rightarrow> string option" where
  "header_str X headers name = Option.bind (headers name) (value_to_str X)"

definition shim_auth_request :: "http_types \<Rightarrow> string \<Rightarrow> shim_request \<Rightarrow> auth_request" where
  "shim_auth_request X base r =
     \<lparr>authorization = header_str X (sr_header r) ''authorization'', dpop = header_str X (sr_header r) ''dpop'',
      req_method = method_upper X (sr_method r),
      req_url = base @ (case sr_path r of Some p \<Rightarrow> p | None \<Rightarrow> ''/''),
      client_cert_x5t_s256 = None\<rparr>"

definition opt_json :: "string option \<Rightarrow> json" where
  "opt_json v = (case v of Some s \<Rightarrow> VString s | None \<Rightarrow> VNull)"

definition token_response :: "verified_token \<Rightarrow> shim_response" where
  "token_response t =
     (if is_public t then
        \<lparr>shim_status = 200, shim_body = VObject [(''authenticated'', VBool False)], shim_challenge = None\<rparr>
      else
        \<lparr>shim_status = 200,
         shim_body = VObject [(''authenticated'', VBool True), (''client_id'', opt_json (tok_client_id t)),
           (''issuer'', opt_json (tok_issuer t)), (''webid'', opt_json (tok_web_id t))],
         shim_challenge = None\<rparr>)"

definition error_response ::
  "http_types \<Rightarrow> ('w, 'k, 'p, 's, 'u) verifier \<Rightarrow> verify_error \<Rightarrow> shim_response" where
  "error_response X V e =
     \<lparr>shim_status = (case status_from_u16 X (status e) of Some n \<Rightarrow> n | None \<Rightarrow> 401),
      shim_body = VObject [(''error'', VString (err_message e))],
      shim_challenge = (if header_value_ok X (challenge V e) then Some (challenge V e) else None)\<rparr>"

definition handle ::
  "http_types \<Rightarrow> ('w, 'k, 'p, 's, 'u) verifier \<Rightarrow> string \<Rightarrow> shim_request \<Rightarrow> ('w, string, shim_response) io" where
  "handle X V base r w =
     (case verify V (shim_auth_request X base r) w of
        (Ok t, w') \<Rightarrow> (Ok (token_response t), w')
      | (Err e, w') \<Rightarrow> (Ok (error_response X V e), w')
      | (Panic, w') \<Rightarrow> (Panic, w'))"

subsection \<open>The wiring\<close>

text \<open>The world of the running server: the network with its clocks and the key cache, and the store.\<close>

record 'w shim_world =
  sw_provider :: "'w provider_world"
  sw_store :: mem_store

definition on_provider :: "('w provider_world, 'e, 'a) io \<Rightarrow> ('w shim_world, 'e, 'a) io" where
  "on_provider m sw = (case m (sw_provider sw) of (r, p) \<Rightarrow> (r, sw\<lparr>sw_provider := p\<rparr>))"

definition store_op :: "'w clock \<Rightarrow> (nat \<Rightarrow> mem_store \<Rightarrow> ('e, 'a) outcome \<times> mem_store) \<Rightarrow> ('w shim_world, 'e, 'a) io" where
  "store_op instant_now f sw =
     (case (if ms_poisoned (sw_store sw) then (0, net (sw_provider sw)) else instant_now (net (sw_provider sw))) of
        (now, n) \<Rightarrow> (case f now (sw_store sw) of
          (r, s) \<Rightarrow> (r, sw\<lparr>sw_provider := (sw_provider sw)\<lparr>net := n\<rparr>, sw_store := s\<rparr>)))"

definition shim_verifier ::
  "'w shim_world shim \<Rightarrow> ('k, 'p, 's) crates \<Rightarrow> 'u url_crate \<Rightarrow> 'w host_resolver \<Rightarrow> 'w http_crate
   \<Rightarrow> 'w clock \<Rightarrow> ('w \<Rightarrow> nat option \<times> 'w) \<Rightarrow> ('w shim_world, 'k, 'p, 's, 'u) verifier" where
  "shim_verifier S E U resolve_host H instant_now wall =
     \<lparr>v_config = shim_config S,
      v_jwks = (\<lambda>iss. on_provider
        (network_keys_for E U (get U resolve_host H (shim_fetch S)) instant_now (jwks_cache_ttl S) iss)),
      v_mark = (\<lambda>jti ttl. store_op instant_now (\<lambda>now. mark now jti ttl)),
      v_crates = E, v_urls = U,
      v_clock = (\<lambda>sw. case wall (net (sw_provider sw)) of
        (t, n) \<Rightarrow> (t, sw\<lparr>sw_provider := (sw_provider sw)\<lparr>net := n\<rparr>\<rparr>))\<rparr>"

subsection \<open>What the set-up guarantees\<close>

lemma setup_Ok:
  assumes "shim_setup oc env B = Ok S"
  obtains raw_issuers aud where "env ''PSS_TRUSTED_ISSUERS'' = Some raw_issuers" "env ''PSS_AUDIENCE'' = Some aud"
    "shim_config S = env_config env raw_issuers aud" "validate (shim_config S) = Ok ()"
    "shim_fetch S = provider_fetch_config (env_flag env ''PSS_ALLOW_LOOPBACK'' False)"
    "shim_store S = with_clock 100000" "shim_dispatcher S = new_dispatcher"
  using assms
  by (auto simp: shim_setup_def env_required_def outcome_simps Let_def new_network_provider_def
      system_fetcher_def new_resolver_Ok_iff with_window_def new_store_def split: option.splits)

lemma env_config_fields [simp]:
  "trusted_issuers (env_config env raw aud) = split_issuers raw"
  "audience (env_config env raw aud) = aud" "webid_claim (env_config env raw aud) = ''webid''"
  "require_dpop (env_config env raw aud) = env_flag env ''PSS_REQUIRE_DPOP'' True"
  "allow_missing_ath (env_config env raw aud) = env_flag env ''PSS_ALLOW_MISSING_ATH'' False"
  "bidirectional_mode (env_config env raw aud) = Off" "webid_resolver (env_config env raw aud) = None"
  "authorized_parties (env_config env raw aud) = []" "replay_fail_closed (env_config env raw aud)"
  "clock_tolerance_secs (env_config env raw aud) = 5"
  by (simp_all add: env_config_def builder_defs new_config_def DEFAULT_CLOCK_TOLERANCE_SECS_def)

lemma shim_verifier_fields [simp]:
  "v_config (shim_verifier S E U rh H clk wall) = shim_config S"
  "v_crates (shim_verifier S E U rh H clk wall) = E" "v_urls (shim_verifier S E U rh H clk wall) = U"
  "v_jwks (shim_verifier S E U rh H clk wall) iss = on_provider
     (network_keys_for E U (get U rh H (shim_fetch S)) clk (jwks_cache_ttl S) iss)"
  by (simp_all add: shim_verifier_def)

text \<open>A flag that is set to anything but four words is off, whatever its default: a posture variable
  with another spelling of yes turns the requirement off.\<close>

lemma misspelt_require_dpop_accepts_bearer:
  "\<not> require_dpop (env_config ((\<lambda>_. None)(''PSS_REQUIRE_DPOP'' \<mapsto> ''True'')) ''https://idp'' ''https://rs'')"
  by (simp add: env_flag_def)

subsection \<open>Every answer of the server\<close>

lemma handle_cases:
  assumes "handle X V base r w = (Ok resp, w')"
  obtains (token) t where "verify V (shim_auth_request X base r) w = (Ok t, w')" "resp = token_response t"
  | (error) e where "verify V (shim_auth_request X base r) w = (Err e, w')" "resp = error_response X V e"
  using assms by (auto simp: handle_def split: prod.splits outcome.splits)

definition authenticated :: "shim_response \<Rightarrow> bool" where
  "authenticated resp \<longleftrightarrow> value_get (shim_body resp) ''authenticated'' = Some (VBool True)"

lemma authenticated_iff:
  "authenticated (token_response t) \<longleftrightarrow> \<not> is_public t" "\<not> authenticated (error_response X V e)"
  by (auto simp: authenticated_def token_response_def error_response_def member_def)

text \<open>An acceptance where DPoP is required: the server presents no client certificate, so it is bound to a
  proof.\<close>

lemma shim_accepted_token:
  assumes "verify V (shim_auth_request X base r) w = (Ok t, w')" "\<not> is_public t"
  obtains token iss keys wk c web_id where
    "iss \<in> set (trusted_issuers (v_config V))" "v_jwks V iss w = (Ok keys, wk)"
    "token_valid V token iss keys c" "extract_webid V c = Ok web_id"
    "t = credentials (v_crates V) c web_id iss"
    "require_dpop (v_config V) \<or> extract_cnf_jkt c \<noteq> None \<longrightarrow>
       (\<exists>jkt p pc iat b. extract_cnf_jkt c = Some jkt \<and> dpop (shim_auth_request X base r) = Some p
         \<and> proof_valid V (shim_auth_request X base r) p token jkt b pc iat)"
proof -
  let ?req = "shim_auth_request X base r"
  from assms show thesis
  proof (cases rule: accepted_cases)
    case (1 scheme token iss keys wk now c web_id wt w1 w2)
    have "extract_cnf_x5t_s256 (v_crates V) c \<noteq> Some (Thumbprint x)" for x
      using 1(10) by (auto simp: shim_auth_request_def)
    then have "must_dpop V c (scheme = ''dpop'')"
      if "require_dpop (v_config V) \<or> extract_cnf_jkt c \<noteq> None"
      using that by (auto simp: must_dpop_def)
    then have "\<exists>jkt p pc iat b. extract_cnf_jkt c = Some jkt \<and> dpop ?req = Some p
        \<and> proof_valid V ?req p token jkt b pc iat"
      if "require_dpop (v_config V) \<or> extract_cnf_jkt c \<noteq> None"
      using that 1(9) unfolding proof_given_def by (simp only: if_True) blast
    then show thesis using that 1(3-5,11,15) by blast
  qed
qed

lemma shim_accepted:
  assumes "verify V (shim_auth_request X base r) w = (Ok t, w')" "\<not> is_public t" "require_dpop (v_config V)"
  obtains token iss keys wk c web_id jkt p pc iat b where
    "iss \<in> set (trusted_issuers (v_config V))" "v_jwks V iss w = (Ok keys, wk)"
    "token_valid V token iss keys c" "extract_cnf_jkt c = Some jkt"
    "dpop (shim_auth_request X base r) = Some p"
    "proof_valid V (shim_auth_request X base r) p token jkt b pc iat"
    "extract_webid V c = Ok web_id" "t = credentials (v_crates V) c web_id iss"
  using shim_accepted_token [OF assms(1,2)] assms(3) that by metis

text \<open>C15: From the environment to the response. The server says \<open>authenticated\<close> only for a token that
  verifies under keys the network provider gave for one of the issuers of the environment; the \<open>issuer\<close>
  and \<open>webid\<close> of the body are those of that token. Where \<open>PSS_REQUIRE_DPOP\<close> is on (it is by default),
  and for a token with a \<open>cnf.jkt\<close> whatever the environment says, the request carries a DPoP proof signed
  by its embedded key for the public URL of this request, and the token's \<open>cnf.jkt\<close> names that key. With
  \<open>PSS_REQUIRE_DPOP\<close> off (which every misspelt value means, \<open>misspelt_require_dpop_accepts_bearer\<close>)
  a token without \<open>cnf.jkt\<close> needs no proof.\<close>

theorem server_authenticates_only_bound_tokens:
  assumes "shim_setup oc env B = Ok S"
    and "handle X (shim_verifier S E U resolve_host H instant_now wall) (public_base S) r w = (Ok resp, w')"
    and "authenticated resp"
  shows "\<exists>raw token iss keys wk c web_id.
    env ''PSS_TRUSTED_ISSUERS'' = Some raw \<and> iss \<in> set (split_issuers raw)
    \<and> on_provider (network_keys_for E U (get U resolve_host H (shim_fetch S)) instant_now
        (jwks_cache_ttl S) iss) w = (Ok keys, wk)
    \<and> verify_signature E token keys (Some ''at+jwt'') = Ok c
    \<and> str_claim c ''iss'' = Some iss \<and> str_claim c ''webid'' = Some web_id
    \<and> value_get (shim_body resp) ''issuer'' = Some (VString iss)
    \<and> value_get (shim_body resp) ''webid'' = Some (VString web_id)
    \<and> (env_flag env ''PSS_REQUIRE_DPOP'' True \<or> extract_cnf_jkt c \<noteq> None \<longrightarrow>
        (\<exists>p pc k jkt h. header_str X (sr_header r) ''dpop'' = Some p
          \<and> verify_proof_with_embedded_jwk E p ''dpop+jwt'' = Ok (pc, k)
          \<and> thumbprint_sha256 E k = Ok jkt \<and> extract_cnf_jkt c = Some jkt
          \<and> str_claim pc ''htu'' = Some h \<and> normalize_htu U h =
               normalize_htu U (public_base S @ (case sr_path r of Some path \<Rightarrow> path | None \<Rightarrow> ''/''))))"
proof -
  let ?V = "shim_verifier S E U resolve_host H instant_now wall"
  let ?req = "shim_auth_request X (public_base S) r"
  obtain raw aud where env: "env ''PSS_TRUSTED_ISSUERS'' = Some raw" and cfg: "shim_config S = env_config env raw aud"
    using setup_Ok [OF assms(1)] by blast
  from assms(2) obtain t where v: "verify ?V ?req w = (Ok t, w')" and resp: "resp = token_response t"
    using assms(3) authenticated_iff(2) by (cases rule: handle_cases) auto
  have np: "\<not> is_public t" using assms(3) authenticated_iff(1) resp by simp
  obtain token iss keys wk c web_id where *:
      "iss \<in> set (trusted_issuers (v_config ?V))" "v_jwks ?V iss w = (Ok keys, wk)"
      "token_valid ?V token iss keys c" "extract_webid ?V c = Ok web_id"
      "t = credentials (v_crates ?V) c web_id iss"
    and given: "require_dpop (v_config ?V) \<or> extract_cnf_jkt c \<noteq> None \<longrightarrow>
       (\<exists>jkt p pc iat b. extract_cnf_jkt c = Some jkt \<and> dpop ?req = Some p
         \<and> proof_valid ?V ?req p token jkt b pc iat)"
    using shim_accepted_token [OF v np] .
  have "str_claim c ''webid'' = Some web_id"
    using *(4) by (simp add: extract_webid_Ok_iff cfg)
  moreover have "value_get (shim_body resp) ''issuer'' = Some (VString iss)"
    "value_get (shim_body resp) ''webid'' = Some (VString web_id)"
    by (simp_all add: resp *(5) token_response_def opt_json_def member_def)
  moreover have "iss \<in> set (split_issuers raw)" using *(1) by (simp add: cfg)
  moreover have "verify_signature E token keys (Some ''at+jwt'') = Ok c" "str_claim c ''iss'' = Some iss"
    using *(3) by (simp_all add: token_valid_def)
  moreover have "env_flag env ''PSS_REQUIRE_DPOP'' True \<or> extract_cnf_jkt c \<noteq> None \<longrightarrow>
      (\<exists>p pc k jkt h. header_str X (sr_header r) ''dpop'' = Some p
      \<and> verify_proof_with_embedded_jwk E p ''dpop+jwt'' = Ok (pc, k)
      \<and> thumbprint_sha256 E k = Ok jkt \<and> extract_cnf_jkt c = Some jkt
      \<and> str_claim pc ''htu'' = Some h \<and> normalize_htu U h =
           normalize_htu U (public_base S @ (case sr_path r of Some path \<Rightarrow> path | None \<Rightarrow> ''/'')))"
    using given by (fastforce simp: cfg proof_valid_def shim_auth_request_def)
  ultimately show ?thesis using *(2) [unfolded shim_verifier_fields] env
    by (intro exI conjI) assumption+
qed

subsection \<open>What the running server sends\<close>

lemma handle_preserves:
  assumes "preserves I (verify V (shim_auth_request X base r))"
  shows "preserves I (handle X V base r)"
  unfolding preserves_def
proof (intro allI impI)
  fix w q w' assume w: "I w" "handle X V base r w = (q, w')"
  obtain v w1 where v: "verify V (shim_auth_request X base r) w = (v, w1)" by fastforce
  then have "I w1" using assms w(1) by (auto simp: preserves_def)
  then show "I w'" using w(2) v by (cases v) (simp_all add: handle_def)
qed

lemma on_provider_preserves:
  "preserves (\<lambda>p. I (net p)) m \<Longrightarrow> preserves (\<lambda>sw. I (net (sw_provider sw))) (on_provider m)"
  by (auto simp: preserves_def on_provider_def split: prod.splits)

lemma store_op_preserves:
  assumes "\<And>w. I w \<Longrightarrow> I (snd (clk w))"
  shows "preserves (\<lambda>sw. I (net (sw_provider sw))) (store_op clk f)"
  using assms by (fastforce simp: preserves_def store_op_def split: prod.splits if_splits)

text \<open>The calls a verification of the server makes, on the network they lead to.\<close>

lemma shim_calls_preserve:
  fixes E :: "('k, 'p, 's) crates" and U :: "'u url_crate" and H :: "'w http_crate"
  assumes "shim_setup oc env B = Ok S" and "resolver_typed resolve_host"
    and "\<And>h. preserves I (resolve_host h)" and "preserves I (spawn_worker H)"
    and "\<And>c u a. egress_ok U (shim_fetch S) c u \<Longrightarrow> preserves I (send_get H c u a)"
    and "\<And>w. I w \<Longrightarrow> I (snd (instant_now w))" and "\<And>w. I w \<Longrightarrow> I (snd (wall w))"
  defines "V \<equiv> shim_verifier S E U resolve_host H instant_now wall"
  defines "J \<equiv> \<lambda>sw. I (net (sw_provider sw))"
  shows "preserves J (v_jwks V iss)" "preserves J (v_mark V jti ttl)" "J sw \<Longrightarrow> J (snd (v_clock V sw))"
    "webid_resolver (shim_config S) = None"
proof -
  have g: "preserves I (get U resolve_host H (shim_fetch S) u a)" for u a
    unfolding get_def by (rule get_hops_preserves [OF assms(2-5)])
  show "preserves J (v_jwks V iss)"
    unfolding V_def J_def shim_verifier_fields
    by (rule on_provider_preserves, unfold network_keys_for_def)
      (auto split: option.split intro!: io_rules cache_preserves [of I instant_now, OF assms(6)]
        preserves_on_net [OF fetch_keys_preserves [OF g]])
  show "preserves J (v_mark V jti ttl)"
    unfolding V_def J_def shim_verifier_def by (simp add: store_op_preserves assms(6))
  show "J (snd (v_clock V sw))" if "J sw"
    using assms(7) [of "net (sw_provider sw)"] that
    by (cases "wall (net (sw_provider sw))") (simp add: V_def J_def shim_verifier_def)
  show "webid_resolver (shim_config S) = None"
    using setup_Ok [OF assms(1)] by (metis env_config_fields(7))
qed

text \<open>C20: Whatever requests arrive, the server sends nothing but guarded requests: any property of the
  network that the resolver, the worker threads, the clocks and every guarded request keep survives the
  handling of every HTTP request, whatever its headers, tokens, issuers and the documents they lead to.\<close>

theorem server_sends_only_guarded_requests:
  assumes "shim_setup oc env B = Ok S" and "resolver_typed resolve_host"
    and "\<And>h. preserves I (resolve_host h)" and "preserves I (spawn_worker H)"
    and "\<And>c u a. egress_ok U (shim_fetch S) c u \<Longrightarrow> preserves I (send_get H c u a)"
    and "\<And>w. I w \<Longrightarrow> I (snd (instant_now w))" and "\<And>w. I w \<Longrightarrow> I (snd (wall w))"
  shows "preserves (\<lambda>sw. I (net (sw_provider sw)))
    (handle X (shim_verifier S E U resolve_host H instant_now wall) (public_base S) r)"
proof -
  note calls = shim_calls_preserve [where instant_now = instant_now and wall = wall, OF assms]
  show ?thesis
    by (intro handle_preserves verify_preserves) (rule calls; assumption | simp add: calls(4))+
qed

subsection \<open>A server for the witnesses\<close>

definition sample_env :: environment where
  "sample_env = [''PSS_TRUSTED_ISSUERS'' \<mapsto> ''https://other, https://idp'', ''PSS_AUDIENCE'' \<mapsto> ''https://rs'',
     ''PSS_PUBLIC_BASE'' \<mapsto> ''https://rs/'', ''PSS_JWKS_CACHE_SECS'' \<mapsto> ''60'']"

definition sample_init :: resolver_init where
  "sample_init = \<lparr>thread_spawn = Inr (), runtime_build = Inr (), system_build = Inl ''no resolv.conf'',
     google_build = Inr ()\<rparr>"

definition shim_table :: "(bytes \<times> json) list" where
  "shim_table = [(''disc'', sample_doc ''https://idp''), (''jwks'', sample_keyset)] @ verifier_table"

definition shim_names :: "(string \<times> ip_addr list) list" where
  "shim_names = [(''idp'', [IpV4 (V4 8 8 8 8)])]"

definition shim_pages :: "(string \<times> http_response) list" where
  "shim_pages = [(''https://idp/.well-known/openid-configuration'', page ''disc''),
     (''https://idp/jwks'', page ''jwks'')]"

definition sample_types :: http_types where
  "sample_types = \<lparr>value_to_str = Some, method_upper = (\<lambda>m. m), status_from_u16 = Some,
     header_value_ok = (\<lambda>_. True)\<rparr>"

definition sample_shim :: "net_log shim_world shim" where
  "sample_shim = (case shim_setup True sample_env sample_init of Ok S \<Rightarrow> S
     | _ \<Rightarrow> \<lparr>shim_config = new_config [] [], public_base = [], shim_fetch = default_fetch_config,
              shim_dispatcher = new_dispatcher, jwks_cache_ttl = 0, shim_store = with_clock 0\<rparr>)"

definition sample_server :: "(net_log shim_world, string, string, string, sample_url) verifier" where
  "sample_server = shim_verifier sample_shim (sample_crates shim_table) sample_url_crate
     (table_resolver shim_names) (table_http shim_pages) (\<lambda>w. (0, w)) (\<lambda>w. (Some 1000, w))"

definition sample_http :: shim_request where
  "sample_http = \<lparr>sr_method = ''GET'', sr_path = Some ''/r'',
     sr_header = [''authorization'' \<mapsto> ''DPoP h.p.k'', ''dpop'' \<mapsto> ''d.q.j'']\<rparr>"

definition start_world :: "net_log shim_world" where
  "start_world = \<lparr>sw_provider = with_fetcher [], sw_store = shim_store sample_shim\<rparr>"

lemma sample_setup: "shim_setup True sample_env sample_init = Ok sample_shim"
proof -
  have "is_ok (shim_setup True sample_env sample_init :: (string, net_log shim_world shim) outcome)"
    by code_simp
  then show ?thesis by (auto simp: is_ok_iff sample_shim_def)
qed

definition sample_reply :: shim_response where
  "sample_reply = \<lparr>shim_status = 200, shim_body = VObject [(''authenticated'', VBool True),
     (''client_id'', VString ''app''), (''issuer'', VString ''https://idp''),
     (''webid'', VString ''https://alice.example/card#me'')], shim_challenge = None\<rparr>"

lemma sample_served:
  "fst (handle sample_types sample_server (public_base sample_shim) sample_http start_world) = Ok sample_reply"
  by code_simp

theorem server_authenticates_only_bound_tokens_witness:
  "\<exists>token keys c. verify_signature (sample_crates shim_table) token keys (Some ''at+jwt'') = Ok c
     \<and> str_claim c ''iss'' = Some ''https://idp'' \<and> extract_cnf_jkt c = Some proof_jkt"
proof -
  have "authenticated sample_reply" "env_flag sample_env ''PSS_REQUIRE_DPOP'' True" by code_simp+
  then obtain token iss keys c p pc k jkt where
    "header_str sample_types (sr_header sample_http) ''dpop'' = Some p"
    "verify_proof_with_embedded_jwk (sample_crates shim_table) p ''dpop+jwt'' = Ok (pc, k)"
    "thumbprint_sha256 (sample_crates shim_table) k = Ok jkt"
    "verify_signature (sample_crates shim_table) token keys (Some ''at+jwt'') = Ok c"
    "extract_cnf_jkt c = Some jkt" "str_claim c ''iss'' = Some iss"
    "value_get (shim_body sample_reply) ''issuer'' = Some (VString iss)"
    using server_authenticates_only_bound_tokens [OF sample_setup pair_of_fst [OF sample_served [unfolded sample_server_def]]]
    by blast
  moreover have "header_str sample_types (sr_header sample_http) ''dpop'' = Some ''d.q.j''"
    "verify_proof_with_embedded_jwk (sample_crates shim_table) ''d.q.j'' ''dpop+jwt'' = Ok (proof_claims (VNumber (PosInt 1000)), ec_jwk ''j'')"
    "thumbprint_sha256 (sample_crates shim_table) (ec_jwk ''j'') = Ok proof_jkt"
    "value_get (shim_body sample_reply) ''issuer'' = Some (VString ''https://idp'')"
    by code_simp+
  ultimately show ?thesis by auto
qed

lemma shim_fetch_sample: "shim_fetch sample_shim = default_fetch_config\<lparr>allow_loopback := False\<rparr>"
  using setup_Ok [OF sample_setup] by (simp add: provider_fetch_config_def env_flag_def sample_env_def)

theorem server_sends_only_guarded_requests_witness:
  "list_all (\<lambda>(c, u). egress_ok sample_url_crate (shim_fetch sample_shim) c u)
     (net (sw_provider (snd (handle sample_types sample_server (public_base sample_shim) sample_http start_world))))"
proof -
  let ?I = "list_all (\<lambda>(c, u). egress_ok sample_url_crate (shim_fetch sample_shim) c u)"
  have "preserves (\<lambda>sw. ?I (net (sw_provider sw)))
      (handle sample_types sample_server (public_base sample_shim) sample_http)"
    unfolding sample_server_def
  proof (rule server_sends_only_guarded_requests [OF sample_setup])
    show "resolver_typed (table_resolver shim_names)"
      by (rule table_resolver_typed) (simp add: shim_names_def ip_ok_def)
    show "preserves ?I (send_get (table_http shim_pages) c u a)"
      if "egress_ok sample_url_crate (shim_fetch sample_shim) c u" for c u a
      using that by (simp add: table_http_def preserves_def)
  qed simp_all
  moreover have "?I (net (sw_provider start_world))"
    by (simp add: start_world_def with_fetcher_def)
  ultimately show ?thesis unfolding preserves_def by (metis prod.collapse)
qed

end
