(* ===== verification/Shim_Main.thy ===== *)
theory Shim_Main
  imports Shim
begin

section \<open>The shim's \<open>main\<close>: listening address and routes\<close>

text \<open>
  The rest of \<open>examples/cth_shim.rs\<close>: the address \<open>main\<close> listens on, read from \<open>PSS_BIND\<close> by the
  standard library's \<open>SocketAddr\<close> parser, the order in which start-up fails, and the two routes that
  lead to \<open>handle\<close>. Binding the socket and matching a route pattern are the operating system's and
  axum's: parameters.
\<close>

subsection \<open>\<open>SocketAddr::from_str\<close>\<close>

definition read_port :: "string \<Rightarrow> (nat \<times> string) option" where
  "read_port s = Option.bind (read_given_char (CHR '':'') s) (read_number 10 (length s) True 0xffff)"

definition read_scope_id :: "string \<Rightarrow> (nat \<times> string) option" where
  "read_scope_id s = Option.bind (read_given_char (CHR ''%'') s) (read_number 10 (length s) True 0xffffffff)"

definition read_socket_addr_v4 :: "string \<Rightarrow> (socket_addr \<times> string) option" where
  "read_socket_addr_v4 s =
     Option.bind (read_ipv4_addr s) (\<lambda>(ip, s).
     Option.bind (read_port s) (\<lambda>(port, s). Some ((IpV4 ip, port), s)))"

definition read_socket_addr_v6 :: "string \<Rightarrow> (socket_addr \<times> string) option" where
  "read_socket_addr_v6 s =
     Option.bind (read_given_char (CHR ''['') s) (\<lambda>s.
     Option.bind (read_ipv6_addr s) (\<lambda>(ip, s).
     let s = (case read_scope_id s of Some (_, s') \<Rightarrow> s' | None \<Rightarrow> s) in
     Option.bind (read_given_char (CHR '']'') s) (\<lambda>s.
     Option.bind (read_port s) (\<lambda>(port, s). Some ((IpV6 ip, port), s)))))"

definition parse_socket_addr :: "string \<Rightarrow> socket_addr option" where
  "parse_socket_addr s =
     (case (case read_socket_addr_v4 s of Some r \<Rightarrow> Some r | None \<Rightarrow> read_socket_addr_v6 s) of
        Some (a, rest) \<Rightarrow> if rest = [] then Some a else None
      | None \<Rightarrow> None)"

subsection \<open>Start-up and routes\<close>

definition bind_text :: "environment \<Rightarrow> string" where
  "bind_text env = (case env ''PSS_BIND'' of Some b \<Rightarrow> b | None \<Rightarrow> ''127.0.0.1:3000'')"

text \<open>\<open>main\<close> up to \<open>serve\<close>: \<open>can_bind\<close> is \<open>TcpListener::bind\<close>; every failure is a panic.\<close>

definition shim_main ::
  "bool \<Rightarrow> environment \<Rightarrow> resolver_init \<Rightarrow> (socket_addr \<Rightarrow> (string, unit) outcome)
   \<Rightarrow> (string, 'w shim \<times> socket_addr) outcome" where
  "shim_main oc env B can_bind =
     and_then (shim_setup oc env B) (\<lambda>S.
     and_then (expect (ok_or (parse_socket_addr (bind_text env)) ''invalid socket address syntax'')) (\<lambda>addr.
     and_then (expect (can_bind addr)) (\<lambda>_. Ok (S, addr))))"

definition shim_routes :: "string list" where
  "shim_routes = [''/'', ''/*path'']"

definition not_found :: shim_response where
  "not_found = \<lparr>shim_status = 404, shim_body = VNull, shim_challenge = None\<rparr>"

definition serve ::
  "(string \<Rightarrow> shim_request \<Rightarrow> bool) \<Rightarrow> http_types \<Rightarrow> ('w, 'k, 'p, 's, 'u) verifier \<Rightarrow> string
   \<Rightarrow> shim_request \<Rightarrow> ('w, string, shim_response) io" where
  "serve route_matches X V base r =
     (if list_ex (\<lambda>p. route_matches p r) shim_routes then handle X V base r else lift (Ok not_found))"

subsection \<open>What the text of an address means\<close>

lemma socket_addr_samples:
  "parse_socket_addr ''127.0.0.1:3000'' = Some (IpV4 (V4 127 0 0 1), 3000)"
  "parse_socket_addr ''0.0.0.0:080'' = Some (IpV4 (V4 0 0 0 0), 80)"
  "parse_socket_addr ''[::1]:443'' = Some (IpV6 [0, 0, 0, 0, 0, 0, 0, 1], 443)"
  "parse_socket_addr ''[fe80::1%2]:1'' = Some (IpV6 [0xfe80, 0, 0, 0, 0, 0, 0, 1], 1)"
  "parse_socket_addr ''localhost:3000'' = None" "parse_socket_addr ''127.0.0.1'' = None"
  "parse_socket_addr ''127.0.0.1:65536'' = None" "parse_socket_addr ''::1:443'' = None"
  by code_simp+

lemma read_number_bound: "read_number b d z m s = Some (n, r) \<Longrightarrow> n \<le> m"
  by (auto simp: read_number_def Let_def split: if_splits)

lemma parse_socket_addr_typed:
  assumes "parse_socket_addr s = Some (ip, port)"
  shows "port \<le> 65535" "case ip of IpV4 _ \<Rightarrow> True | IpV6 a \<Rightarrow> length a = 8"
  using assms read_ipv6_length
  by (auto simp: parse_socket_addr_def read_socket_addr_v4_def read_socket_addr_v6_def read_port_def
      bind_eq_Some_conv Let_def split: option.splits if_splits ip_addr.split dest: read_number_bound)

subsection \<open>What runs when the server listens\<close>

lemma shim_main_Ok_iff:
  "shim_main oc env B can_bind = Ok (S, addr) \<longleftrightarrow>
     shim_setup oc env B = Ok S \<and> parse_socket_addr (bind_text env) = Some addr \<and> can_bind addr = Ok ()"
  by (cases addr) (auto simp: shim_main_def outcome_simps)

lemma never_Err:
  "expect m \<noteq> Err e" "env_required env k \<noteq> Err e"
  by (cases m) (simp_all add: expect_def env_required_def split: option.split)

lemma shim_main_no_Err: "shim_main oc env B can_bind \<noteq> Err e"
  by (auto simp: shim_main_def shim_setup_def outcome_simps never_Err Let_def)

lemma serve_authenticated:
  assumes "serve route_matches X V base r w = (Ok resp, w')" "authenticated resp"
  shows "handle X V base r w = (Ok resp, w')"
proof -
  have "\<not> authenticated not_found" by (simp add: authenticated_def not_found_def)
  then show ?thesis using assms by (auto simp: serve_def split: if_splits)
qed

definition default_env :: environment where
  "default_env = [''PSS_TRUSTED_ISSUERS'' \<mapsto> ''https://other, https://idp'', ''PSS_AUDIENCE'' \<mapsto> ''https://rs'',
     ''PSS_PUBLIC_BASE'' \<mapsto> ''https://rs/'']"

text \<open>C19: An unconfigured server is loopback only and strict. With nothing set but the three required
  variables, a server that starts listens on the loopback interface only, requires DPoP, demands the
  \<open>ath\<close> claim, fails closed, has no loopback target in its fetches, and has a trusted issuer and an
  audience.\<close>

theorem default_server_is_strict:
  assumes "\<And>k. k \<notin> {''PSS_TRUSTED_ISSUERS'', ''PSS_AUDIENCE'', ''PSS_PUBLIC_BASE''} \<Longrightarrow> env k = None"
    and "shim_main oc env B can_bind = Ok (S, addr)"
  shows "addr = (IpV4 (V4 127 0 0 1), 3000)
    \<and> require_dpop (shim_config S) \<and> \<not> allow_missing_ath (shim_config S)
    \<and> replay_fail_closed (shim_config S) \<and> \<not> allow_loopback (shim_fetch S)
    \<and> trusted_issuers (shim_config S) \<noteq> [] \<and> audience (shim_config S) \<noteq> []"
proof -
  have unset: "env ''PSS_BIND'' = None" "env ''PSS_REQUIRE_DPOP'' = None" "env ''PSS_ALLOW_MISSING_ATH'' = None"
      "env ''PSS_ALLOW_LOOPBACK'' = None"
    by (rule assms, simp)+
  have "shim_setup oc env B = Ok S" and p: "parse_socket_addr ''127.0.0.1:3000'' = Some addr"
    using assms(2) by (simp_all add: shim_main_Ok_iff bind_text_def unset)
  from this(1) obtain raw aud where S: "shim_config S = env_config env raw aud"
      "validate (shim_config S) = Ok ()"
      "shim_fetch S = provider_fetch_config (env_flag env ''PSS_ALLOW_LOOPBACK'' False)"
    by (elim setup_Ok) blast
  have "split_issuers raw \<noteq> []" "aud \<noteq> []"
    using S(2) by (auto simp: S(1) validate_def split: if_splits)
  then show ?thesis
    using p by (simp add: S(1,3) socket_addr_samples(1) unset env_flag_def provider_fetch_config_def)
qed

theorem default_server_is_strict_witness:
  "\<exists>S :: net_log shim_world shim.
     shim_main True default_env sample_init (\<lambda>_. Ok ()) = Ok (S, IpV4 (V4 127 0 0 1), 3000)
     \<and> require_dpop (shim_config S)"
proof -
  let ?m = "shim_main True default_env sample_init (\<lambda>_. Ok ()) :: (string, net_log shim_world shim \<times> socket_addr) outcome"
  have "is_ok ?m" by code_simp
  then obtain S addr where m: "?m = Ok (S, addr)" by (auto simp: is_ok_iff)
  have "default_env k = None" if "k \<notin> {''PSS_TRUSTED_ISSUERS'', ''PSS_AUDIENCE'', ''PSS_PUBLIC_BASE''}" for k
    using that by (simp add: default_env_def)
  from default_server_is_strict [OF this m] m show ?thesis by auto
qed

end
