(* ===== verification/Key_Cache.thy ===== *)
theory Key_Cache
  imports Providers
begin

section \<open>The key cache under concurrency\<close>

text \<open>
  \<open>keys_for\<close> takes the cache lock twice and fetches in between with no lock held, so concurrent calls
  interleave at these points: two callers may miss together and both fetch and store, and one may store
  after the other's entry was already used. The steps are the two critical sections and the fetch of
  \<open>network_keys_for\<close>, taken by any number of threads in any order, with the rest of the world moving in
  between. The log holds what was handed out and what was stored.
\<close>

datatype key_event =
    Handed string "jwk list" nat
  | Received string "jwk list" nat

text \<open>The shared world, the threads that missed and fetch, and those that have fetched and not stored;
  a fetch that fails or panics ends its thread with no lock held.\<close>

record 'w key_threads =
  shared :: "'w provider_world"
  fetching :: "string list"
  fetched :: "(string \<times> jwk list) list"
  key_log :: "key_event list"

definition initial_threads :: "'w \<Rightarrow> 'w key_threads" where
  "initial_threads w = \<lparr>shared = with_fetcher w, fetching = [], fetched = [], key_log = []\<rparr>"

text \<open>The clock shows \<open>time\<close> of the world, which never goes back.\<close>

inductive key_step ::
  "('k, 'p, 's) crates \<Rightarrow> 'u url_crate \<Rightarrow> (string \<Rightarrow> string \<Rightarrow> ('w, string, safe_response) io)
   \<Rightarrow> ('w \<Rightarrow> nat) \<Rightarrow> nat \<Rightarrow> 'w key_threads \<Rightarrow> 'w key_threads \<Rightarrow> bool" for E U g time ttl where
  hit: "cache_lookup (\<lambda>w. (time w, w)) ttl issuer (shared s) = (Ok (Some keys), pw) \<Longrightarrow>
     key_step E U g time ttl s (s\<lparr>shared := pw, key_log := Handed issuer keys (time (net pw)) # key_log s\<rparr>)"
| miss: "cache_lookup (\<lambda>w. (time w, w)) ttl issuer (shared s) = (Ok None, pw) \<Longrightarrow>
     key_step E U g time ttl s (s\<lparr>shared := pw, fetching := issuer # fetching s\<rparr>)"
| fetch: "issuer \<in> set (fetching s) \<Longrightarrow> on_net (fetch_keys E U g issuer) (shared s) = (Ok keys, pw) \<Longrightarrow>
     time (net (shared s)) \<le> time (net pw) \<Longrightarrow>
     key_step E U g time ttl s (s\<lparr>shared := pw, fetching := remove1 issuer (fetching s),
       fetched := (issuer, keys) # fetched s\<rparr>)"
| fail: "issuer \<in> set (fetching s) \<Longrightarrow> on_net (fetch_keys E U g issuer) (shared s) = (r, pw) \<Longrightarrow> \<not> is_ok r \<Longrightarrow>
     time (net (shared s)) \<le> time (net pw) \<Longrightarrow>
     key_step E U g time ttl s (s\<lparr>shared := pw, fetching := remove1 issuer (fetching s)\<rparr>)"
| store: "(issuer, keys) \<in> set (fetched s) \<Longrightarrow>
     cache_store (\<lambda>w. (time w, w)) issuer keys (shared s) = (Ok (), pw) \<Longrightarrow>
     key_step E U g time ttl s (s\<lparr>shared := pw, fetched := remove1 (issuer, keys) (fetched s),
       key_log := Handed issuer keys (time (net pw)) # Received issuer keys (time (net pw)) # key_log s\<rparr>)"
| elsewhere: "time (net (shared s)) \<le> time w \<Longrightarrow>
     key_step E U g time ttl s (s\<lparr>shared := (shared s)\<lparr>net := w\<rparr>\<rparr>)"

abbreviation key_steps where
  "key_steps E U g time ttl \<equiv> (key_step E U g time ttl)\<^sup>*\<^sup>*"

definition received_at :: "key_event list \<Rightarrow> string \<Rightarrow> jwk list \<Rightarrow> nat \<Rightarrow> bool" where
  "received_at log issuer keys at \<longleftrightarrow> Received issuer keys at \<in> set log"

text \<open>What a logged event promises: stored keys are published; handed keys were stored within the ttl.\<close>

fun event_ok ::
  "(string \<Rightarrow> jwk list \<Rightarrow> bool) \<Rightarrow> nat \<Rightarrow> key_event list \<Rightarrow> key_event \<Rightarrow> bool" where
  "event_ok P ttl log (Received issuer keys at) = P issuer keys"
| "event_ok P ttl log (Handed issuer keys t) =
     (\<exists>at. received_at log issuer keys at \<and> at \<le> t \<and> (t - at < ttl \<or> t = at))"

definition key_inv :: "(string \<Rightarrow> jwk list \<Rightarrow> bool) \<Rightarrow> ('w \<Rightarrow> nat) \<Rightarrow> nat \<Rightarrow> 'w key_threads \<Rightarrow> bool" where
  "key_inv P time ttl s \<longleftrightarrow>
     (\<forall>ev \<in> set (key_log s). event_ok P ttl (key_log s) ev)
     \<and> (\<forall>p \<in> set (fetched s). P (fst p) (snd p))
     \<and> (\<forall>issuer keys at. cache (shared s) issuer = Some (keys, at) \<longrightarrow>
          received_at (key_log s) issuer keys at \<and> at \<le> time (net (shared s)))"

lemma event_ok_grows: "event_ok P ttl log ev \<Longrightarrow> event_ok P ttl (e # log) ev"
  by (cases ev) (auto simp: received_at_def)

lemma key_inv_initial: "key_inv P time ttl (initial_threads w)"
  by (simp add: key_inv_def initial_threads_def with_fetcher_def)

lemma lookup_same:
  assumes "cache_lookup (\<lambda>w. (time w, w)) ttl issuer pw = (r, pw')"
  shows "pw' = pw"
    and "r = Ok (Some keys) \<Longrightarrow> \<exists>at. cache pw issuer = Some (keys, at) \<and> time (net pw) - at < ttl"
  using assms by (auto simp: cache_lookup_def split: option.splits if_splits)

lemma store_effect:
  assumes "cache_store (\<lambda>w. (time w, w)) issuer keys pw = (r, pw')"
  shows "net pw' = net pw"
    "cache pw' = cache pw \<or> cache pw' = (cache pw)(issuer \<mapsto> (keys, time (net pw)))"
  using assms by (auto simp: cache_store_def split: if_splits)

lemma key_inv_moves:
  assumes inv: "key_inv P time ttl s" and "cache pw = cache (shared s)"
    and le: "time (net (shared s)) \<le> time (net pw)"
  shows "key_inv P time ttl (s\<lparr>shared := pw\<rparr>)"
proof -
  have "at \<le> time (net pw)" if "cache (shared s) issuer = Some (keys, at)" for issuer keys at
    using inv that le unfolding key_inv_def by (meson le_trans)
  then show ?thesis using inv assms(2) by (simp add: key_inv_def)
qed

lemma key_inv_threads:
  "key_inv P time ttl s \<Longrightarrow> \<forall>p \<in> set fs. P (fst p) (snd p) \<Longrightarrow>
     key_inv P time ttl (s\<lparr>fetching := is, fetched := fs\<rparr>)"
  by (simp add: key_inv_def)

lemma key_inv_step:
  assumes "key_step E U g time ttl s s'" and inv: "key_inv (published E U g) time ttl s"
  shows "key_inv (published E U g) time ttl s'"
  using assms(1)
proof cases
  case (hit issuer keys pw)
  then obtain at where at: "cache (shared s) issuer = Some (keys, at)" "time (net (shared s)) - at < ttl"
    using lookup_same(2) by blast
  then have "received_at (key_log s) issuer keys at" "at \<le> time (net (shared s))"
    using inv unfolding key_inv_def by blast+
  then have "event_ok (published E U g) ttl (key_log s) (Handed issuer keys (time (net (shared s))))"
    using at(2) by auto
  then show ?thesis
    using hit inv lookup_same(1) [OF hit(2)] event_ok_grows
    by (auto simp: key_inv_def received_at_def simp del: event_ok.simps)
next
  case (miss issuer pw)
  then show ?thesis using inv lookup_same(1) [OF miss(2)] by (simp add: key_inv_def)
next
  case (fetch issuer keys pw)
  then have "published E U g issuer keys"
    using fetch_keys_published by (force simp: on_net_iff)
  moreover have "cache pw = cache (shared s)" using fetch(3) by (auto simp: on_net_iff)
  ultimately show ?thesis
    using key_inv_threads [OF key_inv_moves [OF inv _ fetch(4)], of "(issuer, keys) # fetched s"] inv
    by (simp add: fetch(1) key_inv_def)
next
  case (fail issuer r pw)
  have "cache pw = cache (shared s)" using fail(3) by (auto simp: on_net_iff)
  then show ?thesis
    using key_inv_threads [OF key_inv_moves [OF inv _ fail(5)], of "fetched s"] inv
    by (simp add: fail(1) key_inv_def)
next
  case (store issuer keys pw)
  let ?t = "time (net (shared s))"
  have t: "net pw = net (shared s)" using store_effect(1) [OF store(3)] .
  have pub: "published E U g issuer keys" using inv store(2) by (auto simp: key_inv_def)
  have log: "event_ok (published E U g) ttl (key_log s') ev" if "ev \<in> set (key_log s')" for ev
    using that inv pub unfolding store(1) t
    by (auto simp: key_inv_def received_at_def intro: event_ok_grows)
  have "received_at (key_log s') i ks at \<and> at \<le> time (net (shared s'))"
    if "cache (shared s') i = Some (ks, at)" for i ks at
    using that inv store_effect(2) [OF store(3)] unfolding store(1) key_inv_def
    by (auto simp: t received_at_def split: if_splits)
  moreover have "\<forall>p \<in> set (fetched s'). published E U g (fst p) (snd p)"
    using inv set_remove1_subset unfolding store(1) key_inv_def by fastforce
  ultimately show ?thesis using log unfolding key_inv_def by blast
next
  case (elsewhere w)
  then show ?thesis using key_inv_moves [OF inv] by simp
qed

lemma key_inv_steps:
  "key_steps E U g time ttl (initial_threads w) s \<Longrightarrow> key_inv (published E U g) time ttl s"
  by (induction rule: rtranclp_induct) (auto intro: key_inv_initial key_inv_step)

text \<open>C23: The key cache is safe under concurrency. However concurrent calls interleave between their two
  critical sections and the fetch, keys handed out for an issuer at time \<open>t\<close> were published by that
  issuer, and were received by some call for the same issuer at a time \<open>at\<close> no later than \<open>t\<close> and less
  than the cache's ttl before it (or at \<open>t\<close> itself, by the call they are handed to).\<close>

theorem concurrent_keys_published_and_fresh:
  assumes "key_steps E U g time ttl (initial_threads w0) s" and "Handed issuer keys t \<in> set (key_log s)"
  shows "published E U g issuer keys
    \<and> (\<exists>at. Received issuer keys at \<in> set (key_log s) \<and> at \<le> t \<and> (t - at < ttl \<or> t = at))"
proof -
  have inv: "key_inv (published E U g) time ttl s" by (rule key_inv_steps [OF assms(1)])
  then obtain at where at: "Received issuer keys at \<in> set (key_log s)" "at \<le> t" "t - at < ttl \<or> t = at"
    using assms(2) by (fastforce simp: key_inv_def received_at_def)
  then have "published E U g issuer keys" using inv by (fastforce simp: key_inv_def)
  then show ?thesis using at by blast
qed

text \<open>Two callers of one issuer: the second is served from the entry of the first, within the ttl.\<close>

definition one_fetched :: "nat key_threads" where
  "one_fetched = \<lparr>shared = with_fetcher 2, fetching = [], fetched = [(''https://idp'', [ec_jwk ''k''])], key_log = []\<rparr>"

definition one_stored :: "nat key_threads" where
  "one_stored = \<lparr>shared = \<lparr>net = 2, cache = [''https://idp'' \<mapsto> ([ec_jwk ''k''], 2)], cache_poisoned = False\<rparr>,
     fetching = [], fetched = [],
     key_log = [Handed ''https://idp'' [ec_jwk ''k''] 2, Received ''https://idp'' [ec_jwk ''k''] 2]\<rparr>"

definition both_served :: "nat key_threads" where
  "both_served = one_stored\<lparr>shared := (shared one_stored)\<lparr>net := 50\<rparr>,
     key_log := Handed ''https://idp'' [ec_jwk ''k''] 50 # key_log one_stored\<rparr>"

lemma both_served_reached:
  "key_steps (sample_crates doc_table) sample_url_crate doc_fetch (\<lambda>n. n) 60 (initial_threads 0) both_served"
proof -
  let ?step = "key_step (sample_crates doc_table) sample_url_crate doc_fetch (\<lambda>n. n) 60"
  let ?miss = "(initial_threads 0)\<lparr>fetching := [''https://idp'']\<rparr> :: nat key_threads"
  have 1: "?step (initial_threads 0) ?miss"
    using key_step.miss [of "\<lambda>n. n" 60 "''https://idp''" "initial_threads 0" "with_fetcher 0"]
    by (simp add: initial_threads_def with_fetcher_def cache_lookup_def)
  have f: "fetch_keys (sample_crates doc_table) sample_url_crate doc_fetch ''https://idp'' 0 = (Ok [ec_jwk ''k''], 2)"
    by code_simp
  have 2: "?step ?miss one_fetched"
    using key_step.fetch [of "''https://idp''" ?miss "sample_crates doc_table" sample_url_crate doc_fetch
        "[ec_jwk ''k'']" "with_fetcher 2" "\<lambda>n. n" 60]
    by (simp add: initial_threads_def with_fetcher_def on_net_iff f one_fetched_def)
  have 3: "?step one_fetched one_stored"
    using key_step.store [of "''https://idp''" "[ec_jwk ''k'']" one_fetched "\<lambda>n. n" "shared one_stored"
        "sample_crates doc_table" sample_url_crate doc_fetch 60]
    by (simp add: one_fetched_def one_stored_def with_fetcher_def cache_store_def)
  have 4: "?step one_stored (one_stored\<lparr>shared := (shared one_stored)\<lparr>net := 50\<rparr>\<rparr>)"
    by (rule key_step.elsewhere) (simp add: one_stored_def)
  have 5: "?step (one_stored\<lparr>shared := (shared one_stored)\<lparr>net := 50\<rparr>\<rparr>) both_served"
    using key_step.hit [of "\<lambda>n. n" 60 "''https://idp''" "one_stored\<lparr>shared := (shared one_stored)\<lparr>net := 50\<rparr>\<rparr>"
        "[ec_jwk ''k'']" "(shared one_stored)\<lparr>net := 50\<rparr>" "sample_crates doc_table" sample_url_crate doc_fetch]
    by (simp add: one_stored_def both_served_def cache_lookup_def)
  show ?thesis using 1 2 3 4 5 by (meson converse_rtranclp_into_rtranclp rtranclp.rtrancl_refl)
qed

theorem concurrent_keys_published_and_fresh_witness:
  "published (sample_crates doc_table) sample_url_crate doc_fetch ''https://idp'' [ec_jwk ''k'']"
  using concurrent_keys_published_and_fresh [OF both_served_reached, of "''https://idp''" "[ec_jwk ''k'']" 50]
  by (simp add: both_served_def)

end
