(* ===== verification/Nat64.thy ===== *)
theory Nat64
  imports Ssrf
begin

section \<open>The RFC 6052 layout of NAT64 addresses\<close>

text \<open>
  The table of RFC 6052 section 2.2 as octets: where the four octets of an IPv4 address stand in an
  address under a prefix of each permitted length, octet 8 left out. The bit loop of
  \<open>decode_embedded_v4\<close> and the masking of \<open>mask_segments\<close> are related to it, so that a configured
  prefix recognises exactly the addresses below it and recovers the embedded address.
\<close>

fun v6_octets :: "ipv6 \<Rightarrow> u8 list" where
  "v6_octets [] = []"
| "v6_octets (s # segs) = high_byte s # low_byte s # v6_octets segs"

fun segments_of_octets :: "u8 list \<Rightarrow> ipv6" where
  "segments_of_octets (h # l # os) = (push_bit 8 (ucast h) OR ucast l) # segments_of_octets os"
| "segments_of_octets _ = []"

definition rfc6052_octets :: "nat \<Rightarrow> u8 list \<Rightarrow> u8 list" where
  "rfc6052_octets n os =
     (if n \<le> 8 then take 4 (drop n (take 8 os @ drop 9 os)) else take 4 (drop n os))"

definition rfc6052_embed :: "u8 \<Rightarrow> ipv6 \<Rightarrow> ipv4 \<Rightarrow> ipv6" where
  "rfc6052_embed prefix_len prefix v4 = segments_of_octets
     (let n = unat prefix_len div 8; p = take n (v6_octets prefix); q = octets v4 in
      if n \<le> 8 then p @ take (8 - n) q @ [0] @ drop (8 - n) q @ replicate (11 - n) 0
      else p @ q)"

definition bit_source :: "nat \<Rightarrow> nat \<Rightarrow> nat" where
  "bit_source pos k = (if 72 \<le> pos \<or> pos + k < 64 then pos + k else if pos \<le> 64 then pos + k + 8 else 72 + k)"

lemma no_bit_16: "16 \<le> n \<Longrightarrow> \<not> bit (w :: u16) n"
  by (metis bit_imp_le_length leD len_num1 len_bit0 numeral_Bit0 mult_2 numeral_One)

lemma bit_decode_step:
  "bit (push_bit 1 v OR ucast (drop_bit k bits AND 1) :: u32) 0 \<longleftrightarrow> bit (bits :: u128) k"
  "bit (push_bit 1 v OR ucast (drop_bit k bits AND 1) :: u32) (Suc m) \<longleftrightarrow> Suc m < 32 \<and> bit v m"
  unfolding bit_or_iff bit_push_bit_iff bit_unsigned_iff bit_and_iff bit_drop_bit_eq bit_1_iff
  by simp_all

lemma bit_decode_loop:
  "taken \<le> 32 \<Longrightarrow> bit (decode_loop bits v4 taken pos) i \<longleftrightarrow> i < 32 \<and>
     (if i < 32 - taken then bit bits (127 - bit_source pos (31 - taken - i)) else bit v4 (i - (32 - taken)))"
proof (induction bits v4 taken pos rule: decode_loop.induct)
  case (1 bits v4 taken pos)
  show ?case
  proof (cases "taken < 32")
    case False
    then have "taken = 32" "decode_loop bits v4 taken pos = v4"
      using "1.prems" by (simp, simp only: decode_loop.simps [of bits v4 taken pos] if_False)
    then show ?thesis
      using bit_imp_le_length [of v4 i] by auto
  next
    case True
    show ?thesis
    proof (cases "64 \<le> pos \<and> pos < 72")
      case T: True
      then have "bit_source pos k = bit_source 72 k" for k
        by (auto simp: bit_source_def)
      then show ?thesis
        using "1.IH"(1) [OF True T] True T by (simp add: decode_loop.simps [of bits v4 taken pos])
    next
      case F: False
      have src: "bit_source (Suc pos) k = bit_source pos (Suc k)" "bit_source pos 0 = pos" for k
        using F by (auto simp: bit_source_def)
      have step: "decode_loop bits v4 taken pos =
          decode_loop bits (push_bit 1 v4 OR ucast (drop_bit (127 - pos) bits AND 1)) (taken + 1) (pos + 1)"
        using True F by (simp only: decode_loop.simps [of bits v4 taken pos] if_True if_False)
      have IH: "bit (decode_loop bits v4 taken pos) i \<longleftrightarrow> i < 32 \<and>
          (if i < 31 - taken then bit bits (127 - bit_source pos (Suc (30 - taken - i)))
           else bit (push_bit 1 v4 OR ucast (drop_bit (127 - pos) bits AND 1)) (i - (31 - taken)))"
        unfolding step using "1.IH"(2) [OF True F] True by (simp add: src)
      consider "i < 31 - taken" | "i = 31 - taken" | m where "i = 32 - taken + m" "\<not> i < 31 - taken"
        using True that(3) [of "i - (32 - taken)"] by linarith
      then show ?thesis
      proof cases
        case 1
        then have "31 - taken - i = Suc (30 - taken - i)" by arith
        moreover have "i < 32 - taken" using 1 by arith
        ultimately show ?thesis unfolding IH using 1 by simp
      next
        case 2
        then have "i - (31 - taken) = 0" "\<not> i < 31 - taken" "i < 32 - taken" "31 - taken - i = 0"
          using True by simp_all
        then show ?thesis unfolding IH by (simp only: bit_decode_step src if_True if_False)
      next
        case 3
        then have "i - (31 - taken) = Suc m" "i - (32 - taken) = m" using True by simp_all
        with 3 True show ?thesis unfolding IH by (simp only: bit_decode_step) auto
      qed
    qed
  qed
qed

lemma bit_ipv6_bits:
  assumes "q < 8" "r < 16"
  shows "bit (ipv6_bits s) (16 * q + r) \<longleftrightarrow> bit (s ! (7 - q)) r"
proof -
  have "q = 0 \<or> q = 1 \<or> q = 2 \<or> q = 3 \<or> q = 4 \<or> q = 5 \<or> q = 6 \<or> q = 7"
    using assms(1) by linarith
  then show ?thesis
    using assms(2) by (elim disjE) (simp_all add: ipv6_bits_def bit_simps no_bit_16)
qed

lemma v6_octets_nth:
  "m < length a \<Longrightarrow> v6_octets a ! (2 * m) = high_byte (a ! m)"
  "m < length a \<Longrightarrow> v6_octets a ! (Suc (2 * m)) = low_byte (a ! m)"
proof (induction a arbitrary: m)
  case (Cons s a)
  { case 1 then show ?case using Cons by (cases m) auto }
  { case 2 then show ?case using Cons by (cases m) auto }
qed auto

lemma bit_octet: 
  assumes "length a = 8" "k < 16" "j < 8"
  shows "bit (v6_octets a ! k) j \<longleftrightarrow> bit (ipv6_bits a) (8 * (15 - k) + j)"
proof -
  obtain m where m: "k = 2 * m \<or> k = Suc (2 * m)" 
    by (metis evenE oddE Suc_eq_plus1)
  then have m8: "m < 8" using assms by auto
  from m show ?thesis
  proof 
    assume k: "k = 2 * m"
    have "8 * (15 - k) + j = 16 * (7 - m) + (8 + j)" using k m8 by auto
    then show ?thesis 
      using bit_ipv6_bits [of "7 - m" "8 + j" a] assms k m8 by (simp add: v6_octets_nth bit_bytes add.assoc)
  next
    assume k: "k = Suc (2 * m)"
    have "8 * (15 - k) + j = 16 * (7 - m) + j" using k m8 by auto
    then show ?thesis 
      using bit_ipv6_bits [of "7 - m" "j" a] assms k m8 by (simp add: v6_octets_nth bit_bytes add.assoc)
  qed
qed

lemma ipv4_octets_bit:
  "j < 8 \<Longrightarrow> k < 4 \<Longrightarrow> bit (octets (ipv4_from_u32 v) ! k) j \<longleftrightarrow> bit v (8 * (3 - k) + j)"
proof -
  assume "j < 8" "k < 4"
  moreover from this have "k = 0 \<or> k = 1 \<or> k = 2 \<or> k = 3" by linarith
  ultimately show ?thesis
    by (elim disjE) (simp_all add: ipv4_from_u32_def bit_simps)
qed

lemma length_v6_octets: "length (v6_octets a) = 2 * length a"
  by (induction a) auto

lemma length_octets [simp]: "length (octets v) = 4"
  by (cases v) simp

lemma valid_length_cases:
  "l \<in> set VALID_LENGTHS \<Longrightarrow> (\<exists>n. unat l = 8 * n \<and> (4 \<le> n \<and> n \<le> 8 \<or> n = 12))"
  by (auto simp: VALID_LENGTHS_def) 

lemma octet_index:
  assumes "length os = 16" "4 \<le> n \<and> n \<le> 8 \<or> n = 12" "k < 4"
  shows "rfc6052_octets n os ! k = os ! (bit_source (8 * n) (8 * k) div 8)"
  using assms
  by (auto simp: rfc6052_octets_def bit_source_def nth_append min_def add.commute)

lemma decode_octets:
  assumes "length a = 8" "l \<in> set VALID_LENGTHS"
  shows "octets (decode_embedded_v4 a l) = rfc6052_octets (unat l div 8) (v6_octets a)"
proof (rule nth_equalityI)
  obtain n where n: "unat l = 8 * n" "4 \<le> n \<and> n \<le> 8 \<or> n = 12"
    using valid_length_cases [OF assms(2)] by auto
  then show "length (octets (decode_embedded_v4 a l)) = length (rfc6052_octets (unat l div 8) (v6_octets a))"
    using assms(1) by (auto simp: rfc6052_octets_def length_v6_octets)
  fix k assume "k < length (octets (decode_embedded_v4 a l))"
  then have k: "k < 4" by simp
  let ?p = "bit_source (8 * n) (8 * k) div 8"
  have p: "?p < 16" using n(2) k by (auto simp: bit_source_def)
  show "octets (decode_embedded_v4 a l) ! k = rfc6052_octets (unat l div 8) (v6_octets a) ! k"
  proof (rule bit_word_eqI)
    fix j assume "j < LENGTH(8)"
    then have j: "j < 8" by simp
    have "bit (octets (decode_embedded_v4 a l) ! k) j \<longleftrightarrow>
        bit (ipv6_bits a) (127 - bit_source (8 * n) (31 - (8 * (3 - k) + j)))"
    proof -
      have "8 * (3 - k) + j < 32" using j k by arith
      then show ?thesis
        using j k by (simp add: decode_embedded_v4_def n(1) ipv4_octets_bit bit_decode_loop)
    qed
    also have "127 - bit_source (8 * n) (31 - (8 * (3 - k) + j)) = 8 * (15 - ?p) + j"
    proof -
      have "31 - (8 * (3 - k) + j) = 8 * k + (7 - j)" using j k by arith
      moreover have "8 * n + (8 * k + (7 - j)) < 64 \<longleftrightarrow> 8 * n + 8 * k < 64" using j by arith
      ultimately show ?thesis
        using n(2) k j by (auto simp: bit_source_def)
    qed
    also have "bit (ipv6_bits a) \<dots> \<longleftrightarrow> bit (v6_octets a ! ?p) j"
      using bit_octet [OF assms(1) p j] by simp
    also have "v6_octets a ! ?p = rfc6052_octets (unat l div 8) (v6_octets a) ! k"
      using n k assms(1) by (simp add: octet_index length_v6_octets)
    finally show "bit (octets (decode_embedded_v4 a l) ! k) j \<longleftrightarrow>
      bit (rfc6052_octets (unat l div 8) (v6_octets a) ! k) j" .
  qed
qed

lemma bytes_of_segment:
  "high_byte (push_bit 8 (ucast h) OR ucast l) = h" "low_byte (push_bit 8 (ucast h) OR ucast l) = l"
  for h l :: u8
proof -
  have *: "\<not> bit (x :: u8) n" if "8 \<le> n" for x n
    using that bit_imp_le_length [of x n] by auto
  show "high_byte (push_bit 8 (ucast h) OR ucast l) = h"
    by (rule bit_word_eqI) (simp add: bit_bytes, auto simp: bit_simps *)
  show "low_byte (push_bit 8 (ucast h) OR ucast l) = l"
    by (rule bit_word_eqI) (simp add: bit_bytes, auto simp: bit_simps *)
qed

lemma v6_octets_of_octets: "even (length os) \<Longrightarrow> v6_octets (segments_of_octets os) = os"
  by (induction os rule: segments_of_octets.induct) (auto simp: bytes_of_segment)

lemma length_segments_of_octets: "length (segments_of_octets os) = length os div 2"
  by (induction os rule: segments_of_octets.induct) auto

lemma octets_inject: "octets v = octets w \<longleftrightarrow> v = w"
  by (cases v; cases w) simp

lemma octets_embed:
  assumes "length p = 8" "l \<in> set VALID_LENGTHS"
  shows "length (rfc6052_embed l p v) = 8" "v6_octets (rfc6052_embed l p v) = 
    (let n = unat l div 8; p = take n (v6_octets p); q = octets v in
      if n \<le> 8 then p @ take (8 - n) q @ [0] @ drop (8 - n) q @ replicate (11 - n) 0
      else p @ q)"
  using assms by (auto simp: rfc6052_embed_def VALID_LENGTHS_def length_segments_of_octets 
     v6_octets_of_octets length_v6_octets Let_def)

lemma decode_embed:
  assumes "length p = 8" "l \<in> set VALID_LENGTHS"
  shows "decode_embedded_v4 (rfc6052_embed l p v) l = v"
proof -
  have "octets (decode_embedded_v4 (rfc6052_embed l p v) l) = octets v"
    using assms(2) by (cases v) (auto simp: decode_octets octets_embed assms Let_def length_v6_octets rfc6052_octets_def VALID_LENGTHS_def)
  then show ?thesis by (simp add: octets_inject)
qed

lemma segments_of_v6_octets: "segments_of_octets (v6_octets a) = a"
  by (induction a) (auto simp: segment_of_bytes)

lemma v6_octets_inject: "v6_octets a = v6_octets b \<longleftrightarrow> a = b"
  by (metis segments_of_v6_octets)

lemma high_mask: "high_byte (s AND push_bit 8 (NOT 0)) = high_byte s"
  "low_byte (s AND push_bit 8 (NOT 0)) = 0" "high_byte 0 = 0" "low_byte 0 = 0"
proof -
  show "high_byte (s AND push_bit 8 (NOT 0)) = high_byte s"
    by (rule bit_word_eqI) (simp add: bit_bytes, auto simp: bit_simps)
  show "low_byte (s AND push_bit 8 (NOT 0)) = 0" 
    by (rule bit_word_eqI) (simp add: bit_bytes, auto simp: bit_simps)
qed (simp_all add: high_byte_def low_byte_def)

lemma v6_octets_mask_from:
  "v6_octets (mask_from (8 * int n) a) = take n (v6_octets a) @ replicate (2 * length a - n) 0"
proof (induction a arbitrary: n)
  case (Cons s a)
  consider "n = 0" | "n = 1" | m where "n = Suc (Suc m)"
    by (metis One_nat_def nat.exhaust)
  then show ?case
  proof cases
    case 3
    then have "8 * int n - 16 = 8 * int m" "16 \<le> 8 * int n" by simp_all
    then show ?thesis using Cons [of m] 3 by simp
  next
    case 2 then show ?thesis using Cons [of 0] high_mask by simp
  next
    case 1 then show ?thesis using Cons [of 0] high_mask by simp
  qed
qed simp

lemma v6_octets_mask:
  assumes "length a = 8" "l \<in> set VALID_LENGTHS"
  shows "v6_octets (mask_segments a l) = take (unat l div 8) (v6_octets a) @ replicate (16 - unat l div 8) 0"
proof -
  obtain n where n: "unat l = 8 * n" 
    using valid_length_cases [OF assms(2)] by auto
  then have "uint l = 8 * int n" by (metis of_nat_mult of_nat_numeral uint_nat)
  then show ?thesis using assms(1) n by (simp add: mask_segments_def v6_octets_mask_from)
qed

lemma mask_eq_iff:
  assumes "length a = 8" "length b = 8" "l \<in> set VALID_LENGTHS"
  shows "mask_segments a l = mask_segments b l \<longleftrightarrow> take (unat l div 8) (v6_octets a) = take (unat l div 8) (v6_octets b)"
  using v6_octets_mask [OF assms(1,3)] v6_octets_mask [OF assms(2,3)] by (metis v6_octets_inject append_same_eq)

lemma nsp_new_Inr: "nsp_new p l = Inr nsp \<longleftrightarrow> l \<in> set VALID_LENGTHS \<and> nsp = \<lparr>nsp_masked = mask_segments p l, nsp_prefix_len = l\<rparr>"
  by (auto simp: nsp_new_def)

text \<open>C31: The decoding loop reads the octets that RFC 6052 assigns to the IPv4 address, for every
  permitted prefix length; an operator's prefix recognises exactly the addresses that share its
  leading octets.\<close>

theorem nsp_embedded_v4_table:
  assumes "length prefix = 8" "length a = 8" "nsp_new prefix prefix_len = Inr nsp"
  shows "map_option octets (nsp_embedded_v4 nsp a) =
    (if take (unat prefix_len div 8) (v6_octets a) = take (unat prefix_len div 8) (v6_octets prefix)
     then Some (rfc6052_octets (unat prefix_len div 8) (v6_octets a)) else None)"
  using assms by (auto simp: nsp_new_Inr nsp_embedded_v4_def mask_eq_iff decode_octets)

theorem nsp_embedded_v4_table_witness:
  "map_option octets (nsp_embedded_v4
      \<lparr>nsp_masked = [0x2001, 0xdb8, 0xca00, 0, 0, 0, 0, 0], nsp_prefix_len = 40\<rparr>
      [0x2001, 0xdb8, 0xcaa9, 0xfea9, 0x00fe, 0, 0, 0]) = Some [169, 254, 169, 254]"
  by (subst nsp_embedded_v4_table [of "[0x2001, 0xdb8, 0xcafe, 0, 0, 0, 0, 0]" _ 40])
    (simp, simp, code_simp, code_simp)

lemma embed_shares_prefix:
  assumes "length p = 8" "l \<in> set VALID_LENGTHS"
  shows "take (unat l div 8) (v6_octets (rfc6052_embed l p v)) = take (unat l div 8) (v6_octets p)"
  using octets_embed [OF assms, of v] assms
  by (auto simp: Let_def VALID_LENGTHS_def length_v6_octets)

lemma nsp_roundtrip:
  assumes "length p = 8" "nsp_new p l = Inr nsp"
  shows "nsp_embedded_v4 nsp (rfc6052_embed l p v) = Some v"
  using assms
  by (auto simp: nsp_new_Inr nsp_embedded_v4_def mask_eq_iff octets_embed(1) decode_embed
      embed_shares_prefix)

lemma embedded_private_refused:
  assumes "length prefix = 8" "nsp_new prefix prefix_len = Inr nsp"
    and "transition_v4 (rfc6052_embed prefix_len prefix v4) = None"
    and "\<not> is_public_ipv4 v4 allow_loopback"
  shows "\<not> is_public_ipv6 (rfc6052_embed prefix_len prefix v4) allow_loopback
    (with_nsps (nsp # others))"
proof -
  let ?a = "rfc6052_embed prefix_len prefix v4"
  have a: "length ?a = 8"
    using assms(1,2) by (simp add: nsp_new_Inr octets_embed)
  have "policy_embedded_v4 (with_nsps (nsp # others)) ?a = Some v4"
    by (simp add: policy_embedded_v4_def with_nsps_def nsp_roundtrip [OF assms(1,2)])
  moreover have "?a \<noteq> LOCALHOST"
    using assms(3) by (auto simp: transition_v4_def LOCALHOST_def in_block6_96)
  ultimately show ?thesis
    using assms(3,4) by (simp add: is_public_ipv6_classes [OF a])
qed

lemma first_prefix_decides:
  assumes "length prefix = 8" "nsp_new prefix prefix_len = Inr nsp" "length a = 8"
    and "take (unat prefix_len div 8) (v6_octets a) = take (unat prefix_len div 8) (v6_octets prefix)"
    and "\<And>q. q \<in> set earlier \<Longrightarrow> nsp_embedded_v4 q a = None"
  shows "\<exists>v4. policy_embedded_v4 (with_nsps (earlier @ nsp # later)) a = Some v4
    \<and> octets v4 = rfc6052_octets (unat prefix_len div 8) (v6_octets a)"
proof -
  obtain v4 where "nsp_embedded_v4 nsp a = Some v4"
      "octets v4 = rfc6052_octets (unat prefix_len div 8) (v6_octets a)"
    using assms(1-4)
    by (auto simp: nsp_new_Inr nsp_embedded_v4_def mask_eq_iff decode_octets)
  moreover have "find_map (\<lambda>q. nsp_embedded_v4 q a) (earlier @ nsp # later) = nsp_embedded_v4 nsp a"
    if "nsp_embedded_v4 nsp a \<noteq> None"
    using assms(5) that by (induction earlier) auto
  ultimately show ?thesis
    by (simp add: policy_embedded_v4_def with_nsps_def)
qed

text \<open>C32: Once an operator has configured a NAT64 prefix, every address under it whose octets at the
  places RFC 6052 assigns for the prefix length spell a refused IPv4 address is refused, whatever its
  other octets hold. Two kinds of address are decided otherwise, and excluded here: those of the built-in
  transition forms (mapped, compatible, 6to4, the well-known NAT64 prefix), which the code looks at before
  the configured prefixes, and those under an earlier prefix of the list, since the first match decides.\<close>

theorem configured_nsp_refuses_private:
  assumes "length prefix = 8" "nsp_new prefix prefix_len = Inr nsp" "length a = 8"
    and "take (unat prefix_len div 8) (v6_octets a) = take (unat prefix_len div 8) (v6_octets prefix)"
    and "rfc6052_octets (unat prefix_len div 8) (v6_octets a) = octets v4"
    and "\<not> is_public_ipv4 v4 allow_loopback" and "transition_v4 a = None"
    and "\<And>q. q \<in> set earlier \<Longrightarrow> nsp_embedded_v4 q a = None"
  shows "\<not> is_public_ipv6 a allow_loopback (with_nsps (earlier @ nsp # later))"
proof -
  have "policy_embedded_v4 (with_nsps (earlier @ nsp # later)) a = Some v4"
    using first_prefix_decides [OF assms(1-4,8)] assms(5) by (auto simp: octets_inject)
  moreover have "a \<noteq> LOCALHOST"
    using assms(7) by (auto simp: transition_v4_def LOCALHOST_def in_block6_96)
  ultimately show ?thesis
    using assms(6,7) by (simp add: is_public_ipv6_classes [OF assms(3)])
qed

theorem configured_nsp_refuses_private_witness:
  "\<not> is_public_ipv6 [0x2001, 0xdb8, 1, 0xa9fe, 0x00a9, 0xfe00, 0, 7] False
     (with_nsps [\<lparr>nsp_masked = [0x2001, 0xdb8, 2, 0, 0, 0, 0, 0], nsp_prefix_len = 48\<rparr>,
                 \<lparr>nsp_masked = [0x2001, 0xdb8, 1, 0, 0, 0, 0, 0], nsp_prefix_len = 48\<rparr>])"
proof -
  let ?a = "[0x2001, 0xdb8, 1, 0xa9fe, 0x00a9, 0xfe00, 0, 7] :: ipv6"
  let ?p = "[0x2001, 0xdb8, 1, 0, 0, 0, 0, 0] :: ipv6"
  let ?nsp = "\<lambda>p. \<lparr>nsp_masked = p, nsp_prefix_len = 48\<rparr>"
  let ?earlier = "[?nsp [0x2001, 0xdb8, 2, 0, 0, 0, 0, 0]]"
  have new: "nsp_new ?p 48 = Inr (?nsp ?p)" by code_simp
  have under: "take (unat (48 :: u8) div 8) (v6_octets ?a) = take (unat (48 :: u8) div 8) (v6_octets ?p)"
    by code_simp
  have octs: "rfc6052_octets (unat (48 :: u8) div 8) (v6_octets ?a) = octets (V4 169 254 169 254)"
    by code_simp
  have v4: "\<not> is_public_ipv4 (V4 169 254 169 254) False" "transition_v4 ?a = None" by code_simp+
  have "nsp_embedded_v4 (?nsp [0x2001, 0xdb8, 2, 0, 0, 0, 0, 0]) ?a = None" by code_simp
  then have other: "nsp_embedded_v4 q ?a = None" if "q \<in> set ?earlier" for q using that by simp
  have "\<not> is_public_ipv6 ?a False (with_nsps (?earlier @ ?nsp ?p # []))"
    by (rule configured_nsp_refuses_private [OF _ new _ under octs v4 other]) simp_all
  then show ?thesis by simp
qed

subsection \<open>The policy parser\<close>

definition nsp_inv :: "nat64_nsp \<Rightarrow> bool" where
  "nsp_inv n \<longleftrightarrow> nsp_prefix_len n \<in> set VALID_LENGTHS \<and> length (nsp_masked n) = 8
     \<and> mask_segments (nsp_masked n) (nsp_prefix_len n) = nsp_masked n"

lemma length_mask_from [simp]: "length (mask_from k a) = length a"
  by (induction k a rule: mask_from.induct) auto

lemma nsp_new_inv:
  assumes "length p = 8" "nsp_new p l = Inr n"
  shows "nsp_inv n"
proof -
  have l: "l \<in> set VALID_LENGTHS" and n: "n = \<lparr>nsp_masked = mask_segments p l, nsp_prefix_len = l\<rparr>"
    using assms(2) by (simp_all add: nsp_new_Inr)
  have m: "length (mask_segments p l) = 8"
    using assms(1) by (simp add: mask_segments_def)
  have "take (unat l div 8) (v6_octets (mask_segments p l)) = take (unat l div 8) (v6_octets p)"
    using l assms(1) by (auto simp: v6_octets_mask VALID_LENGTHS_def length_v6_octets)
  then show ?thesis
    using l m assms(1) by (simp add: n nsp_inv_def mask_eq_iff)
qed

lemma nsp_parse_inv: "nsp_parse c = Inr n \<Longrightarrow> nsp_inv n"
  by (auto simp: nsp_parse_def split: option.splits prod.splits
      intro: nsp_new_inv [OF parse_ipv6_length])

lemma parse_all_Inr:
  "parse_all cs = Inr ns \<longleftrightarrow> map nsp_parse cs = map Inr ns"
proof (induction cs arbitrary: ns)
  case (Cons c cs)
  then show ?case
    by (cases "nsp_parse c"; cases "parse_all cs") (auto simp: map_eq_Cons_conv Cons_eq_map_conv)
qed auto

text \<open>Parsing the operator's list is all or nothing: it succeeds exactly when every entry does,
  with one prefix per entry in the same order, and every prefix has a permitted length and no bit
  below it.\<close>

theorem from_cidrs_all_or_nothing:
  "from_cidrs cidrs = Inr policy \<longleftrightarrow>
     map nsp_parse cidrs = map Inr (nsps policy) \<and> list_all nsp_inv (nsps policy)"
proof -
  have "list_all nsp_inv ns" if "map nsp_parse cidrs = map Inr ns" for ns
    using that nsp_parse_inv
    by (induction cidrs arbitrary: ns) (auto simp: Cons_eq_map_conv)
  then show ?thesis
    by (cases policy) (auto simp: from_cidrs_def parse_all_Inr [symmetric] split: sum.splits)
qed

end
