(* ===== verification/Url_Rules.thy ===== *)
theory Url_Rules
  imports Providers Verifier Ipaddr_Text
begin

section \<open>What the code relies on of the \<open>url\<close> crate\<close>

text \<open>
  The \<open>url\<close> crate stays a parameter. Here the documented behaviour of the operations the code calls is
  one predicate, \<open>url_rules\<close>: a parsed URL has components, the setters change the component they name,
  the serialiser prints the components as the URL Standard does, and joining a relative path replaces
  what follows the last slash. Under these rules the texts the code compares and fetches are determined:
  the \<open>htu\<close> comparison, the profile URL and the discovery URL.
\<close>

subsection \<open>Components and their text\<close>

record url_view =
  uv_scheme :: string
  uv_user :: string
  uv_pass :: "string option"
  uv_host :: "string option"
  uv_port :: "nat option"
  uv_path :: string
  uv_query :: "string option"
  uv_fragment :: "string option"

definition print_opt :: "string \<Rightarrow> string option \<Rightarrow> string" where
  "print_opt sep part = (case part of Some s \<Rightarrow> sep @ s | None \<Rightarrow> [])"

definition print_userinfo :: "string \<Rightarrow> string option \<Rightarrow> string" where
  "print_userinfo user pass =
     (if user = [] \<and> pass = None then [] else user @ print_opt '':'' pass @ ''@'')"

definition print_url :: "url_view \<Rightarrow> string" where
  "print_url v = uv_scheme v @ '':''
     @ (case uv_host v of
          Some h \<Rightarrow> ''//'' @ print_userinfo (uv_user v) (uv_pass v) @ h
            @ print_opt '':'' (map_option show_nat (uv_port v))
        | None \<Rightarrow> [])
     @ uv_path v @ print_opt ''?'' (uv_query v) @ print_opt ''#'' (uv_fragment v)"

text \<open>
  Components as the parser leaves them: delimiters inside a component are percent-encoded, and a host
  with a colon is a bracketed IPv6 address.
\<close>

definition free_of :: "string \<Rightarrow> string \<Rightarrow> bool" where
  "free_of cs s \<longleftrightarrow> set cs \<inter> set s = {}"

definition host_text_ok :: "string \<Rightarrow> bool" where
  "host_text_ok h \<longleftrightarrow> free_of ''/?#@'' h \<and>
     (if h \<noteq> [] \<and> hd h = CHR ''['' then last h = CHR '']'' \<and> CHR '']'' \<notin> set (butlast h)
      else free_of '':'' h)"

definition url_view_ok :: "url_view \<Rightarrow> bool" where
  "url_view_ok v \<longleftrightarrow> free_of '':'' (uv_scheme v)
     \<and> free_of '':/?#@'' (uv_user v) \<and> (case uv_pass v of Some p \<Rightarrow> free_of '':/?#@'' p | None \<Rightarrow> True)
     \<and> (case uv_host v of Some h \<Rightarrow> host_text_ok h | None \<Rightarrow> True)
     \<and> free_of ''?#'' (uv_path v) \<and> (uv_path v = [] \<or> hd (uv_path v) = CHR ''/'')
     \<and> (case uv_query v of Some q \<Rightarrow> free_of ''#'' q | None \<Rightarrow> True)"

text \<open>A web URL: with a host and a path, as every \<open>http\<close> and \<open>https\<close> URL is; a default port is dropped.\<close>

definition default_port :: "string \<Rightarrow> nat" where
  "default_port scheme = (if scheme = ''https'' then 443 else 80)"

definition web_view :: "url_view \<Rightarrow> bool" where
  "web_view v \<longleftrightarrow> uv_scheme v \<in> {''http'', ''https''} \<and> uv_host v \<noteq> None \<and> uv_path v \<noteq> []
     \<and> uv_port v \<noteq> Some (default_port (uv_scheme v))"

subsection \<open>The rules\<close>

definition relative_path :: "string \<Rightarrow> bool" where
  "relative_path r \<longleftrightarrow> r \<noteq> [] \<and> free_of '':?#%'' r \<and> CHR 0x5C \<notin> set r \<and> hd r \<noteq> CHR ''/''
     \<and> list_all (\<lambda>seg. seg \<notin> {''.'', ''..'', []}) (split_on (CHR ''/'') r)"

text \<open>The rules speak of web URLs only; for other schemes nothing is assumed but the observers.\<close>

definition url_rules :: "'u url_crate \<Rightarrow> ('u \<Rightarrow> url_view) \<Rightarrow> bool" where
  "url_rules U view \<longleftrightarrow>
     (\<forall>u. url_scheme U u = uv_scheme (view u) \<and> url_username U u = uv_user (view u)
        \<and> url_password U u = uv_pass (view u) \<and> url_host_str U u = uv_host (view u)
        \<and> url_path U u = uv_path (view u))
     \<and> (\<forall>t u. url_parse U t = Some u \<and> uv_scheme (view u) \<in> {''http'', ''https''} \<longrightarrow>
          web_view (view u) \<and> url_view_ok (view u))
     \<and> (\<forall>u. web_view (view u) \<longrightarrow>
          url_to_string U u = print_url (view u)
          \<and> (\<exists>x. url_parse U (url_to_string U u) = Some x \<and> view x = view u)
          \<and> view (url_set_query_none U u) = (view u)\<lparr>uv_query := None\<rparr>
          \<and> view (url_set_fragment_none U u) = (view u)\<lparr>uv_fragment := None\<rparr>
          \<and> view (url_set_username U [] u) = (view u)\<lparr>uv_user := []\<rparr>
          \<and> view (url_set_password_none U u) = (view u)\<lparr>uv_pass := None\<rparr>
          \<and> view (url_set_path U (uv_path (view u) @ ''/'') u) = (view u)\<lparr>uv_path := uv_path (view u) @ ''/''\<rparr>
          \<and> (\<forall>r. last (uv_path (view u)) = CHR ''/'' \<and> relative_path r \<longrightarrow>
               (\<exists>x. url_join U u r = Some x
                  \<and> view x = (view u)\<lparr>uv_path := uv_path (view u) @ r, uv_query := None, uv_fragment := None\<rparr>)))"

lemma url_observers:
  assumes "url_rules U view"
  shows "url_scheme U u = uv_scheme (view u)" "url_username U u = uv_user (view u)"
    "url_password U u = uv_pass (view u)" "url_host_str U u = uv_host (view u)"
    "url_path U u = uv_path (view u)"
  using assms unfolding url_rules_def by blast+

lemma url_parsed:
  assumes "url_rules U view" "url_parse U t = Some u" "uv_scheme (view u) \<in> {''http'', ''https''}"
  shows "web_view (view u)" "url_view_ok (view u)"
  using assms unfolding url_rules_def by blast+

lemma url_printed:
  assumes "url_rules U view" "web_view (view u)"
  shows "url_to_string U u = print_url (view u)"
    and "\<exists>x. url_parse U (url_to_string U u) = Some x \<and> view x = view u"
  using assms unfolding url_rules_def by blast+

lemma url_setters:
  assumes "url_rules U view" "web_view (view u)"
  shows "view (url_set_query_none U u) = (view u)\<lparr>uv_query := None\<rparr>"
    "view (url_set_fragment_none U u) = (view u)\<lparr>uv_fragment := None\<rparr>"
    "view (url_set_username U [] u) = (view u)\<lparr>uv_user := []\<rparr>"
    "view (url_set_password_none U u) = (view u)\<lparr>uv_pass := None\<rparr>"
    "view (url_set_path U (uv_path (view u) @ ''/'') u) = (view u)\<lparr>uv_path := uv_path (view u) @ ''/''\<rparr>"
  using assms unfolding url_rules_def by blast+

lemma url_joined:
  assumes "url_rules U view" "web_view (view u)" "last (uv_path (view u)) = CHR ''/''" "relative_path r"
  shows "\<exists>x. url_join U u r = Some x
     \<and> view x = (view u)\<lparr>uv_path := uv_path (view u) @ r, uv_query := None, uv_fragment := None\<rparr>"
  using assms unfolding url_rules_def by blast

lemma web_view_updates [simp]:
  "web_view (v\<lparr>uv_query := q\<rparr>) = web_view v" "web_view (v\<lparr>uv_fragment := f\<rparr>) = web_view v"
  "web_view (v\<lparr>uv_user := n\<rparr>) = web_view v" "web_view (v\<lparr>uv_pass := p\<rparr>) = web_view v"
  "web_view v \<Longrightarrow> s \<noteq> [] \<Longrightarrow> web_view (v\<lparr>uv_path := s\<rparr>)"
  by (simp_all add: web_view_def)

subsection \<open>The text determines the components\<close>

text \<open>A reader of the printed form: cut at the first of some separators.\<close>

definition cut :: "string \<Rightarrow> string \<Rightarrow> string \<times> string" where
  "cut cs s = (takeWhile (\<lambda>x. x \<notin> set cs) s, dropWhile (\<lambda>x. x \<notin> set cs) s)"

definition read_opt :: "string \<Rightarrow> string option" where
  "read_opt s = (case s of [] \<Rightarrow> None | _ # r \<Rightarrow> Some r)"

definition read_userinfo :: "string \<Rightarrow> string \<times> string option" where
  "read_userinfo s = (case cut '':'' s of (n, p) \<Rightarrow> (n, read_opt p))"

definition read_host_port :: "string \<Rightarrow> string \<times> nat option" where
  "read_host_port s =
     (let (h, p) = (if s \<noteq> [] \<and> hd s = CHR ''['' then (case cut '']'' s of (a, b) \<Rightarrow> (a @ take 1 b, drop 1 b))
                    else cut '':'' s)
      in (h, map_option (digits_value 10) (read_opt p)))"

definition read_authority :: "string \<Rightarrow> (string \<times> string option) \<times> string \<times> nat option" where
  "read_authority s =
     (case cut ''@'' s of (a, b) \<Rightarrow>
        if b = [] then (([], None), read_host_port a) else (read_userinfo a, read_host_port (drop 1 b)))"

definition read_web :: "string \<Rightarrow> url_view" where
  "read_web t =
     (let (scheme, rest) = cut '':'' t;
          (auth, tail) = cut ''/?#'' (drop 3 rest);
          ((n, p), h, port) = read_authority auth;
          (path, after) = cut ''?#'' tail;
          (q, f) = cut ''#'' after
      in \<lparr>uv_scheme = scheme, uv_user = n, uv_pass = p, uv_host = Some h, uv_port = port, uv_path = path,
          uv_query = read_opt q, uv_fragment = read_opt f\<rparr>)"

lemma cut_free:
  assumes "free_of cs s" "r = [] \<or> hd r \<in> set cs"
  shows "cut cs (s @ r) = (s, r)"
proof -
  have "\<forall>x \<in> set s. x \<notin> set cs" using assms(1) by (auto simp: free_of_def)
  then show ?thesis using assms(2) by (cases r) (simp_all add: cut_def takeWhile_append2 dropWhile_append2)
qed

lemma free_of_append [simp]: "free_of cs (a @ b) \<longleftrightarrow> free_of cs a \<and> free_of cs b"
  by (auto simp: free_of_def)

lemma free_of_mono: "free_of cs s \<Longrightarrow> set ds \<subseteq> set cs \<Longrightarrow> free_of ds s"
  by (auto simp: free_of_def)

lemma print_opt_hd: "print_opt [c] p = [] \<or> hd (print_opt [c] p) = c"
  by (cases p) (simp_all add: print_opt_def)

lemma read_opt_print [simp]: "read_opt (print_opt [c] p) = p"
  by (cases p) (simp_all add: print_opt_def read_opt_def)

lemma free_of_print_opt:
  "free_of cs (print_opt sep p) \<longleftrightarrow> (case p of Some x \<Rightarrow> free_of cs sep \<and> free_of cs x | None \<Rightarrow> True)"
  by (auto simp: free_of_def print_opt_def split: option.split)

lemma show_nat_free: "free_of ''/?#@:'' (show_nat n)"
proof -
  have "\<not> is_digit 10 c" if "c \<in> set ''/?#@:''" for c
    using that by (auto simp: is_digit_def digit_value_def)
  then show ?thesis
    using show_nat_digits [of n] unfolding free_of_def list_all_iff by blast
qed

lemma read_userinfo_print:
  assumes "free_of '':/?#@'' n"
  shows "read_userinfo (n @ print_opt '':'' p) = (n, p)"
proof -
  have "cut '':'' (n @ print_opt '':'' p) = (n, print_opt '':'' p)"
    using print_opt_hd [of "CHR '':''" p] by (intro cut_free free_of_mono [OF assms]) auto
  then show ?thesis by (simp add: read_userinfo_def)
qed

abbreviation port_text :: "nat option \<Rightarrow> string" where
  "port_text q \<equiv> print_opt '':'' (map_option show_nat q)"

lemma port_value: "map_option (digits_value 10) (map_option show_nat q) = q"
  using show_nat_digits by (cases q) simp_all

lemma read_host_port_print:
  assumes "host_text_ok h"
  shows "read_host_port (h @ port_text q) = (h, q)"
proof (cases "h \<noteq> [] \<and> hd h = CHR ''[''")
  case True
  then have l: "last h = CHR '']''" "CHR '']'' \<notin> set (butlast h)"
    using assms by (simp_all add: host_text_ok_def)
  have h: "h = butlast h @ [CHR '']'']" using True l(1) by (metis append_butlast_last_id)
  have "cut '']'' (butlast h @ CHR '']'' # port_text q) = (butlast h, CHR '']'' # port_text q)"
    using l(2) by (intro cut_free) (simp_all add: free_of_def)
  then have "cut '']'' (h @ port_text q) = (butlast h, CHR '']'' # port_text q)"
    by (subst h) simp
  then show ?thesis using True h port_value by (simp add: read_host_port_def)
next
  case False
  then have "free_of '':'' h" using assms by (auto simp: host_text_ok_def)
  then have "cut '':'' (h @ port_text q) = (h, port_text q)"
    using print_opt_hd by (intro cut_free) auto
  moreover have nb: "\<not> (h @ port_text q \<noteq> [] \<and> hd (h @ port_text q) = CHR ''['')"
    using False print_opt_hd [of "CHR '':''" "map_option show_nat q"] by (auto simp: hd_append)
  ultimately show ?thesis
    using port_value unfolding read_host_port_def if_not_P [OF nb] by simp
qed

lemma host_port_free:
  assumes "host_text_ok h"
  shows "free_of ''@/?#'' (h @ port_text q)"
proof -
  have "free_of ''@/?#'' h" using assms by (simp add: host_text_ok_def free_of_def)
  moreover have "free_of ''@/?#'' (show_nat n)" for n
    by (rule free_of_mono [OF show_nat_free]) auto
  ultimately show ?thesis
    by (cases q) (simp_all add: print_opt_def free_of_def)
qed

lemma userinfo_free:
  assumes "free_of '':/?#@'' n" "case p of Some x \<Rightarrow> free_of '':/?#@'' x | None \<Rightarrow> True"
  shows "free_of ''@/?#'' (n @ print_opt '':'' p)"
  using assms by (cases p) (simp_all add: print_opt_def free_of_def)

definition authority :: "url_view \<Rightarrow> string \<Rightarrow> string" where
  "authority v h = print_userinfo (uv_user v) (uv_pass v) @ h @ port_text (uv_port v)"

lemma authority_parts:
  assumes "url_view_ok v" "uv_host v = Some h"
  shows "read_authority (authority v h) = ((uv_user v, uv_pass v), h, uv_port v)"
    "free_of ''/?#'' (authority v h)"
proof -
  have ok: "host_text_ok h" "free_of '':/?#@'' (uv_user v)"
      "case uv_pass v of Some x \<Rightarrow> free_of '':/?#@'' x | None \<Rightarrow> True"
    using assms by (simp_all add: url_view_ok_def)
  let ?ui = "uv_user v @ print_opt '':'' (uv_pass v)" and ?hp = "h @ port_text (uv_port v)"
  note ui = userinfo_free [OF ok(2,3)] and hp = host_port_free [OF ok(1), of "uv_port v"]
  have at: "free_of ''@'' ?ui" "free_of ''@'' ?hp"
    by (rule free_of_mono [OF ui], simp) (rule free_of_mono [OF hp], simp)
  have "cut ''@'' ?hp = (?hp, [])" using cut_free [OF at(2), of "[]"] by simp
  moreover have "cut ''@'' (?ui @ CHR ''@'' # ?hp) = (?ui, CHR ''@'' # ?hp)"
    using at(1) by (intro cut_free) simp_all
  ultimately show "read_authority (authority v h) = ((uv_user v, uv_pass v), h, uv_port v)"
    using read_userinfo_print [OF ok(2)] read_host_port_print [OF ok(1)]
    by (simp add: read_authority_def authority_def print_userinfo_def)
  have "free_of ''/?#'' ?ui" "free_of ''/?#'' ?hp"
    by (rule free_of_mono [OF ui], simp) (rule free_of_mono [OF hp], simp)
  then show "free_of ''/?#'' (authority v h)"
    by (simp add: authority_def print_userinfo_def) (simp add: free_of_def)
qed

text \<open>The printed form of a web URL reads back as its components.\<close>

theorem read_print_web:
  assumes "url_view_ok v" "web_view v"
  shows "read_web (print_url v) = v"
proof -
  obtain h where h: "uv_host v = Some h" using assms(2) by (auto simp: web_view_def)
  let ?q = "print_opt ''?'' (uv_query v)" and ?f = "print_opt ''#'' (uv_fragment v)"
  have p: "print_url v = uv_scheme v @ ''://'' @ authority v h @ uv_path v @ ?q @ ?f"
    by (simp add: print_url_def authority_def h)
  have c1: "cut '':'' (print_url v) = (uv_scheme v, ''://'' @ authority v h @ uv_path v @ ?q @ ?f)"
    unfolding p using assms(1) by (intro cut_free) (simp_all add: url_view_ok_def)
  have c2: "drop 3 (''://'' @ authority v h @ uv_path v @ ?q @ ?f) = authority v h @ uv_path v @ ?q @ ?f"
    by simp
  have c3: "cut ''/?#'' (authority v h @ uv_path v @ ?q @ ?f) = (authority v h, uv_path v @ ?q @ ?f)"
    using assms by (intro cut_free authority_parts(2) h) (auto simp: url_view_ok_def web_view_def hd_append)
  have c4: "cut ''?#'' (uv_path v @ ?q @ ?f) = (uv_path v, ?q @ ?f)"
    using assms(1) print_opt_hd [of "CHR ''?''" "uv_query v"] print_opt_hd [of "CHR ''#''" "uv_fragment v"]
    by (intro cut_free) (auto simp: url_view_ok_def hd_append)
  have c5: "cut ''#'' (?q @ ?f) = (?q, ?f)"
  proof (rule cut_free)
    show "free_of ''#'' ?q"
      using assms(1) by (cases "uv_query v") (simp_all add: url_view_ok_def print_opt_def free_of_def)
    show "?f = [] \<or> hd ?f \<in> set ''#''" using print_opt_hd [of "CHR ''#''" "uv_fragment v"] by simp
  qed
  show ?thesis
    by (simp only: read_web_def Let_def c1 c2 c3 c4 c5 prod.case authority_parts(1) [OF assms(1) h]
        read_opt_print h [symmetric]) simp
qed

corollary print_url_inj:
  assumes "url_view_ok v" "web_view v" "url_view_ok w" "web_view w" and "print_url v = print_url w"
  shows "v = w"
  using read_print_web [OF assms(1,2)] read_print_web [OF assms(3,4)] assms(5) by metis

subsection \<open>A crate that keeps the rules\<close>

text \<open>
  URLs as their components, read by \<open>read_web\<close>: a default port is dropped and an empty path is the root.
  Components that no parser leaves are not those of a web URL.
\<close>

definition normal_view :: "url_view \<Rightarrow> url_view" where
  "normal_view v =
     (let w = (if uv_port v = Some (default_port (uv_scheme v)) then v\<lparr>uv_port := None\<rparr> else v)
      in if uv_path w = [] then w\<lparr>uv_path := ''/''\<rparr> else w)"

definition read_url :: "string \<Rightarrow> url_view option" where
  "read_url t =
     (let r = read_web t; v = normal_view r
      in if print_url r = t \<and> url_view_ok v \<and> web_view v then Some v else None)"

definition sane_view :: "url_view \<Rightarrow> url_view" where
  "sane_view v = (if url_view_ok v then v else v\<lparr>uv_scheme := []\<rparr>)"

definition view_crate :: "url_view url_crate" where
  "view_crate =
     \<lparr>url_parse = read_url, url_to_string = print_url, url_scheme = (\<lambda>u. uv_scheme (sane_view u)),
      url_username = uv_user, url_password = uv_pass, url_host_str = uv_host,
      url_port_or_known_default =
        (\<lambda>u. Some (case uv_port u of Some p \<Rightarrow> p | None \<Rightarrow> default_port (uv_scheme u))),
      url_path = uv_path, url_set_path = (\<lambda>p u. u\<lparr>uv_path := p\<rparr>),
      url_set_query_none = (\<lambda>u. u\<lparr>uv_query := None\<rparr>),
      url_set_fragment_none = (\<lambda>u. u\<lparr>uv_fragment := None\<rparr>),
      url_set_username = (\<lambda>n u. u\<lparr>uv_user := n\<rparr>), url_set_password_none = (\<lambda>u. u\<lparr>uv_pass := None\<rparr>),
      url_join = (\<lambda>u r. Some (u\<lparr>uv_path := uv_path u @ r, uv_query := None, uv_fragment := None\<rparr>))\<rparr>"

lemma view_crate_parse: "url_parse view_crate = read_url"
  by (simp add: view_crate_def)

lemma sane_web: "web_view (sane_view u) \<Longrightarrow> url_view_ok u \<and> sane_view u = u"
  by (auto simp: sane_view_def web_view_def split: if_splits)

lemma normal_view_web: "web_view v \<Longrightarrow> normal_view v = v"
  by (auto simp: normal_view_def web_view_def Let_def)

lemma read_url_print: "url_view_ok v \<Longrightarrow> web_view v \<Longrightarrow> read_url (print_url v) = Some v"
  by (simp add: read_url_def read_print_web normal_view_web)

lemma read_url_ok: "read_url t = Some v \<Longrightarrow> url_view_ok v \<and> web_view v"
  by (auto simp: read_url_def Let_def split: if_splits)

lemma url_view_ok_updates:
  assumes "url_view_ok v"
  shows "url_view_ok (v\<lparr>uv_query := None\<rparr>)" "url_view_ok (v\<lparr>uv_fragment := None\<rparr>)"
    "url_view_ok (v\<lparr>uv_user := []\<rparr>)" "url_view_ok (v\<lparr>uv_pass := None\<rparr>)"
    and "uv_path v \<noteq> [] \<Longrightarrow> free_of ''?#'' r \<Longrightarrow> url_view_ok (v\<lparr>uv_path := uv_path v @ r\<rparr>)"
  using assms by (auto simp: url_view_ok_def hd_append) (auto simp: free_of_def)

lemma url_rules_view_crate: "url_rules view_crate sane_view"
proof -
  have parsed: "web_view (sane_view u) \<and> url_view_ok (sane_view u)"
    if "url_parse view_crate t = Some u" for t u
    using that read_url_ok [of t u] by (simp add: view_crate_def sane_view_def)
  have rules: "url_to_string view_crate u = print_url (sane_view u)
      \<and> (\<exists>x. url_parse view_crate (url_to_string view_crate u) = Some x \<and> sane_view x = sane_view u)
      \<and> sane_view (url_set_query_none view_crate u) = (sane_view u)\<lparr>uv_query := None\<rparr>
      \<and> sane_view (url_set_fragment_none view_crate u) = (sane_view u)\<lparr>uv_fragment := None\<rparr>
      \<and> sane_view (url_set_username view_crate [] u) = (sane_view u)\<lparr>uv_user := []\<rparr>
      \<and> sane_view (url_set_password_none view_crate u) = (sane_view u)\<lparr>uv_pass := None\<rparr>
      \<and> sane_view (url_set_path view_crate (uv_path (sane_view u) @ ''/'') u) =
          (sane_view u)\<lparr>uv_path := uv_path (sane_view u) @ ''/''\<rparr>"
    "relative_path r \<Longrightarrow> \<exists>x. url_join view_crate u r = Some x
       \<and> sane_view x = (sane_view u)\<lparr>uv_path := uv_path (sane_view u) @ r, uv_query := None, uv_fragment := None\<rparr>"
    if "web_view (sane_view u)" for u r
  proof -
    have u: "url_view_ok u" "sane_view u = u" "web_view u" "uv_path u \<noteq> []"
      using sane_web [OF that] that by (auto simp: web_view_def)
    have "free_of ''?#'' ''/''" by (simp add: free_of_def)
    note ok = url_view_ok_updates [OF u(1)] url_view_ok_updates(5) [OF u(1,4) this]
    show "url_to_string view_crate u = print_url (sane_view u)
      \<and> (\<exists>x. url_parse view_crate (url_to_string view_crate u) = Some x \<and> sane_view x = sane_view u)
      \<and> sane_view (url_set_query_none view_crate u) = (sane_view u)\<lparr>uv_query := None\<rparr>
      \<and> sane_view (url_set_fragment_none view_crate u) = (sane_view u)\<lparr>uv_fragment := None\<rparr>
      \<and> sane_view (url_set_username view_crate [] u) = (sane_view u)\<lparr>uv_user := []\<rparr>
      \<and> sane_view (url_set_password_none view_crate u) = (sane_view u)\<lparr>uv_pass := None\<rparr>
      \<and> sane_view (url_set_path view_crate (uv_path (sane_view u) @ ''/'') u) =
          (sane_view u)\<lparr>uv_path := uv_path (sane_view u) @ ''/''\<rparr>"
      using ok read_url_print [OF u(1,3)] by (simp add: view_crate_def u(2)) (simp add: sane_view_def)
    show "\<exists>x. url_join view_crate u r = Some x
       \<and> sane_view x = (sane_view u)\<lparr>uv_path := uv_path (sane_view u) @ r, uv_query := None, uv_fragment := None\<rparr>"
      if "relative_path r"
    proof -
      have "free_of ''?#'' r" using that by (auto simp: relative_path_def free_of_def)
      from url_view_ok_updates(5) [OF u(1,4) this] have
        "url_view_ok (u\<lparr>uv_path := uv_path u @ r, uv_query := None, uv_fragment := None\<rparr>)"
        using url_view_ok_updates(1,2) by fastforce
      then show ?thesis by (simp add: view_crate_def u(2)) (simp add: sane_view_def)
    qed
  qed
  have obs: "url_scheme view_crate u = uv_scheme (sane_view u)" "url_username view_crate u = uv_user (sane_view u)"
      "url_password view_crate u = uv_pass (sane_view u)" "url_host_str view_crate u = uv_host (sane_view u)"
      "url_path view_crate u = uv_path (sane_view u)" for u
    by (simp_all add: view_crate_def) (simp_all add: sane_view_def)
  show ?thesis
    unfolding url_rules_def using obs parsed rules by blast
qed

end
