(* ===== verification/Listing.thy ===== *)
theory Listing
  imports Failures Url_Texts
begin

section \<open>The issuer check over fetched profiles\<close>

text \<open>
  The contract of the \<open>WebIdResolver\<close> trait: an issuer a resolver reports for a WebID comes with the
  evidence it stands for. The network resolver's evidence is the profile document; in strict mode an
  acceptance then rests on a triple of the WebID's own document.
\<close>

subsection \<open>The contract of a WebID resolver\<close>

locale webid_profiles =
  fixes resolve :: "'w webid_resolver"
    and evidence :: "string \<Rightarrow> string \<Rightarrow> bool"
  assumes reported: "resolve web_id w = (Ok profile, w') \<Longrightarrow> iss \<in> issuers profile \<Longrightarrow> evidence web_id iss"
begin

lemma strict_check:
  assumes "bidirectional_mode (v_config V) = Strict" "webid_resolver (v_config V) = Some resolve"
    and "check_bidirectional V web_id iss w = (Ok (), w')"
  shows "evidence web_id iss"
proof -
  obtain q w1 where q: "resolve web_id w = (q, w1)" by fastforce
  then have "\<exists>profile. q = Ok profile \<and> iss \<in> issuers profile"
    using assms by (cases q) (auto simp: check_bidirectional_def Let_def split: if_splits)
  then show ?thesis using reported q by blast
qed

lemma strict_acceptance:
  assumes "bidirectional_mode (v_config V) = Strict" "webid_resolver (v_config V) = Some resolve"
    and "verify V req w = (Ok tok, w')" "\<not> is_public tok"
  obtains web_id iss where "tok_web_id tok = Some web_id" "tok_issuer tok = Some iss" "evidence web_id iss"
    "validate_webid_claim (v_urls V) web_id = Ok web_id"
  using assms(3,4)
proof (cases rule: accepted_cases)
  case (1 scheme token iss keys wk now c web_id wt w1 w2)
  have "evidence web_id iss" using strict_check [OF assms(1,2) 1(14)] .
  moreover have "validate_webid_claim (v_urls V) web_id = Ok web_id"
    using 1(11) by (simp add: extract_webid_Ok_iff)
  ultimately show thesis using that 1(15) by simp
qed

end

subsection \<open>The network resolver keeps it\<close>

definition document_lists ::
  "'u url_crate \<Rightarrow> turtle_crate \<Rightarrow> (string \<Rightarrow> string \<Rightarrow> ('w, string, safe_response) io) \<Rightarrow> string \<Rightarrow> string \<Rightarrow> bool" where
  "document_lists U T g web_id iss \<longleftrightarrow>
     (\<exists>resp ts t. returns (g (canonicalise_profile_url U web_id) PROFILE_ACCEPT) resp
        \<and> turtle_results T (if base_iri_ok T (final_url resp) then Some (final_url resp) else None)
            (response_body resp) = map Inr ts
        \<and> t \<in> set ts \<and> lists_issuer web_id (canonicalise_profile_url U web_id) iss t)"

interpretation network_profiles: webid_profiles "network_resolve U T g" "document_lists U T g" for U T g
proof unfold_locales
  fix web_id w profile w' iss
  assume "network_resolve U T g web_id w = (Ok profile, w')" "iss \<in> issuers profile"
  then show "document_lists U T g web_id iss"
    unfolding network_resolve_iff document_lists_def returns_def by blast
qed

text \<open>C26: In strict mode an issuer is believed only on the word of the WebID's owner. With the network
  resolver configured, an accepted token's WebID is an https URL, the document fetched for it is at the
  WebID itself without its fragment, and this document holds a \<open>solid:oidcIssuer\<close> triple, about the
  WebID or about the document, whose object is the token's issuer. A failed fetch, a document that is no
  Turtle, a literal and a statement about anybody else are never enough.\<close>

theorem strict_mode_rests_on_profile:
  assumes "url_rules (v_urls V) view" and "bidirectional_mode (v_config V) = Strict"
    and "webid_resolver (v_config V) = Some (network_resolve (v_urls V) T g)"
    and "verify V req w = (Ok tok, w')" and "\<not> is_public tok"
  shows "\<exists>web_id iss u x profile_url resp ts t. tok_web_id tok = Some web_id \<and> tok_issuer tok = Some iss
    \<and> url_parse (v_urls V) web_id = Some u \<and> uv_scheme (view u) = ''https''
    \<and> url_parse (v_urls V) profile_url = Some x
    \<and> view x = (view u)\<lparr>uv_fragment := None, uv_user := [], uv_pass := None\<rparr>
    \<and> returns (g profile_url PROFILE_ACCEPT) resp
    \<and> turtle_results T (if base_iri_ok T (final_url resp) then Some (final_url resp) else None)
        (response_body resp) = map Inr ts
    \<and> t \<in> set ts \<and> predicate_of t = SOLID_OIDC_ISSUER \<and> object_of t = NamedTerm iss
    \<and> subject_of t \<in> {NamedSubject web_id, NamedSubject profile_url}"
proof -
  obtain web_id iss where t: "tok_web_id tok = Some web_id" "tok_issuer tok = Some iss"
      "document_lists (v_urls V) T g web_id iss" "validate_webid_claim (v_urls V) web_id = Ok web_id"
    using network_profiles.strict_acceptance [OF assms(2-5)] .
  obtain u where u: "url_parse (v_urls V) web_id = Some u" "uv_scheme (view u) = ''https''"
    using t(4) url_observers(1) [OF assms(1)] by (auto simp: validate_webid_claim_def split: option.splits if_splits)
  then obtain x where "url_parse (v_urls V) (canonicalise_profile_url (v_urls V) web_id) = Some x"
      "view x = document_of (view u)"
    using profile_url_reparsed [OF assms(1) u(1)] by auto
  then show ?thesis
    using t u unfolding document_lists_def lists_issuer_def document_of_def by blast
qed

definition profile_verifier :: "(nat, string, string, string, url_view) verifier" where
  "profile_verifier =
     \<lparr>v_config = bidirectional Strict
        (network_resolve view_crate
          \<lparr>base_iri_ok = (\<lambda>_. True), turtle_results = (\<lambda>_ body. [Inr \<lparr>subject_of = NamedSubject body,
             predicate_of = SOLID_OIDC_ISSUER, object_of = NamedTerm ''https://idp''\<rparr>])\<rparr>
          (\<lambda>url accept w. (Ok \<lparr>response_body = url, final_url = url\<rparr>, w)))
        (new_config [''https://idp''] ''https://rs''),
      v_jwks = static_keys_for (with_issuer ''https://idp'' [ec_jwk ''k''] new_static),
      v_mark = (\<lambda>j ttl w. (Ok New, Suc w)),
      v_crates = sample_crates verifier_table, v_urls = view_crate, v_clock = (\<lambda>w. (Some 1000, w))\<rparr>"

lemma profile_verifier_accepts: "verify profile_verifier dpop_request 0 = (Ok alice, 1)"
  by code_simp

theorem strict_mode_rests_on_profile_witness:
  "\<exists>u x. url_parse view_crate ''https://alice.example/card#me'' = Some u \<and> uv_scheme (sane_view u) = ''https''
     \<and> uv_host (sane_view x) = uv_host (sane_view u)"
proof -
  have v: "v_urls profile_verifier = view_crate" "bidirectional_mode (v_config profile_verifier) = Strict"
    by (simp_all add: profile_verifier_def bidirectional_def)
  have "tok_web_id alice = Some ''https://alice.example/card#me''" by code_simp
  then show ?thesis
    using strict_mode_rests_on_profile [of profile_verifier sane_view, unfolded v(1), OF url_rules_view_crate v(2) _
        profile_verifier_accepts alice_not_public(1)]
    by (fastforce simp: profile_verifier_def bidirectional_def)
qed

end
