(* ===== verification/Server_Runs.thy ===== *)
theory Server_Runs
  imports Shim_Main Concurrent Robustness
begin

section \<open>The server at work\<close>

text \<open>
  The shim answers any number of connections at once on one verifier. Its state is the world of the
  wiring and, for each connection, its request and the calls its verification has made. A connection is
  opened, makes its next call among the real providers (key provider over the guarded fetch, store,
  clocks), or something outside happens: time passes, the network changes, a lock is poisoned. What
  holds of every state so reached holds of every interleaving of any number of requests. A call of the
  key provider is one step here; theory \<open>Key_Cache\<close> takes it apart.
\<close>

subsection \<open>Connections and steps\<close>

record connection =
  cn_began :: nat
  cn_request :: shim_request
  cn_calls :: "(call \<times> answer) list"

record 'w server_state =
  sv_world :: "'w shim_world"
  sv_conns :: "nat \<Rightarrow> connection option"

abbreviation network_of :: "'w server_state \<Rightarrow> 'w" where
  "network_of s \<equiv> net (sw_provider (sv_world s))"

definition cn_verdict ::
  "http_types \<Rightarrow> ('w, 'k, 'p, 's, 'u) verifier \<Rightarrow> string \<Rightarrow> connection
   \<Rightarrow> (verify_error, verified_token) outcome option" where
  "cn_verdict X V base cn =
     answered (v_config V) (v_crates V) (v_urls V) (shim_auth_request X base (cn_request cn)) (cn_calls cn)"

definition cn_next ::
  "http_types \<Rightarrow> ('w, 'k, 'p, 's, 'u) verifier \<Rightarrow> string \<Rightarrow> connection \<Rightarrow> call option" where
  "cn_next X V base cn =
     next_call (v_config V) (v_crates V) (v_urls V) (shim_auth_request X base (cn_request cn)) (cn_calls cn)"

text \<open>The response, when the verification has its verdict and did not panic.\<close>

definition cn_response ::
  "http_types \<Rightarrow> ('w, 'k, 'p, 's, 'u) verifier \<Rightarrow> string \<Rightarrow> connection \<Rightarrow> shim_response option" where
  "cn_response X V base cn =
     (case cn_verdict X V base cn of
        Some (Ok t) \<Rightarrow> Some (token_response t)
      | Some (Err e) \<Rightarrow> Some (error_response X V e)
      | _ \<Rightarrow> None)"

text \<open>\<open>T\<close> is the time the monotonic clock shows, a function of the network's state.\<close>

inductive server_step ::
  "http_types \<Rightarrow> ('w shim_world, 'k, 'p, 's, 'u) verifier \<Rightarrow> string \<Rightarrow> ('w \<Rightarrow> nat)
   \<Rightarrow> 'w server_state \<Rightarrow> 'w server_state \<Rightarrow> bool"
  for X V base T where
  connect: "sv_conns s i = None \<Longrightarrow> server_step X V base T s
     (s\<lparr>sv_conns := (sv_conns s)(i \<mapsto> \<lparr>cn_began = T (network_of s), cn_request = r, cn_calls = []\<rparr>)\<rparr>)"
| call: "sv_conns s i = Some cn \<Longrightarrow> cn_next X V base cn = Some c \<Longrightarrow> perform V c (sv_world s) = (a, w') \<Longrightarrow>
     server_step X V base T s
       (s\<lparr>sv_world := w', sv_conns := (sv_conns s)(i \<mapsto> cn\<lparr>cn_calls := cn_calls cn @ [(c, a)]\<rparr>)\<rparr>)"
| outside: "T (network_of s) \<le> T n \<Longrightarrow> server_step X V base T s
     (s\<lparr>sv_world := \<lparr>sw_provider = (sw_provider (sv_world s))\<lparr>net := n, cache_poisoned := b\<rparr>,
                     sw_store = (sw_store (sv_world s))\<lparr>ms_poisoned := p\<rparr>\<rparr>\<rparr>)"

definition fresh_server :: "'v shim \<Rightarrow> 'w \<Rightarrow> 'w server_state" where
  "fresh_server S n =
     \<lparr>sv_world = \<lparr>sw_provider = with_fetcher n, sw_store = shim_store S\<rparr>, sv_conns = (\<lambda>_. None)\<rparr>"

text \<open>The states of a server that started on the network \<open>n\<close>.\<close>

inductive serving for S X V base T n where
  started: "serving S X V base T n (fresh_server S n)"
| step: "serving S X V base T n s \<Longrightarrow> server_step X V base T s s' \<Longrightarrow> serving S X V base T n s'"

lemma perform_keeps:
  assumes "\<And>iss. preserves J (v_jwks V iss)" "\<And>jti ttl. preserves J (v_mark V jti ttl)"
    and "\<And>w. J w \<Longrightarrow> J (snd (v_clock V w))" "webid_resolver (v_config V) = None"
    and "J w" "perform V c w = (a, w')"
  shows "J w'"
proof (cases c)
  case (Ask_keys iss)
  then show ?thesis using assms(1) [of iss] assms(5,6) by (auto simp: preserves_def split: prod.splits)
next
  case (Ask_mark jti ttl)
  then show ?thesis using assms(2) [of jti ttl] assms(5,6) by (auto simp: preserves_def split: prod.splits)
next
  case Ask_clock
  then show ?thesis using assms(3) [OF assms(5)] assms(6) by (auto split: prod.splits)
next
  case (Ask_profile u)
  then show ?thesis using assms(4-6) by simp
qed

subsection \<open>A request alone is handled as \<open>handle\<close> says\<close>

lemma calls_run:
  assumes "sv_conns s i = Some cn" "performs V (sv_world s) rest w'"
    and "\<And>n. n < length rest \<Longrightarrow>
      cn_next X V base (cn\<lparr>cn_calls := cn_calls cn @ take n rest\<rparr>) = Some (fst (rest ! n))"
  shows "(server_step X V base T)\<^sup>*\<^sup>* s
    (s\<lparr>sv_world := w', sv_conns := (sv_conns s)(i \<mapsto> cn\<lparr>cn_calls := cn_calls cn @ rest\<rparr>)\<rparr>)"
  using assms
proof (induction rest arbitrary: s cn)
  case Nil
  then have "s\<lparr>sv_world := w', sv_conns := (sv_conns s)(i \<mapsto> cn\<lparr>cn_calls := cn_calls cn @ []\<rparr>)\<rparr> = s"
    by (simp add: map_upd_triv del: fun_upd_apply)
  then show ?case by (simp only: rtranclp.rtrancl_refl)
next
  case (Cons ca rest)
  obtain c a where ca: "ca = (c, a)" by fastforce
  obtain w1 where p: "perform V c (sv_world s) = (a, w1)" "performs V w1 rest w'"
    using Cons.prems(2) by (auto simp: ca split: prod.splits)
  let ?cn = "cn\<lparr>cn_calls := cn_calls cn @ [(c, a)]\<rparr>"
  let ?s = "s\<lparr>sv_world := w1, sv_conns := (sv_conns s)(i \<mapsto> ?cn)\<rparr>"
  have "cn_next X V base cn = Some c" using Cons.prems(3) [of 0] by (simp add: ca)
  then have "server_step X V base T s ?s" using Cons.prems(1) p(1) by (intro server_step.call)
  moreover have "(server_step X V base T)\<^sup>*\<^sup>* ?s
      (?s\<lparr>sv_world := w', sv_conns := (sv_conns ?s)(i \<mapsto> ?cn\<lparr>cn_calls := cn_calls ?cn @ rest\<rparr>)\<rparr>)"
    using Cons.prems(3) [of "Suc n" for n] p(2) by (intro Cons.IH) (auto simp: ca)
  ultimately show ?case
    by (simp add: ca converse_rtranclp_into_rtranclp del: fun_upd_apply)
qed

lemma handled_connection:
  assumes "handle X V base r (sv_world s) = (q, w')" and "sv_conns s i = None"
  obtains cn where "(server_step X V base T)\<^sup>*\<^sup>* s (s\<lparr>sv_world := w', sv_conns := (sv_conns s)(i \<mapsto> cn)\<rparr>)"
    and "cn_request cn = r" "cn_began cn = T (network_of s)"
    and "cn_response X V base cn = (case q of Ok resp \<Rightarrow> Some resp | _ \<Rightarrow> None)"
proof -
  let ?req = "shim_auth_request X base r"
  obtain C where C: "performs V (sv_world s) C (snd (verify V ?req (sv_world s)))"
      "answered (v_config V) (v_crates V) (v_urls V) ?req C = Some (fst (verify V ?req (sv_world s)))"
      "\<forall>n < length C. next_call (v_config V) (v_crates V) (v_urls V) ?req (take n C) = Some (fst (C ! n))"
    using verify_calls [of V "sv_world s" ?req] by blast
  let ?cn = "\<lparr>cn_began = T (network_of s), cn_request = r, cn_calls = []\<rparr>"
  let ?s = "s\<lparr>sv_conns := (sv_conns s)(i \<mapsto> ?cn)\<rparr>"
  have w': "snd (verify V ?req (sv_world s)) = w'"
    using assms(1) by (auto simp: handle_def split: prod.splits outcome.splits)
  have "server_step X V base T s ?s" using assms(2) by (rule server_step.connect)
  also have "(server_step X V base T)\<^sup>*\<^sup>* ?s
      (?s\<lparr>sv_world := w', sv_conns := (sv_conns ?s)(i \<mapsto> ?cn\<lparr>cn_calls := cn_calls ?cn @ C\<rparr>)\<rparr>)"
    using C(1,3) w' by (intro calls_run) (simp_all add: cn_next_def)
  finally have "(server_step X V base T)\<^sup>*\<^sup>* s
      (s\<lparr>sv_world := w', sv_conns := (sv_conns s)(i \<mapsto> ?cn\<lparr>cn_calls := C\<rparr>)\<rparr>)" by simp
  moreover have "cn_response X V base (?cn\<lparr>cn_calls := C\<rparr>) = (case q of Ok resp \<Rightarrow> Some resp | _ \<Rightarrow> None)"
    using assms(1) C(2)
    by (auto simp: cn_response_def cn_verdict_def handle_def split: prod.splits outcome.splits)
  ultimately show thesis using that by fastforce
qed

lemma serving_steps:
  "(server_step X V base T)\<^sup>*\<^sup>* s s' \<Longrightarrow> serving S X V base T n s \<Longrightarrow> serving S X V base T n s'"
  by (induction rule: rtranclp_induct) (auto intro: serving.step)

subsection \<open>Keys\<close>

text \<open>Every key set in the cache, and every one a verification was given, is one the issuer has.\<close>

definition keys_held :: "(string \<Rightarrow> jwk list \<Rightarrow> bool) \<Rightarrow> 'w server_state \<Rightarrow> bool" where
  "keys_held P s \<longleftrightarrow> cache_ok P (sw_provider (sv_world s))
     \<and> (\<forall>i cn iss keys. sv_conns s i = Some cn \<longrightarrow> (Ask_keys iss, Keys (Ok keys)) \<in> set (cn_calls cn) \<longrightarrow> P iss keys)"

text \<open>What one call does to the provider's world: a key call is the provider's, the others keep its cache.\<close>

lemma perform_provider:
  fixes S :: "'w shim_world shim"
  assumes "perform (shim_verifier S E U rh H clk wall) c sw = (a, sw')" "webid_resolver (shim_config S) = None"
  shows "(\<exists>iss r. c = Ask_keys iss \<and> a = Keys r
       \<and> network_keys_for E U (get U rh H (shim_fetch S)) clk (jwks_cache_ttl S) iss (sw_provider sw)
           = (r, sw_provider sw'))
     \<or> (\<forall>iss. c \<noteq> Ask_keys iss) \<and> cache (sw_provider sw') = cache (sw_provider sw)"
proof (cases c)
  case (Ask_keys iss)
  then show ?thesis using assms(1) by (auto simp: on_provider_def split: prod.splits)
next
  case (Ask_mark jti ttl)
  then show ?thesis
    using assms(1) by (auto simp: shim_verifier_def store_op_def split: prod.splits)
next
  case Ask_clock
  then show ?thesis using assms(1) by (auto simp: shim_verifier_def split: prod.splits)
next
  case (Ask_profile u)
  then show ?thesis using assms by simp
qed

lemma cache_ok_cong: "cache pw' = cache pw \<Longrightarrow> cache_ok P pw' = cache_ok P pw"
  by (simp add: cache_ok_def)

lemma serving_keys:
  fixes S :: "'w shim_world shim"
  assumes "serving S X (shim_verifier S E U rh H clk wall) base T n s"
    and "webid_resolver (shim_config S) = None"
  shows "keys_held (published E U (get U rh H (shim_fetch S))) s"
  using assms(1)
proof (induction rule: serving.induct)
  case started
  then show ?case by (simp add: keys_held_def fresh_server_def cache_ok_def with_fetcher_def)
next
  case (step s s')
  let ?P = "published E U (get U rh H (shim_fetch S))"
  from step.hyps(2) show ?case
  proof cases
    case (connect i r)
    then show ?thesis using step.IH by (auto simp: keys_held_def)
  next
    case (call i cn c a w')
    from perform_provider [OF call(4) assms(2)] have "cache_ok ?P (sw_provider w')
        \<and> (\<forall>iss keys. (c, a) = (Ask_keys iss, Keys (Ok keys)) \<longrightarrow> ?P iss keys)"
      using step.IH network.keys_inv network.keys_authentic cache_ok_cong
      unfolding keys_held_def by (metis answer.inject(1) call.inject(1) prod.inject)
    then show ?thesis
      using step.IH call by (fastforce simp: keys_held_def split: if_splits)
  next
    case (outside m b p)
    then show ?thesis using step.IH by (simp add: keys_held_def cache_ok_def)
  qed
qed

subsection \<open>What a response rests on\<close>

lemma answered_verdict:
  assumes "answered cfg E U req C = Some r"
  shows "\<exists>w'. verify (taped cfg E U) req \<lparr>heard = C, asks = None\<rparr> = (r, w')"
  using assms by (auto simp: answered_def run_def split: if_splits) (metis prod.collapse)

lemma authenticated_verdict:
  assumes "cn_response X V base cn = Some resp" "authenticated resp"
  obtains t where "cn_verdict X V base cn = Some (Ok t)" "\<not> is_public t" "resp = token_response t"
  using assms authenticated_iff by (auto simp: cn_response_def split: option.splits outcome.splits)

lemma authenticated_connection:
  assumes "cn_response X V base cn = Some resp" "authenticated resp"
  obtains iss keys token c web_id where "iss \<in> set (trusted_issuers (v_config V))"
    "(Ask_keys iss, Keys (Ok keys)) \<in> set (cn_calls cn)"
    "verify_signature (v_crates V) token keys (Some ''at+jwt'') = Ok c" "str_claim c ''iss'' = Some iss"
    "str_claim c (webid_claim (v_config V)) = Some web_id" "resp = token_response (credentials (v_crates V) c web_id iss)"
proof -
  obtain t where t: "cn_verdict X V base cn = Some (Ok t)" "\<not> is_public t" "resp = token_response t"
    using authenticated_verdict [OF assms] .
  then obtain w' where "verify (taped_of V) (shim_auth_request X base (cn_request cn))
      \<lparr>heard = cn_calls cn, asks = None\<rparr> = (Ok t, w')"
    using answered_verdict unfolding cn_verdict_def by blast
  from this t(2) show thesis
  proof (cases rule: accepted_cases)
    case (1 scheme token iss keys wk now c web_id wt w1 w2)
    have "(Ask_keys iss, Keys (Ok keys)) \<in> set (cn_calls cn)"
      using taped_answers(1) [OF 1(4)] by simp
    moreover have "verify_signature (v_crates V) token keys (Some ''at+jwt'') = Ok c" "str_claim c ''iss'' = Some iss"
      using 1(5) by (simp_all add: token_valid_def)
    moreover have "str_claim c (webid_claim (v_config V)) = Some web_id"
      using 1(11) by (simp add: extract_webid_Ok_iff)
    ultimately show thesis using that 1(3,15) t(3) by simp
  qed
qed

lemma shim_no_resolver:
  assumes "shim_setup oc env B = Ok S"
  shows "webid_resolver (shim_config S) = None"
  using setup_Ok [OF assms] by (metis env_config_fields(7))

text \<open>C17: The server authenticates by published keys only. Whatever requests it served before, serves at the
  same time, fetched or cached, a response says \<open>authenticated\<close> only for a token that verifies under keys
  published by one of the issuers of the environment: by the discovery document at the well-known URL
  below that issuer, which names the issuer itself, and the key set this document points to, none of them
  symmetric or private; and the issuer and the WebID of the response are those of that token.\<close>

theorem server_authenticates_by_published_keys:
  assumes "shim_setup oc env B = Ok S"
    and "serving S X (shim_verifier S E U resolve_host H instant_now wall) (public_base S) T n s"
    and "sv_conns s i = Some cn"
    and "cn_response X (shim_verifier S E U resolve_host H instant_now wall) (public_base S) cn = Some resp"
    and "authenticated resp"
  shows "\<exists>raw iss keys token c web_id. env ''PSS_TRUSTED_ISSUERS'' = Some raw \<and> iss \<in> set (split_issuers raw)
    \<and> published E U (get U resolve_host H (shim_fetch S)) iss keys
    \<and> list_all (\<lambda>k. \<not> is_symmetric k \<and> \<not> has_private_material k) keys
    \<and> verify_signature E token keys (Some ''at+jwt'') = Ok c
    \<and> str_claim c ''iss'' = Some iss \<and> str_claim c ''webid'' = Some web_id
    \<and> value_get (shim_body resp) ''issuer'' = Some (VString iss)
    \<and> value_get (shim_body resp) ''webid'' = Some (VString web_id)"
proof -
  obtain raw aud where env: "env ''PSS_TRUSTED_ISSUERS'' = Some raw" "shim_config S = env_config env raw aud"
    using setup_Ok [OF assms(1)] by blast
  obtain iss keys token c web_id where *:
      "iss \<in> set (split_issuers raw)" "(Ask_keys iss, Keys (Ok keys)) \<in> set (cn_calls cn)"
      "verify_signature E token keys (Some ''at+jwt'') = Ok c" "str_claim c ''iss'' = Some iss"
      "str_claim c ''webid'' = Some web_id" "resp = token_response (credentials E c web_id iss)"
    by (rule authenticated_connection [OF assms(4,5)]) (simp add: env(2))
  have p: "published E U (get U resolve_host H (shim_fetch S)) iss keys"
    using serving_keys [OF assms(2) shim_no_resolver [OF assms(1)]] assms(3) *(2) by (simp add: keys_held_def)
  then have "list_all (\<lambda>k. \<not> is_symmetric k \<and> \<not> has_private_material k) keys"
    using parse_jwks_usable by (auto simp: published_def)
  then show ?thesis
    using env(1) * p by (fastforce simp: token_response_def opt_json_def member_def)
qed

subsection \<open>Time and marks\<close>

text \<open>\<open>T\<close> is what the monotonic clock reads, and nothing the server calls sets it back.\<close>

definition shows_time :: "('w \<Rightarrow> nat) \<Rightarrow> 'w clock \<Rightarrow> bool" where
  "shows_time T clk \<longleftrightarrow> (\<forall>w. T w \<le> fst (clk w) \<and> fst (clk w) \<le> T (snd (clk w)))"

definition forward :: "('w \<Rightarrow> nat) \<Rightarrow> ('w \<Rightarrow> 'a \<times> 'w) \<Rightarrow> bool" where
  "forward T m \<longleftrightarrow> (\<forall>w. T w \<le> T (snd (m w)))"

definition time_passes ::
  "('w \<Rightarrow> nat) \<Rightarrow> 'w host_resolver \<Rightarrow> 'w http_crate \<Rightarrow> 'w clock \<Rightarrow> ('w \<Rightarrow> nat option \<times> 'w) \<Rightarrow> bool" where
  "time_passes T resolve_host H clk wall \<longleftrightarrow> shows_time T clk \<and> forward T wall
     \<and> (\<forall>h. forward T (resolve_host h)) \<and> forward T (spawn_worker H)
     \<and> (\<forall>c u a. forward T (send_get H c u a))"

lemma forward_preserves: "forward T m \<Longrightarrow> preserves (\<lambda>w. t \<le> T w) m"
  unfolding forward_def preserves_def by (metis order_trans snd_conv)

lemma perform_forward:
  fixes E :: "('k, 'p, 's) crates" and S :: "'w shim_world shim"
  assumes "shim_setup oc env B = Ok S" "resolver_typed rh" "time_passes T rh H clk wall"
    and "perform (shim_verifier S E U rh H clk wall) c sw = (a, sw')"
  shows "T (net (sw_provider sw)) \<le> T (net (sw_provider sw'))"
proof -
  let ?t = "T (net (sw_provider sw))"
  have p: "preserves (\<lambda>w. ?t \<le> T w) (rh h)" "preserves (\<lambda>w. ?t \<le> T w) (spawn_worker H)"
      "preserves (\<lambda>w. ?t \<le> T w) (send_get H c u a)" for h c u a
    using assms(3) by (auto simp: time_passes_def intro: forward_preserves)
  have q: "?t \<le> T (snd (clk w))" "?t \<le> T (snd (wall w))" if "?t \<le> T w" for w
    using that assms(3) unfolding time_passes_def shows_time_def forward_def by (meson order_trans)+
  note k = shim_calls_preserve(1-3) [where I = "\<lambda>w. ?t \<le> T w" and E = E and U = U and instant_now = clk
      and wall = wall, OF assms(1,2) p(1,2) p(3) q]
  show ?thesis
    using perform_keeps [OF k _ _ assms(4)] shim_no_resolver [OF assms(1)] by simp
qed

text \<open>What one call does to the store: a mark is the store's, at a clock reading within the call.\<close>

lemma perform_store:
  fixes S :: "'w shim_world shim"
  assumes "perform (shim_verifier S E U rh H clk wall) c sw = (a, sw')" "webid_resolver (shim_config S) = None"
    and "shows_time T clk"
  obtains (marked) jti ttl r now where "c = Ask_mark jti ttl" "a = Marked r"
      "mark now jti ttl (sw_store sw) = (r, sw_store sw')"
      "ms_poisoned (sw_store sw) \<or> T (net (sw_provider sw)) \<le> now \<and> now \<le> T (net (sw_provider sw'))"
  | (kept) "\<And>jti ttl. c \<noteq> Ask_mark jti ttl" "sw_store sw' = sw_store sw"
proof (cases c)
  case (Ask_keys iss)
  then show thesis using kept assms(1) by (auto simp: on_provider_def split: prod.splits)
next
  case (Ask_mark jti ttl)
  obtain now n where n: "clk (net (sw_provider sw)) = (now, n)" by fastforce
  then have "T (net (sw_provider sw)) \<le> now" "now \<le> T n"
    using assms(3) unfolding shows_time_def by (metis fst_conv, metis fst_conv snd_conv)
  then show thesis
    using marked assms(1) Ask_mark n
    by (auto simp: shim_verifier_def store_op_def split: prod.splits if_splits)
next
  case Ask_clock
  then show thesis using kept assms(1) by (auto simp: shim_verifier_def split: prod.splits)
next
  case (Ask_profile u)
  then show thesis using kept assms by simp
qed

lemma poisoned_mark: "ms_poisoned s \<Longrightarrow> mark now jti ttl s = (r, s') \<Longrightarrow> s' = s \<and> r \<noteq> Ok New"
  by (auto simp: mark_def)

definition marked_new :: "connection \<Rightarrow> string \<Rightarrow> nat \<Rightarrow> bool" where
  "marked_new cn jti ttl \<longleftrightarrow> (Ask_mark jti ttl, Marked (Ok New)) \<in> set (cn_calls cn)"

text \<open>Every successful mark of a connection was made after it began and is remembered for the window.\<close>

definition remembered :: "('w \<Rightarrow> nat) \<Rightarrow> 'w server_state \<Rightarrow> connection \<Rightarrow> string \<Rightarrow> nat \<Rightarrow> bool" where
  "remembered T s cn jti ttl \<longleftrightarrow>
     (\<forall>t. T (network_of s) \<le> t \<and> t < cn_began cn + ttl \<longrightarrow> live_mem (sw_store (sv_world s)) jti t)"

definition marks_held :: "('w \<Rightarrow> nat) \<Rightarrow> 'w server_state \<Rightarrow> bool" where
  "marks_held T s \<longleftrightarrow>
     (\<forall>i cn. sv_conns s i = Some cn \<longrightarrow> cn_began cn \<le> T (network_of s)
        \<and> (\<forall>jti ttl. marked_new cn jti ttl \<longrightarrow> remembered T s cn jti ttl))
     \<and> (\<forall>i j a b jti ttl. i \<noteq> j \<longrightarrow> sv_conns s i = Some a \<longrightarrow> sv_conns s j = Some b
        \<longrightarrow> marked_new a jti ttl \<longrightarrow> marked_new b jti ttl
        \<longrightarrow> cn_began a + ttl \<le> T (network_of s) \<or> cn_began b + ttl \<le> T (network_of s))"

lemma remembered_later:
  assumes "remembered T s cn jti ttl" "T (network_of s) \<le> T (network_of s')"
    and "\<And>t. T (network_of s') \<le> t \<Longrightarrow> live_mem (sw_store (sv_world s)) jti t \<Longrightarrow> live_mem (sw_store (sv_world s')) jti t"
  shows "remembered T s' cn jti ttl"
  using assms unfolding remembered_def by (meson order_trans)

lemma store_after_call:
  fixes S :: "'w shim_world shim"
  assumes "perform (shim_verifier S E U rh H clk wall) c sw = (a, sw')" "webid_resolver (shim_config S) = None"
    and "shows_time T clk"
  shows "T (net (sw_provider sw')) \<le> t \<Longrightarrow> live_mem (sw_store sw) jti t \<Longrightarrow> live_mem (sw_store sw') jti t"
    and "(c, a) = (Ask_mark jti ttl, Marked (Ok New)) \<Longrightarrow> T (net (sw_provider sw')) \<le> t
      \<Longrightarrow> t < T (net (sw_provider sw)) + ttl \<Longrightarrow> live_mem (sw_store sw') jti t"
    and "(c, a) = (Ask_mark jti ttl, Marked (Ok New)) \<Longrightarrow>
      \<exists>now. T (net (sw_provider sw)) \<le> now \<and> now \<le> T (net (sw_provider sw')) \<and> \<not> live_mem (sw_store sw) jti now"
proof -
  show "live_mem (sw_store sw') jti t" if "T (net (sw_provider sw')) \<le> t" "live_mem (sw_store sw) jti t"
    using assms
  proof (cases rule: perform_store)
    case (marked j d r now)
    then show ?thesis
      using that poisoned_mark mem.mark_keeps [OF marked(3), of t jti] by (metis order_trans)
  qed (use that in simp)
  show "live_mem (sw_store sw') jti t"
    if "(c, a) = (Ask_mark jti ttl, Marked (Ok New))" "T (net (sw_provider sw')) \<le> t"
      "t < T (net (sw_provider sw)) + ttl"
    using assms
  proof (cases rule: perform_store)
    case (marked j d r now)
    then have m: "mark now jti ttl (sw_store sw) = (Ok New, sw_store sw')" using that(1) by simp
    then have "T (net (sw_provider sw)) \<le> now" "now \<le> T (net (sw_provider sw'))"
      using marked(4) poisoned_mark by blast+
    then show ?thesis using mem.mark_New [OF m] that(2,3) by simp
  qed (use that in auto)
  show "\<exists>now. T (net (sw_provider sw)) \<le> now \<and> now \<le> T (net (sw_provider sw')) \<and> \<not> live_mem (sw_store sw) jti now"
    if "(c, a) = (Ask_mark jti ttl, Marked (Ok New))"
    using assms
  proof (cases rule: perform_store)
    case (marked j d r now)
    then have m: "mark now jti ttl (sw_store sw) = (Ok New, sw_store sw')" using that by simp
    then show ?thesis using marked(4) poisoned_mark mem.mark_New [OF m] by blast
  qed (use that in auto)
qed

lemma marks_after_call:
  fixes E :: "('k, 'p, 's) crates" and S :: "'w shim_world shim"
  assumes "shim_setup oc env B = Ok S" "resolver_typed rh" "time_passes T rh H clk wall"
    and "marks_held T s" "sv_conns s i = Some cn"
    and p: "perform (shim_verifier S E U rh H clk wall) c (sv_world s) = (a, w')"
  shows "marks_held T (s\<lparr>sv_world := w', sv_conns := (sv_conns s)(i \<mapsto> cn\<lparr>cn_calls := cn_calls cn @ [(c, a)]\<rparr>)\<rparr>)"
    (is "marks_held T ?s")
proof -
  let ?cn = "cn\<lparr>cn_calls := cn_calls cn @ [(c, a)]\<rparr>"
  have clk: "shows_time T clk" using assms(3) by (simp add: time_passes_def)
  note after = store_after_call [OF p shim_no_resolver [OF assms(1)] clk]
  have fwd: "T (network_of s) \<le> T (network_of ?s)"
    using perform_forward [OF assms(1-3) p] by simp
  have began: "cn_began d \<le> T (network_of s)" if "sv_conns s j = Some d" for j d
    using assms(4) that by (auto simp: marks_held_def)
  have old: "remembered T ?s d jti ttl" if "sv_conns s j = Some d" "marked_new d jti ttl" for j d jti ttl
  proof (rule remembered_later [OF _ fwd])
    show "remembered T s d jti ttl" using assms(4) that by (auto simp: marks_held_def)
  qed (use after(1) in simp)
  have new: "marked_new ?cn jti ttl \<longleftrightarrow> marked_new cn jti ttl \<or> (c, a) = (Ask_mark jti ttl, Marked (Ok New))" for jti ttl
    by (auto simp: marked_new_def)
  have mine: "remembered T ?s ?cn jti ttl" if "marked_new ?cn jti ttl" for jti ttl
  proof (cases "marked_new cn jti ttl")
    case True
    then show ?thesis using old [OF assms(5)] by (simp add: remembered_def)
  next
    case False
    then have "(c, a) = (Ask_mark jti ttl, Marked (Ok New))" using that new by blast
    then show ?thesis
      using after(2) began [OF assms(5)] unfolding remembered_def by simp
  qed
  have apart: "cn_began d + ttl \<le> T (network_of ?s) \<or> cn_began ?cn + ttl \<le> T (network_of ?s)"
    if d: "j \<noteq> i" "sv_conns s j = Some d" "marked_new d jti ttl" and m: "marked_new ?cn jti ttl" for j d jti ttl
  proof (cases "marked_new cn jti ttl")
    case True
    then have "cn_began d + ttl \<le> T (network_of s) \<or> cn_began cn + ttl \<le> T (network_of s)"
      using assms(4,5) d unfolding marks_held_def by blast
    then show ?thesis using fwd by auto
  next
    case False
    then obtain now where now: "T (network_of s) \<le> now" "now \<le> T (network_of ?s)"
        "\<not> live_mem (sw_store (sv_world s)) jti now"
      using after(3) [of jti ttl] m new by auto
    have "remembered T s d jti ttl" using assms(4) d(2,3) by (auto simp: marks_held_def)
    then have "cn_began d + ttl \<le> now" using now(1,3) unfolding remembered_def by (meson not_le)
    then show ?thesis using now(2) by simp
  qed
  have others: "cn_began d + ttl \<le> T (network_of ?s) \<or> cn_began e + ttl \<le> T (network_of ?s)"
    if "j \<noteq> l" "sv_conns s j = Some d" "sv_conns s l = Some e" "marked_new d jti ttl" "marked_new e jti ttl" for j l d e jti ttl
    using assms(4) that fwd unfolding marks_held_def by (meson order_trans)
  show ?thesis
    unfolding marks_held_def
  proof (intro conjI allI impI)
    fix j d assume "sv_conns ?s j = Some d"
    then show "cn_began d \<le> T (network_of ?s)"
      using began fwd assms(5) by (fastforce split: if_splits)
  next
    fix j d jti ttl assume "sv_conns ?s j = Some d" "marked_new d jti ttl"
    then show "remembered T ?s d jti ttl"
      using old mine by (cases "j = i") auto
  next
    fix j l d e jti ttl
    assume "j \<noteq> l" "sv_conns ?s j = Some d" "sv_conns ?s l = Some e" "marked_new d jti ttl" "marked_new e jti ttl"
    then show "cn_began d + ttl \<le> T (network_of ?s) \<or> cn_began e + ttl \<le> T (network_of ?s)"
      using apart [of l e jti ttl] apart [of j d jti ttl] others [of j l d e jti ttl]
      by (cases "j = i"; cases "l = i") auto
  qed
qed

lemma serving_marks:
  fixes E :: "('k, 'p, 's) crates" and S :: "'w shim_world shim"
  assumes "shim_setup oc env B = Ok S" "resolver_typed rh" "time_passes T rh H clk wall"
    and "serving S X (shim_verifier S E U rh H clk wall) base T n s"
  shows "marks_held T s"
  using assms(4)
proof (induction rule: serving.induct)
  case started
  then show ?case by (simp add: marks_held_def fresh_server_def)
next
  case (step s s')
  from step.hyps(2) show ?case
  proof cases
    case (connect i r)
    then show ?thesis using step.IH by (auto simp: marks_held_def remembered_def marked_new_def)
  next
    case (call i cn c a w')
    then show ?thesis using marks_after_call [OF assms(1-3) step.IH] by simp
  next
    case (outside m b p)
    have live: "live_mem (st\<lparr>ms_poisoned := p\<rparr>) = live_mem st" for st
      by (simp add: fun_eq_iff live_mem_def)
    show ?thesis
      using step.IH outside(2) unfolding outside(1) marks_held_def remembered_def
      by (simp add: live) (meson order_trans)
  qed
qed

lemma authenticated_mark:
  assumes "cn_response X V base cn = Some resp" "authenticated resp"
    and "require_dpop (v_config V)" "replay_fail_closed (v_config V)" "sane_tolerance (clock_tolerance_secs (v_config V))"
    and "header_str X (sr_header (cn_request cn)) ''dpop'' = Some p"
  shows "\<exists>jti. proof_jti (v_crates V) p = Some jti
    \<and> marked_new cn jti (proof_window (clock_tolerance_secs (v_config V)))"
proof -
  let ?req = "shim_auth_request X base (cn_request cn)"
  obtain t where t: "cn_verdict X V base cn = Some (Ok t)" "\<not> is_public t"
    using authenticated_verdict [OF assms(1,2)] .
  then obtain w' where "verify (taped_of V) ?req \<lparr>heard = cn_calls cn, asks = None\<rparr> = (Ok t, w')"
    using answered_verdict unfolding cn_verdict_def by blast
  from shim_accepted [OF this t(2)] assms(3) have "tok_cnf_jkt t \<noteq> None"
    by (metis credentials_fields(3) option.distinct(1) taped_config_fields(3) taped_fields(3))
  moreover have "dpop ?req = Some p" using assms(6) by (simp add: shim_auth_request_def)
  ultimately show ?thesis
    using accepted_tape [OF assms(5,4) t(1) [unfolded cn_verdict_def]]
    by (metis list.set_intros marked_new_def)
qed

text \<open>C16: A captured request is worthless to the server's other connections. Let a server that demands DPoP
  (the default) serve any requests in any interleaving, over any network and through any passage of time.
  Of the connections that present the same DPoP proof and began less than the window of 611 s ago, at most
  one is answered as authenticated.\<close>

theorem server_accepts_proof_once:
  assumes "shim_setup oc env B = Ok S" and "env ''PSS_REQUIRE_DPOP'' = None" and "resolver_typed resolve_host"
    and "time_passes T resolve_host H instant_now wall"
    and "serving S X (shim_verifier S E U resolve_host H instant_now wall) (public_base S) T n s"
    and "sv_conns s i = Some a" and "sv_conns s j = Some b" and "i \<noteq> j"
    and "header_str X (sr_header (cn_request a)) ''dpop'' = Some p"
    and "header_str X (sr_header (cn_request b)) ''dpop'' = Some p"
    and "T (network_of s) < cn_began a + 611 * 10 ^ 9" and "T (network_of s) < cn_began b + 611 * 10 ^ 9"
    and "cn_response X (shim_verifier S E U resolve_host H instant_now wall) (public_base S) a = Some resp"
    and "authenticated resp"
    and "cn_response X (shim_verifier S E U resolve_host H instant_now wall) (public_base S) b = Some resp'"
  shows "\<not> authenticated resp'"
proof
  let ?V = "shim_verifier S E U resolve_host H instant_now wall"
  assume second: "authenticated resp'"
  obtain raw aud where cfg: "shim_config S = env_config env raw aud"
    using setup_Ok [OF assms(1)] by blast
  have "require_dpop (v_config ?V)" "replay_fail_closed (v_config ?V)" "clock_tolerance_secs (v_config ?V) = 5"
      "sane_tolerance (clock_tolerance_secs (v_config ?V))"
    by (simp_all add: cfg env_flag_def assms(2) sane_tolerance_def)
  then obtain jti where "marked_new a jti (proof_window 5)" "marked_new b jti (proof_window 5)"
    using authenticated_mark [OF assms(13,14) _ _ _ assms(9)] authenticated_mark [OF assms(15) second _ _ _ assms(10)]
    by fastforce
  then have "cn_began a + proof_window 5 \<le> T (network_of s) \<or> cn_began b + proof_window 5 \<le> T (network_of s)"
    using serving_marks [OF assms(1,3,4,5)] assms(6-8) unfolding marks_held_def by blast
  moreover have "proof_window 5 = 611 * 10 ^ 9" by (simp add: proof_window_def)
  ultimately show False using assms(11,12) by linarith
qed

subsection \<open>Every request is answered\<close>

lemma no_panic_hop [no_panic_rules]: "no_panic (spawn_worker H) \<Longrightarrow> no_panic (http_hop_off_runtime H req)"
  unfolding http_hop_off_runtime_def
  by (intro no_panic_rules) (auto simp: no_panic_def split: prod.splits outcome.splits)

lemma no_panic_get [no_panic_rules]:
  assumes "\<And>h. no_panic (resolve_host h)" "no_panic (spawn_worker H)"
  shows "no_panic (get U resolve_host H cfg url accept)"
proof -
  have c: "classify_records U cfg parsed ips \<noteq> Panic" for parsed ips
    by (induction ips) (auto simp: outcome_simps)
  have pin: "no_panic (pinned_addresses U resolve_host cfg p h)" for p h
    unfolding pinned_addresses_def
    by (auto split: option.split if_splits intro!: no_panic_rules assms(1) simp: c outcome_simps)
  have "no_panic (get_hops U resolve_host H cfg accept n current)" for n current
  proof (induction n arbitrary: current)
    case (Suc n)
    then show ?case
      by (auto split: hop_outcome.split intro!: no_panic_rules pin assms(2))
  qed (simp add: no_panic_rules)
  then show ?thesis unfolding get_def by blast
qed

lemma no_panic_network_keys:
  assumes "\<And>u a. no_panic (g u a)"
  shows "no_panic (network_keys_for E U g clk ttl iss)"
proof -
  have "no_panic (cache_lookup clk ttl iss)" "no_panic (cache_store clk iss keys)" for keys
    by (auto simp: no_panic_def cache_lookup_def cache_store_def split: option.splits prod.splits)
  moreover have "no_panic (fetch_keys E U g iss)"
    unfolding fetch_keys_def by (auto intro!: no_panic_rules assms split: if_splits)
  then have "no_panic (on_net (fetch_keys E U g iss))"
    by (auto simp: no_panic_def on_net_def split: prod.splits) (metis fst_conv)
  ultimately show ?thesis
    unfolding network_keys_for_def by (auto split: option.split intro!: no_panic_rules)
qed

text \<open>C18: Every request is answered. In a release build, whatever a request holds and whatever the issuers'
  servers send, even when a fetch panics in its worker thread or a lock is poisoned, the handler returns a
  response: 200, 401, or the 503 of the replay check. What is assumed is that the operating system starts
  a thread or says that it cannot, that the resolver returns, that the status codes are valid and that the
  monotonic clock is not within the window of its end.\<close>

theorem server_always_answers:
  fixes instant_now :: "'w clock"
  assumes "shim_setup False env B = Ok S" and "\<not> overflow_checks E"
    and "\<And>h w. fst (resolve_host h w) \<noteq> Panic" and "\<And>w. fst (spawn_worker H w) \<noteq> Panic"
    and "\<And>w. fst (instant_now w) + 611 * 10 ^ 9 \<le> instant_max"
    and "status_from_u16 X 401 = Some 401" and "status_from_u16 X 503 = Some 503"
  shows "\<exists>resp. fst (handle X (shim_verifier S E U resolve_host H instant_now wall) base r w) = Ok resp
    \<and> shim_status resp \<in> {200, 401, 503}"
proof -
  let ?V = "shim_verifier S E U resolve_host H instant_now wall"
  obtain raw aud where cfg: "shim_config S = env_config env raw aud"
    using setup_Ok [OF assms(1)] by blast
  have ttl: "ttl = 611 * 10 ^ 9" if "replay_ttl False (v_config ?V) = Ok ttl" for ttl
    using that replay_ttl_exact [of "v_config ?V" False] by (simp add: cfg sane_tolerance_def)
  have "no_panic (get U resolve_host H (shim_fetch S) u a)" for u a
    using assms(3,4) by (intro no_panic_get) (simp_all add: no_panic_def)
  then have "no_panic (network_keys_for E U (get U resolve_host H (shim_fetch S)) instant_now (jwks_cache_ttl S) iss)" for iss
    by (rule no_panic_network_keys)
  then have keys: "no_panic (v_jwks ?V iss)" for iss
    by (auto simp: no_panic_def on_provider_def split: prod.splits) (metis fst_conv)
  have now: "mark now jti (611 * 10 ^ 9) st \<noteq> (Panic, st')" if "ms_poisoned st \<or> now + 611 * 10 ^ 9 \<le> instant_max"
    for now jti st st'
  proof
    assume "mark now jti (611 * 10 ^ 9) st = (Panic, st')"
    then show False using that by (cases rule: mark_cases) auto
  qed
  have mark: "no_panic (v_mark ?V jti (611 * 10 ^ 9))" for jti
    unfolding no_panic_def
  proof
    fix sw :: "'w shim_world"
    obtain now n where n: "instant_now (net (sw_provider sw)) = (now, n)" by fastforce
    then have "now + 611 * 10 ^ 9 \<le> instant_max" using assms(5) by (metis fst_conv)
    then show "fst (v_mark ?V jti (611 * 10 ^ 9) sw) \<noteq> Panic"
      using n now by (auto simp: shim_verifier_def store_op_def split: prod.splits)
  qed
  have "calm ?V"
    using assms(2) keys mark ttl shim_no_resolver [OF assms(1)] by (auto simp: calm_def)
  then have "fst (verify ?V (shim_auth_request X base r) w) \<noteq> Panic"
    using calm_verify by (auto simp: no_panic_def)
  moreover have st: "status e = 401 \<or> status e = 503" for e
    by (cases "err_kind e") (simp_all add: status_def)
  have "shim_status (error_response X ?V e) \<in> {200, 401, 503}" for e
    using st [of e] assms(6,7) by (auto simp: error_response_def)
  moreover have "shim_status (token_response t) \<in> {200, 401, 503}" for t
    by (simp add: token_response_def)
  ultimately have "\<exists>resp. fst (case (fst m, snd m) of
       (Ok t, w') \<Rightarrow> (Ok (token_response t), w')
      | (Err e, w') \<Rightarrow> (Ok (error_response X ?V e), w') | (Panic, w') \<Rightarrow> (Panic, w')) = (Ok resp :: (string, shim_response) outcome)
    \<and> shim_status resp \<in> {200, 401, 503}" if "m = verify ?V (shim_auth_request X base r) w" for m
    using that by (cases "fst m") auto
  then show ?thesis unfolding handle_def by (metis prod.collapse)
qed

subsection \<open>Witnesses\<close>

abbreviation sample_serving :: "net_log server_state \<Rightarrow> bool" where
  "sample_serving \<equiv> serving sample_shim sample_types sample_server (public_base sample_shim) (\<lambda>_. 0) []"

abbreviation sample_handle :: "net_log shim_world \<Rightarrow> (string, shim_response) outcome \<times> net_log shim_world" where
  "sample_handle \<equiv> handle sample_types sample_server (public_base sample_shim) sample_http"

text \<open>The sample request sent twice: two connections of one run.\<close>

lemma sample_twice:
  obtains s a b q w' where "sample_serving s" "sv_conns s 0 = Some a" "sv_conns s (Suc 0) = Some b"
    "cn_request a = sample_http" "cn_request b = sample_http"
    "cn_response sample_types sample_server (public_base sample_shim) a = Some sample_reply"
    "sample_handle (snd (sample_handle start_world)) = (q, w')"
    "cn_response sample_types sample_server (public_base sample_shim) b = (case q of Ok resp \<Rightarrow> Some resp | _ \<Rightarrow> None)"
proof -
  let ?V = "sample_server" and ?b = "public_base sample_shim"
  let ?s0 = "fresh_server sample_shim [] :: net_log server_state"
  have w0: "sv_world ?s0 = start_world" by (simp add: fresh_server_def start_world_def)
  obtain w1 where w1: "sample_handle start_world = (Ok sample_reply, w1)"
    using sample_served by (metis prod.collapse)
  obtain a where a: "(server_step sample_types ?V ?b (\<lambda>_. 0))\<^sup>*\<^sup>* ?s0 (?s0\<lparr>sv_world := w1, sv_conns := (sv_conns ?s0)(0 \<mapsto> a)\<rparr>)"
      "cn_request a = sample_http" "cn_response sample_types ?V ?b a = Some sample_reply"
    by (rule handled_connection [of sample_types ?V ?b sample_http ?s0 "Ok sample_reply" w1 0 "\<lambda>_. 0"])
      (use w1 w0 in \<open>auto simp: fresh_server_def\<close>)
  let ?s1 = "?s0\<lparr>sv_world := w1, sv_conns := (sv_conns ?s0)(0 \<mapsto> a)\<rparr>"
  obtain q w2 where w2: "sample_handle w1 = (q, w2)" by fastforce
  obtain b where b: "(server_step sample_types ?V ?b (\<lambda>_. 0))\<^sup>*\<^sup>* ?s1 (?s1\<lparr>sv_world := w2, sv_conns := (sv_conns ?s1)(Suc 0 \<mapsto> b)\<rparr>)"
      "cn_request b = sample_http" "cn_response sample_types ?V ?b b = (case q of Ok resp \<Rightarrow> Some resp | _ \<Rightarrow> None)"
    by (rule handled_connection [of sample_types ?V ?b sample_http ?s1 q w2 "Suc 0" "\<lambda>_. 0"])
      (use w2 in \<open>auto simp: fresh_server_def\<close>)
  have "sample_serving (?s1\<lparr>sv_world := w2, sv_conns := (sv_conns ?s1)(Suc 0 \<mapsto> b)\<rparr>)"
    using serving_steps [OF b(1) serving_steps [OF a(1) serving.started]] .
  then show thesis
    by (rule that [where a = a and b = b and q = q and w' = w2]) (use a b w1 w2 in simp_all)
qed

lemma sample_authenticated: "authenticated sample_reply"
  by code_simp

theorem server_authenticates_by_published_keys_witness:
  "\<exists>keys. published (sample_crates shim_table) sample_url_crate
     (get sample_url_crate (table_resolver shim_names) (table_http shim_pages) (shim_fetch sample_shim))
     ''https://idp'' keys"
proof -
  obtain s a b q w' where *: "sample_serving s" "sv_conns s 0 = Some a"
      "cn_response sample_types sample_server (public_base sample_shim) a = Some sample_reply"
    using sample_twice by metis
  have "value_get (shim_body sample_reply) ''issuer'' = Some (VString ''https://idp'')" by code_simp
  then show ?thesis
    using server_authenticates_by_published_keys [OF sample_setup *(1) [unfolded sample_server_def] *(2)
        *(3) [unfolded sample_server_def] sample_authenticated]
    by auto
qed

lemma sample_time: "time_passes (\<lambda>_. 0) rh (H :: net_log http_crate) (\<lambda>w. (0, w)) wall"
  by (simp add: time_passes_def shows_time_def forward_def)

theorem server_accepts_proof_once_witness:
  "\<exists>resp. fst (sample_handle (snd (sample_handle start_world))) = Ok resp \<and> \<not> authenticated resp"
proof -
  obtain s a b q w' where *: "sample_serving s" "sv_conns s 0 = Some a" "sv_conns s (Suc 0) = Some b"
      "cn_request a = sample_http" "cn_request b = sample_http"
      "cn_response sample_types sample_server (public_base sample_shim) a = Some sample_reply"
      "sample_handle (snd (sample_handle start_world)) = (q, w')"
      "cn_response sample_types sample_server (public_base sample_shim) b = (case q of Ok resp \<Rightarrow> Some resp | _ \<Rightarrow> None)"
    using sample_twice by metis
  have "is_ok (fst (sample_handle (snd (sample_handle start_world))))" by code_simp
  then obtain resp where q: "q = Ok resp" using *(7) by (auto simp: is_ok_iff)
  have t: "resolver_typed (table_resolver shim_names)"
    by (rule table_resolver_typed) (simp add: shim_names_def ip_ok_def)
  have h: "header_str sample_types (sr_header sample_http) ''dpop'' = Some ''d.q.j''"
    "sample_env ''PSS_REQUIRE_DPOP'' = None"
    by code_simp+
  have "\<not> authenticated resp"
    by (rule server_accepts_proof_once [OF sample_setup h(2) t sample_time *(1) [unfolded sample_server_def] *(2,3) _ _ _ _ _
          *(6) [unfolded sample_server_def] sample_authenticated])
      (use * q h in \<open>simp_all add: sample_server_def\<close>)
  then show ?thesis using *(7) q by simp
qed

theorem server_always_answers_witness:
  "\<exists>resp. fst (handle sample_types
       (shim_verifier sample_shim ((sample_crates shim_table)\<lparr>overflow_checks := False\<rparr>) sample_url_crate
          (table_resolver shim_names) (table_http shim_pages) (\<lambda>w. (0, w)) (\<lambda>w. (Some 1000, w)))
       (public_base sample_shim) sample_http start_world) = Ok resp
     \<and> shim_status resp \<in> {200, 401, 503}"
proof (rule server_always_answers)
  have "shim_setup False sample_env sample_init = (shim_setup True sample_env sample_init :: (string, net_log shim_world shim) outcome)"
    by (simp add: shim_setup_def sample_env_def env_required_def replay_ttl_exact sane_tolerance_def Let_def)
  then show "shim_setup False sample_env sample_init = (Ok sample_shim :: (string, net_log shim_world shim) outcome)"
    using sample_setup by simp
qed (simp_all add: table_resolver_def table_http_def sample_types_def instant_max_def outcome_simps)

end
