(* ===== verification/Tests_Core.thy ===== *)
theory Tests_Core
  imports Jwt Providers
begin

section \<open>The unit tests of \<open>error.rs\<close>, \<open>jwk.rs\<close>, \<open>jwt.rs\<close> and \<open>config.rs\<close>\<close>

text \<open>
  The tests of the source as predicates on the model, under their own names. A digest that a test
  spells out is a hypothesis on the crates that compute it, and a JSON text is given by the value the
  parser returns for it. The tests of \<open>config.rs\<close> on the text of a well-known URL are in \<open>Tests_Text\<close>,
  the one on pointer equality of two \<open>Arc\<close>s in \<open>Tests_Sharing\<close>.
\<close>

subsection \<open>\<open>error.rs\<close>\<close>

text \<open>\<open>str::starts_with\<close> and \<open>str::contains\<close>.\<close>

definition starts_with :: "string \<Rightarrow> string \<Rightarrow> bool" where
  "starts_with s pat \<longleftrightarrow> take (length pat) s = pat"

fun contains_text :: "string \<Rightarrow> string \<Rightarrow> bool" where
  "contains_text [] pat = (pat = [])"
| "contains_text (c # s) pat = (starts_with (c # s) pat \<or> contains_text s pat)"

definition invalid_token_is_401 :: bool where
  "invalid_token_is_401 \<longleftrightarrow> status (invalid_token ''x'') = 401"

definition replay_unavailable_is_503 :: bool where
  "replay_unavailable_is_503 \<longleftrightarrow> status (new_error ReplayStoreUnavailable ''down'') = 503"

definition challenge_names_issuers_and_dpop_algs :: bool where
  "challenge_names_issuers_and_dpop_algs \<longleftrightarrow>
     (let h = www_authenticate (invalid_token_dpop ''nope'') [''https://idp.example''] [''ES256'', ''RS256''] True
      in starts_with h ''DPoP '' \<and> contains_text h ''error=\"invalid_token\"''
         \<and> contains_text h ''issuer=\"https://idp.example\"'' \<and> contains_text h ''algs=\"ES256 RS256\"''
         \<and> contains_text h ''scope=\"webid\"'')"

definition challenge_escapes_quotes :: bool where
  "challenge_escapes_quotes \<longleftrightarrow>
     (let h = www_authenticate
                (invalid_token (''he said '' @ [CHR 0x22] @ ''hi'' @ [CHR 0x22, CHR '' '', CHR 0x5C] @ '' bye''))
                [] [] False
      in contains_text h ([CHR 0x5C, CHR 0x22] @ ''hi'' @ [CHR 0x5C, CHR 0x22])
         \<and> contains_text h [CHR 0x5C, CHR 0x5C])"

definition bearer_challenge_when_not_dpop :: bool where
  "bearer_challenge_when_not_dpop \<longleftrightarrow>
     (let h = www_authenticate (invalid_request ''bad'') [] [] False
      in starts_with h ''Bearer '' \<and> \<not> contains_text h ''algs='')"

lemma error_tests:
  "invalid_token_is_401" "replay_unavailable_is_503" "challenge_names_issuers_and_dpop_algs"
  "challenge_escapes_quotes" "bearer_challenge_when_not_dpop"
  by code_simp+

subsection \<open>\<open>jwk.rs\<close>\<close>

text \<open>A key with nothing but its type.\<close>

definition bare_jwk :: "string \<Rightarrow> jwk" where
  "bare_jwk kty = \<lparr>jwk_kty = kty, jwk_crv = None, jwk_x = None, jwk_y = None, jwk_n = None,
     jwk_e = None, jwk_d = None, jwk_p = None, jwk_q = None, jwk_dp = None, jwk_dq = None,
     jwk_qi = None, jwk_alg = None, jwk_use = None, jwk_kid = None\<rparr>"

definition x_coord :: string where
  "x_coord = ''f83OJ3D2xF1Bg8vub9tLe1gHMzV76e8Tus9uPHvRVEU''"

definition y_coord :: string where
  "y_coord = ''x_FEzRu9m36HLN_tue659LNpXW6pCyStikYjKIWI5a0''"

definition ec_thumbprint_is_deterministic_and_canonical :: "('k, 'p, 's) crates \<Rightarrow> bool" where
  "ec_thumbprint_is_deterministic_and_canonical E \<longleftrightarrow>
     (case thumbprint_sha256 E ((bare_jwk ''EC'')\<lparr>jwk_crv := Some ''P-256'', jwk_x := Some x_coord,
              jwk_y := Some y_coord\<rparr>) of
        Ok tp \<Rightarrow> tp = ''oKIywvGUpTVTyxMQ3bwIIeQUudfr_CkLMjCE19ECD-U'' \<and> length tp = 43
          \<and> CHR ''='' \<notin> set tp \<and> CHR ''+'' \<notin> set tp \<and> CHR ''/'' \<notin> set tp
      | _ \<Rightarrow> False)"

definition rsa_thumbprint_member_order_is_e_kty_n :: "('k, 'p, 's) crates \<Rightarrow> bool" where
  "rsa_thumbprint_member_order_is_e_kty_n E \<longleftrightarrow>
     thumbprint_sha256 E ((bare_jwk ''RSA'')\<lparr>jwk_n := Some ''sXchDaQebHnPiGvyDOAT4saGEUetSyo9MQ'',
         jwk_e := Some ''AQAB''\<rparr>)
       = Ok ''u5M0uP6MwqOg43H8mtl1n4W7rImZo9M6UeGM24Dqt-E''"

definition private_material_detected :: bool where
  "private_material_detected \<longleftrightarrow>
     has_private_material ((bare_jwk ''EC'')\<lparr>jwk_crv := Some ''P-256'', jwk_x := Some ''a'',
       jwk_y := Some ''b'', jwk_d := Some ''private''\<rparr>)"

definition es512_is_policy_but_not_verifiable :: "('k, 'p, 's) crates \<Rightarrow> bool" where
  "es512_is_policy_but_not_verifiable E \<longleftrightarrow> alg_in_policy ''ES512'' \<and> \<not> alg_is_verifiable E ''ES512''"

definition es512_is_policy_and_verifiable_with_feature :: "('k, 'p, 's) crates \<Rightarrow> bool" where
  "es512_is_policy_and_verifiable_with_feature E \<longleftrightarrow>
     alg_in_policy ''ES512'' \<and> alg_is_verifiable E ''ES512''"

definition hs256_and_none_are_not_in_policy :: "('k, 'p, 's) crates \<Rightarrow> bool" where
  "hs256_and_none_are_not_in_policy E \<longleftrightarrow>
     \<not> alg_in_policy ''HS256'' \<and> \<not> alg_in_policy ''none''
     \<and> \<not> alg_is_verifiable E ''HS256'' \<and> \<not> alg_is_verifiable E ''none''"

definition symmetric_jwk_flagged :: bool where
  "symmetric_jwk_flagged \<longleftrightarrow> is_symmetric (bare_jwk ''oct'')"

text \<open>The digests of the two canonical texts; their member order is the point of the tests.\<close>

lemma thumbprint_tests:
  assumes "b64_encode E (sha256 E (''{\"crv\":\"P-256\",\"kty\":\"EC\",\"x\":\"'' @ x_coord
             @ ''\",\"y\":\"'' @ y_coord @ ''\"}'')) = ''oKIywvGUpTVTyxMQ3bwIIeQUudfr_CkLMjCE19ECD-U''"
    and "b64_encode E (sha256 E
           ''{\"e\":\"AQAB\",\"kty\":\"RSA\",\"n\":\"sXchDaQebHnPiGvyDOAT4saGEUetSyo9MQ\"}'')
         = ''u5M0uP6MwqOg43H8mtl1n4W7rImZo9M6UeGM24Dqt-E''"
  shows "ec_thumbprint_is_deterministic_and_canonical E" "rsa_thumbprint_member_order_is_e_kty_n E"
  using assms
  by (simp_all add: ec_thumbprint_is_deterministic_and_canonical_def rsa_thumbprint_member_order_is_e_kty_n_def
      thumbprint_sha256_def canonical_jwk_def bare_jwk_def json_member_def json_escape_def replace_char_def
      x_coord_def y_coord_def)

lemma jwk_tests:
  "private_material_detected" "hs256_and_none_are_not_in_policy E" "symmetric_jwk_flagged"
  "\<not> es512 E \<Longrightarrow> es512_is_policy_but_not_verifiable E"
  "es512 E \<Longrightarrow> es512_is_policy_and_verifiable_with_feature E"
  by (simp_all add: private_material_detected_def has_private_material_def bare_jwk_def
      hs256_and_none_are_not_in_policy_def alg_in_policy_def alg_is_verifiable_def SIGNING_ALGS_def
      symmetric_jwk_flagged_def is_symmetric_def eq_ignore_ascii_case_def
      es512_is_policy_but_not_verifiable_def es512_is_policy_and_verifiable_with_feature_def)

subsection \<open>\<open>jwt.rs\<close>\<close>

definition split_rejects_two_part :: bool where
  "split_rejects_two_part \<longleftrightarrow>
     \<not> is_ok (split_compact ''a.b'') \<and> \<not> is_ok (split_compact ''not.a.jwt.at.all'')
     \<and> \<not> is_ok (split_compact ''a..c'')"

definition peek_claims_none_for_garbage :: "('k, 'p, 's) crates \<Rightarrow> bool" where
  "peek_claims_none_for_garbage E \<longleftrightarrow> peek_claims E ''garbage'' = None"

definition map_algorithm_rejects_hs_and_none :: "('k, 'p, 's) crates \<Rightarrow> bool" where
  "map_algorithm_rejects_hs_and_none E \<longleftrightarrow>
     \<not> is_ok (map_algorithm E ''HS256'') \<and> \<not> is_ok (map_algorithm E ''none'')"

definition map_algorithm_rejects_es512_narrowing :: "('k, 'p, 's) crates \<Rightarrow> bool" where
  "map_algorithm_rejects_es512_narrowing E \<longleftrightarrow>
     (case map_algorithm E ''ES512'' of Err e \<Rightarrow> contains_text (err_message e) ''ES512'' | _ \<Rightarrow> False)"

definition map_algorithm_accepts_es256 :: "('k, 'p, 's) crates \<Rightarrow> bool" where
  "map_algorithm_accepts_es256 E \<longleftrightarrow> map_algorithm E ''ES256'' = Ok ES256"

lemma jwt_tests:
  "split_rejects_two_part" "peek_claims_none_for_garbage E" "map_algorithm_rejects_hs_and_none E"
  "map_algorithm_rejects_es512_narrowing E" "map_algorithm_accepts_es256 E"
  by (simp_all add: split_rejects_two_part_def split_compact_def peek_claims_none_for_garbage_def
      peek_claims_def map_algorithm_rejects_hs_and_none_def map_algorithm_def alg_in_policy_def
      SIGNING_ALGS_def map_algorithm_rejects_es512_narrowing_def ES512_KNOWN_NARROWING_def
      starts_with_def map_algorithm_accepts_es256_def alg_is_verifiable_def)

subsection \<open>\<open>config.rs\<close>\<close>

definition test_config :: "unit verifier_config" where
  "test_config = new_config [''https://idp''] ''https://pod.example''"

definition validate_rejects_empty_issuers :: bool where
  "validate_rejects_empty_issuers \<longleftrightarrow>
     \<not> is_ok (validate (new_config [] ''https://pod.example'' :: unit verifier_config))"

definition validate_rejects_empty_audience :: bool where
  "validate_rejects_empty_audience \<longleftrightarrow>
     \<not> is_ok (validate (new_config [''https://idp''] [] :: unit verifier_config))"

definition replay_ttl_covers_full_symmetric_window :: "bool \<Rightarrow> bool" where
  "replay_ttl_covers_full_symmetric_window oc \<longleftrightarrow> replay_ttl oc test_config = Ok (611 * 10 ^ 9)"

definition replay_ttl_tracks_clock_tolerance :: "bool \<Rightarrow> bool" where
  "replay_ttl_tracks_clock_tolerance oc \<longleftrightarrow>
     replay_ttl oc (set_clock_tolerance_secs 20 test_config) = Ok (641 * 10 ^ 9)"

definition replay_ttl_includes_the_one_second_inclusive_boundary_margin :: "bool \<Rightarrow> bool" where
  "replay_ttl_includes_the_one_second_inclusive_boundary_margin oc \<longleftrightarrow>
     list_all (\<lambda>tol.
       let nominal = 2 * (DPOP_PROOF_MAX_AGE_SECS + tol) in
       (case replay_ttl oc (set_clock_tolerance_secs tol test_config) of
          Ok ttl \<Rightarrow> ttl = nat (nominal + 1) * 10 ^ 9 \<and> nat nominal * 10 ^ 9 < ttl
        | _ \<Rightarrow> False)) [0, 5, 20, 100]"

text \<open>The seconds of the test are floating-point numbers; here they are nanoseconds.\<close>

definition replay_ttl_leaves_no_gap_at_the_latest_acceptable_instant :: "bool \<Rightarrow> bool" where
  "replay_ttl_leaves_no_gap_at_the_latest_acceptable_instant oc \<longleftrightarrow>
     list_all (\<lambda>tol.
       let window = nat (DPOP_PROOF_MAX_AGE_SECS + tol) * 10 ^ 9;
           last_acceptable_offset = 2 * window + 10 ^ 9 in
       (case replay_ttl oc (set_clock_tolerance_secs tol test_config) of
          Ok ttl \<Rightarrow> list_all (\<lambda>mark_offset. last_acceptable_offset \<le> mark_offset + ttl)
            [0, 1000000, 250000000, 500000000, 999999000]
        | _ \<Rightarrow> False)) [0, 5, 20]"

definition static_provider_returns_keys_or_err :: bool where
  "static_provider_returns_keys_or_err \<longleftrightarrow> \<not> is_ok (fst (static_keys_for new_static ''https://x'' ()))"

lemmas config_test_simps = test_config_def new_config_def validate_def set_clock_tolerance_secs_def
  replay_ttl_def DPOP_PROOF_MAX_AGE_SECS_def DEFAULT_CLOCK_TOLERANCE_SECS_def

lemma config_tests:
  "validate_rejects_empty_issuers" "validate_rejects_empty_audience"
  "replay_ttl_covers_full_symmetric_window oc" "replay_ttl_tracks_clock_tolerance oc"
  "replay_ttl_includes_the_one_second_inclusive_boundary_margin oc"
  "replay_ttl_leaves_no_gap_at_the_latest_acceptable_instant oc"
  "static_provider_returns_keys_or_err"
  by (simp_all add: validate_rejects_empty_issuers_def validate_rejects_empty_audience_def
      replay_ttl_covers_full_symmetric_window_def replay_ttl_tracks_clock_tolerance_def
      replay_ttl_includes_the_one_second_inclusive_boundary_margin_def
      replay_ttl_leaves_no_gap_at_the_latest_acceptable_instant_def
      static_provider_returns_keys_or_err_def static_keys_for_def new_static_def lift_def
      config_test_simps u64_result_def in_u64_def)

text \<open>The entries of the key sets, as JSON values, and the key the first of them stands for.\<close>

definition ec_entry :: json where
  "ec_entry = VObject [(''crv'', VString ''P-256''), (''kty'', VString ''EC''),
     (''x'', VString x_coord), (''y'', VString y_coord)]"

definition oct_entry :: json where
  "oct_entry = VObject [(''k'', VString ''c2VjcmV0''), (''kty'', VString ''oct'')]"

definition private_entry :: json where
  "private_entry = VObject [(''crv'', VString ''P-256''), (''d'', VString ''private-scalar''),
     (''kty'', VString ''EC''), (''x'', VString ''a''), (''y'', VString ''b'')]"

definition small_entry :: json where
  "small_entry = VObject [(''crv'', VString ''P-256''), (''kty'', VString ''EC''),
     (''x'', VString ''a''), (''y'', VString ''b'')]"

definition parse_jwks_reads_keys_and_skips_bad_entries :: "('k, 'p, 's) crates \<Rightarrow> bytes \<Rightarrow> bool" where
  "parse_jwks_reads_keys_and_skips_bad_entries E body \<longleftrightarrow>
     (case parse_jwks E body of Ok keys \<Rightarrow> length keys = 1 \<and> jwk_kty (hd keys) = ''EC'' | _ \<Rightarrow> False)"

definition parse_jwks_rejects_no_usable_keys :: "('k, 'p, 's) crates \<Rightarrow> bytes \<Rightarrow> bool" where
  "parse_jwks_rejects_no_usable_keys E body \<longleftrightarrow> \<not> is_ok (parse_jwks E body)"

definition parse_jwks_rejects_missing_keys_array_and_bad_json ::
  "('k, 'p, 's) crates \<Rightarrow> bytes \<Rightarrow> bytes \<Rightarrow> bool" where
  "parse_jwks_rejects_missing_keys_array_and_bad_json E no_keys no_json \<longleftrightarrow>
     \<not> is_ok (parse_jwks E no_keys) \<and> \<not> is_ok (parse_jwks E no_json)"

definition parse_jwks_rejects_oversized_keyset :: "('k, 'p, 's) crates \<Rightarrow> bytes \<Rightarrow> bool" where
  "parse_jwks_rejects_oversized_keyset E body \<longleftrightarrow> \<not> is_ok (parse_jwks E body)"

text \<open>What \<open>serde\<close> makes of the three entries: the key, and the two the loop has to drop.\<close>

lemma keyset_tests:
  assumes "jwk_from_value E ec_entry = Some ((bare_jwk ''EC'')\<lparr>jwk_crv := Some ''P-256'',
             jwk_x := Some x_coord, jwk_y := Some y_coord\<rparr>)"
    and oct: "jwk_from_value E oct_entry = Some (bare_jwk ''oct'')"
    and "jwk_from_value E private_entry = Some ((bare_jwk ''EC'')\<lparr>jwk_crv := Some ''P-256'',
             jwk_x := Some ''a'', jwk_y := Some ''b'', jwk_d := Some ''private-scalar''\<rparr>)"
  shows "json_parse E body = Some (VObject [(''keys'', VArray [ec_entry, oct_entry, private_entry])])
      \<Longrightarrow> parse_jwks_reads_keys_and_skips_bad_entries E body"
    and "json_parse E body = Some (VObject [(''keys'', VArray [oct_entry])])
      \<Longrightarrow> parse_jwks_rejects_no_usable_keys E body"
  using assms
  by (simp_all add: parse_jwks_reads_keys_and_skips_bad_entries_def parse_jwks_rejects_no_usable_keys_def
      parse_jwks_def member_def MAX_KEYS_def bare_jwk_def is_symmetric_def has_private_material_def
      eq_ignore_ascii_case_def ascii_lower_def)

lemma keyset_refusals:
  "json_parse E no_keys = Some (VObject [(''not_keys'', VArray [])]) \<Longrightarrow> json_parse E no_json = None
     \<Longrightarrow> parse_jwks_rejects_missing_keys_array_and_bad_json E no_keys no_json"
  "json_parse E body = Some (VObject [(''keys'', VArray (replicate 65 small_entry))])
     \<Longrightarrow> parse_jwks_rejects_oversized_keyset E body"
  by (simp_all add: parse_jwks_rejects_missing_keys_array_and_bad_json_def parse_jwks_def member_def
      parse_jwks_rejects_oversized_keyset_def MAX_KEYS_def)

end
