(* ===== verification/Tests_Verifier.thy ===== *)
theory Tests_Verifier
  imports Verifier
begin

section \<open>The unit tests of \<open>verifier.rs\<close>\<close>

text \<open>
  The tests of the source as predicates on the model, under their own names. What they rely on of
  \<open>base64\<close> is named in \<open>base64_rules\<close>: the round trip, the alphabet, and that nothing outside it
  decodes; of \<open>serde_json\<close>, that it reads back what it wrote. The test on the text of a
  normalised \<open>htu\<close> is in \<open>Tests_Text\<close>.
\<close>

subsection \<open>The Authorization header\<close>

definition parse_authorization_splits_scheme_token :: "('k, 'p, 's) crates \<Rightarrow> bool" where
  "parse_authorization_splits_scheme_token E \<longleftrightarrow>
     parse_authorization E (Some ''DPoP abc.def.ghi'') = Some (''dpop'', ''abc.def.ghi'')"

definition parse_authorization_none_for_empty_or_schemeless :: "('k, 'p, 's) crates \<Rightarrow> bool" where
  "parse_authorization_none_for_empty_or_schemeless E \<longleftrightarrow>
     parse_authorization E None = None \<and> parse_authorization E (Some ''Bearer'') = None
     \<and> parse_authorization E (Some ''Bearer '') = None"

lemma trimmed_headers:
  "trim ''DPoP abc.def.ghi'' = ''DPoP abc.def.ghi''" "trim ''Bearer'' = ''Bearer''"
  "trim ''Bearer '' = ''Bearer''" "trim ''abc.def.ghi'' = ''abc.def.ghi''"
  by code_simp+

lemma lowered_dpop: "map ascii_lower ''DPoP'' = ''dpop''" "is_ascii ''DPoP''"
  by code_simp+

lemma authorization_tests:
  "parse_authorization_splits_scheme_token E" "parse_authorization_none_for_empty_or_schemeless E"
  by (simp_all add: parse_authorization_splits_scheme_token_def parse_authorization_def Let_def
      parse_authorization_none_for_empty_or_schemeless_def trimmed_headers to_lowercase_def
      lowered_dpop [simplified])

subsection \<open>Claims\<close>

definition audience_matches_string_and_array :: bool where
  "audience_matches_string_and_array \<longleftrightarrow>
     (let c = [(''aud'', VString ''https://pod.example'')];
          d = [(''aud'', VArray [VString ''https://pod.example''])]
      in audience_matches c ''https://pod.example'' \<and> \<not> audience_matches c ''https://other''
         \<and> audience_matches d ''https://pod.example'')"

definition extract_cnf_jkt_reads_nested :: bool where
  "extract_cnf_jkt_reads_nested \<longleftrightarrow>
     extract_cnf_jkt [(''cnf'', VObject [(''jkt'', VString ''thumb'')])] = Some ''thumb''"

lemma claim_tests: "audience_matches_string_and_array" "extract_cnf_jkt_reads_nested"
  by code_simp+

subsection \<open>The access token hash\<close>

definition ath_is_b64url_sha256 :: "('k, 'p, 's) crates \<Rightarrow> bool" where
  "ath_is_b64url_sha256 E \<longleftrightarrow> (let a = ath E ''token'' in length a = 43 \<and> CHR ''='' \<notin> set a)"

text \<open>A digest is 32 bytes, and base64 without padding takes four characters for every three.\<close>

lemma ath_test:
  assumes "\<And>b. length (sha256 E b) = 32" and "\<And>b. length (b64_encode E b) = (4 * length b + 2) div 3"
    and "\<And>b. CHR ''='' \<notin> set (b64_encode E b)"
  shows "ath_is_b64url_sha256 E"
  by (simp add: ath_is_b64url_sha256_def ath_def assms)

subsection \<open>The certificate binding\<close>

definition base64_alphabet :: "char set" where
  "base64_alphabet = set (''ABCDEFGHIJKLMNOPQRSTUVWXYZabcdefghijklmnopqrstuvwxyz0123456789-_'')"

definition base64_rules :: "('k, 'p, 's) crates \<Rightarrow> bool" where
  "base64_rules E \<longleftrightarrow>
     (\<forall>b. b64_decode E (b64_encode E b) = Some b) \<and> b64_encode E [] = []
     \<and> (\<forall>b. set (b64_encode E b) \<subseteq> base64_alphabet)
     \<and> (\<forall>s. \<not> set s \<subseteq> base64_alphabet \<longrightarrow> b64_decode E s = None)"

definition valid_x5t :: "('k, 'p, 's) crates \<Rightarrow> char \<Rightarrow> string" where
  "valid_x5t E seed = b64_encode E (replicate 32 seed)"

definition claims_with_cnf :: "json option \<Rightarrow> json option \<Rightarrow> claims" where
  "claims_with_cnf jkt x5t =
     (if jkt \<noteq> None \<or> x5t \<noteq> None then
        [(''cnf'', VObject ((case jkt of Some v \<Rightarrow> [(''jkt'', v)] | None \<Rightarrow> [])
                     @ (case x5t of Some v \<Rightarrow> [(''x5t#S256'', v)] | None \<Rightarrow> [])))]
      else [])"

definition x5t_valid_thumbprint_is_read :: "('k, 'p, 's) crates \<Rightarrow> bool" where
  "x5t_valid_thumbprint_is_read E \<longleftrightarrow>
     (let t = valid_x5t E (CHR 0xAB)
      in extract_cnf_x5t_s256 E (claims_with_cnf None (Some (VString t))) = Some (Thumbprint t))"

definition x5t_absent_cnf_is_none :: "('k, 'p, 's) crates \<Rightarrow> bool" where
  "x5t_absent_cnf_is_none E \<longleftrightarrow> extract_cnf_x5t_s256 E [] = None \<and> extract_cnf_jkt [] = None"

definition x5t_cnf_without_member_is_none :: "('k, 'p, 's) crates \<Rightarrow> bool" where
  "x5t_cnf_without_member_is_none E \<longleftrightarrow>
     extract_cnf_x5t_s256 E (claims_with_cnf (Some (VString ''thumb'')) None) = None"

definition x5t_wrong_length_is_malformed_not_none :: "('k, 'p, 's) crates \<Rightarrow> bool" where
  "x5t_wrong_length_is_malformed_not_none E \<longleftrightarrow>
     (let short = b64_encode E (replicate 16 (CHR 0x00))
      in extract_cnf_x5t_s256 E (claims_with_cnf None (Some (VString short))) = Some Malformed)"

definition x5t_bad_alphabet_or_padding_is_malformed :: "('k, 'p, 's) crates \<Rightarrow> bool" where
  "x5t_bad_alphabet_or_padding_is_malformed E \<longleftrightarrow>
     list_all (\<lambda>bad. extract_cnf_x5t_s256 E (claims_with_cnf None (Some (VString bad))) = Some Malformed)
       [''not valid base64!!!'', ''###'', ''AAAA='', [], ''   '']"

definition x5t_non_string_value_is_malformed :: "('k, 'p, 's) crates \<Rightarrow> bool" where
  "x5t_non_string_value_is_malformed E \<longleftrightarrow>
     list_all (\<lambda>v. extract_cnf_x5t_s256 E (claims_with_cnf None (Some v)) = Some Malformed)
       [VNumber (PosInt 42), VBool True, VNull, VArray [VString (valid_x5t E (CHR 0x02))],
        VObject [(''x5t#S256'', VString (valid_x5t E (CHR 0x01)))]]"

definition x5t_and_jkt_both_present_are_surfaced_independently :: "('k, 'p, 's) crates \<Rightarrow> bool" where
  "x5t_and_jkt_both_present_are_surfaced_independently E \<longleftrightarrow>
     (let t = valid_x5t E (CHR 0x11);
          c = claims_with_cnf (Some (VString ''the-jkt'')) (Some (VString t))
      in extract_cnf_jkt c = Some ''the-jkt'' \<and> extract_cnf_x5t_s256 E c = Some (Thumbprint t))"

definition x5t_thumbprint_accessor_collapses_malformed_to_none :: "('k, 'p, 's) crates \<Rightarrow> bool" where
  "x5t_thumbprint_accessor_collapses_malformed_to_none E \<longleftrightarrow>
     (let t = valid_x5t E (CHR 0x22)
      in cnf_x5t_s256_thumbprint (public_token\<lparr>tok_cnf_x5t_s256 := Some (Thumbprint t)\<rparr>) = Some t
         \<and> cnf_x5t_s256_thumbprint (public_token\<lparr>tok_cnf_x5t_s256 := Some Malformed\<rparr>) = None
         \<and> cnf_x5t_s256_thumbprint public_token = None)"

definition constant_time_eq_matches_only_identical_bytes :: bool where
  "constant_time_eq_matches_only_identical_bytes \<longleftrightarrow>
     constant_time_eq [] [] \<and> constant_time_eq ''abcDEF-_'' ''abcDEF-_''
     \<and> \<not> constant_time_eq ''abc'' ''abd'' \<and> \<not> constant_time_eq ''abc'' ''abcd''
     \<and> \<not> constant_time_eq ''abcd'' ''abc''"

text \<open>An unsigned token around a payload; \<open>to_vec\<close> is \<open>serde_json::to_vec\<close>.\<close>

definition tok :: "('k, 'p, 's) crates \<Rightarrow> (json \<Rightarrow> bytes) \<Rightarrow> json \<Rightarrow> string" where
  "tok E to_vec payload =
     b64_encode E (to_vec (VObject [(''alg'', VString ''ES256''), (''typ'', VString ''at+jwt'')]))
     @ ''.'' @ b64_encode E (to_vec payload) @ ''.'' @ ''sig''"

definition token_is_cert_bound_true_only_for_wellformed_x5t ::
  "('k, 'p, 's) crates \<Rightarrow> (json \<Rightarrow> bytes) \<Rightarrow> bool" where
  "token_is_cert_bound_true_only_for_wellformed_x5t E to_vec \<longleftrightarrow>
     (let good = VString (valid_x5t E (CHR 0x5A));
          bound = (\<lambda>cnf. token_is_cert_bound E (tok E to_vec (VObject [(''cnf'', VObject cnf)])))
      in bound [(''x5t#S256'', good)]
         \<and> bound [(''jkt'', VString ''j''), (''x5t#S256'', good)]
         \<and> \<not> bound [(''x5t#S256'', VString ''###'')]
         \<and> \<not> bound [(''jkt'', VString ''j'')]
         \<and> \<not> token_is_cert_bound E (tok E to_vec (VObject [(''sub'', VString ''x'')]))
         \<and> \<not> token_is_cert_bound E ''not-a-jwt'' \<and> \<not> token_is_cert_bound E [])"

subsection \<open>The tests pass\<close>

lemma base64_rulesD:
  assumes "base64_rules E"
  shows "b64_decode E (b64_encode E b) = Some b" "b64_encode E b = [] \<longleftrightarrow> b = []"
    "set (b64_encode E b) \<subseteq> base64_alphabet" "\<not> set s \<subseteq> base64_alphabet \<Longrightarrow> b64_decode E s = None"
proof -
  show rt: "b64_decode E (b64_encode E b) = Some b" for b
    using assms by (simp add: base64_rules_def)
  have "b64_encode E [] = []"
    using assms by (simp add: base64_rules_def)
  then show "b64_encode E b = [] \<longleftrightarrow> b = []"
    using rt [of b] rt [of "[]"] by (metis option.inject)
  show "set (b64_encode E b) \<subseteq> base64_alphabet" "\<not> set s \<subseteq> base64_alphabet \<Longrightarrow> b64_decode E s = None"
    using assms by (simp_all add: base64_rules_def)
qed

lemma valid_x5t_ok: "base64_rules E \<Longrightarrow> is_valid_x5t_s256 E (valid_x5t E c)"
  by (simp add: is_valid_x5t_s256_def valid_x5t_def base64_rulesD)

lemma bad_thumbprint:
  assumes "base64_rules E" "s \<in> set [''not valid base64!!!'', ''###'', ''AAAA='', [], ''   '']"
  shows "\<not> is_valid_x5t_s256 E s"
proof (cases "s = []")
  case True
  then show ?thesis
    using base64_rulesD(1) [OF assms(1), of "[]"] assms(1) by (simp add: is_valid_x5t_s256_def base64_rules_def)
next
  case False
  with assms(2) have "\<not> set s \<subseteq> base64_alphabet"
    by (auto simp: base64_alphabet_def)
  then show ?thesis by (simp add: is_valid_x5t_s256_def base64_rulesD(4) [OF assms(1)])
qed

lemmas binding_test_simps = extract_cnf_x5t_s256_def extract_cnf_jkt_def claims_with_cnf_def member_def

lemma binding_tests:
  assumes "base64_rules E"
  shows "x5t_valid_thumbprint_is_read E" "x5t_absent_cnf_is_none E" "x5t_cnf_without_member_is_none E"
    "x5t_wrong_length_is_malformed_not_none E" "x5t_bad_alphabet_or_padding_is_malformed E"
    "x5t_non_string_value_is_malformed E" "x5t_and_jkt_both_present_are_surfaced_independently E"
    "x5t_thumbprint_accessor_collapses_malformed_to_none E"
  using assms bad_thumbprint [OF assms]
  by (simp_all add: x5t_valid_thumbprint_is_read_def x5t_absent_cnf_is_none_def
      x5t_cnf_without_member_is_none_def x5t_wrong_length_is_malformed_not_none_def
      x5t_bad_alphabet_or_padding_is_malformed_def x5t_non_string_value_is_malformed_def
      x5t_and_jkt_both_present_are_surfaced_independently_def Let_def
      x5t_thumbprint_accessor_collapses_malformed_to_none_def cnf_x5t_s256_thumbprint_def
      binding_test_simps valid_x5t_ok is_valid_x5t_s256_def [of E "b64_encode E (replicate 16 c)" for c]
      base64_rulesD public_token_def)

lemma constant_time_test: "constant_time_eq_matches_only_identical_bytes"
  by code_simp

text \<open>A built token is one a peek can read.\<close>

lemma peek_tok:
  assumes "base64_rules E" and "\<And>v. json_parse E (to_vec v) = Some v" and "\<And>v. to_vec v \<noteq> []"
  shows "peek_claims E (tok E to_vec (VObject m)) = Some m"
proof -
  have "CHR ''.'' \<notin> base64_alphabet"
    by (simp add: base64_alphabet_def)
  then have "CHR ''.'' \<notin> set (b64_encode E b)" for b
    using base64_rulesD(3) [OF assms(1), of b] by auto
  then show ?thesis
    using assms by (simp add: peek_claims_def tok_def split_compact_def split_on_Cons_sep split_on_id
        b64url_decode_def base64_rulesD)
qed

lemma cert_bound_test:
  assumes "base64_rules E" and "\<And>v. json_parse E (to_vec v) = Some v" and "\<And>v. to_vec v \<noteq> []"
  shows "token_is_cert_bound_true_only_for_wellformed_x5t E to_vec"
proof -
  have junk: "peek_claims E ''not-a-jwt'' = None" "peek_claims E [] = None"
    by (simp_all add: peek_claims_def split_compact_def)
  show ?thesis
    by (simp add: token_is_cert_bound_true_only_for_wellformed_x5t_def Let_def token_is_cert_bound_def
        peek_tok [OF assms] junk binding_test_simps valid_x5t_ok [OF assms(1)] bad_thumbprint [OF assms(1)])
qed

subsection \<open>The rules can hold\<close>

text \<open>
  Hexadecimal text, whose digits are characters of the base64 alphabet, keeps every rule the tests use.
\<close>

definition hex_digits :: string where
  "hex_digits = ''0123456789abcdef''"

definition hex_value :: "char \<Rightarrow> nat option" where
  "hex_value c = (if c \<in> set hex_digits then Some (length (takeWhile (\<lambda>d. d \<noteq> c) hex_digits)) else None)"

definition hex_encode :: "bytes \<Rightarrow> string" where
  "hex_encode b = concat (map (\<lambda>c. [hex_digits ! (of_char c div 16), hex_digits ! (of_char c mod 16)]) b)"

fun hex_decode :: "string \<Rightarrow> bytes option" where
  "hex_decode [] = Some []"
| "hex_decode [_] = None"
| "hex_decode (h # l # s) =
     (case (hex_value h, hex_value l, hex_decode s) of
        (Some x, Some y, Some b) \<Rightarrow> Some (char_of (16 * x + y) # b)
      | _ \<Rightarrow> None)"

lemma hex_value_digit: "n < 16 \<Longrightarrow> hex_value (hex_digits ! n) = Some n"
proof -
  have "list_all (\<lambda>n. hex_value (hex_digits ! n) = Some n) [0..<16]"
    by code_simp
  then show "n < 16 \<Longrightarrow> hex_value (hex_digits ! n) = Some n"
    by (auto simp: list_all_iff)
qed

lemma hex_round_trip: "hex_decode (hex_encode b) = Some b"
proof (induction b)
  case (Cons c b)
  have "(of_char c :: nat) < 256"
    by simp
  then have "(of_char c :: nat) div 16 < 16"
    by (simp add: less_mult_imp_div_less)
  then show ?case
    using Cons.IH by (simp add: hex_encode_def hex_value_digit)
qed (simp add: hex_encode_def)

lemma hex_decode_digits: "hex_decode s = Some b \<Longrightarrow> set s \<subseteq> set hex_digits"
  by (induction s arbitrary: b rule: hex_decode.induct)
    (auto simp: hex_value_def split: option.splits if_splits)

lemma hex_digits_alphabet: "set hex_digits \<subseteq> base64_alphabet"
  by (simp add: hex_digits_def base64_alphabet_def)

lemma base64_rules_hex:
  "base64_rules ((sample_crates [])\<lparr>b64_encode := hex_encode, b64_decode := hex_decode\<rparr>)"
proof -
  have "set (hex_encode b) \<subseteq> base64_alphabet" for b
    using hex_decode_digits [OF hex_round_trip, of b] hex_digits_alphabet by blast
  moreover have "hex_decode s = None" if "\<not> set s \<subseteq> base64_alphabet" for s
    using that hex_decode_digits [of s] hex_digits_alphabet by (cases "hex_decode s") auto
  ultimately show ?thesis
    by (simp add: base64_rules_def hex_round_trip) (simp add: hex_encode_def)
qed

end
