(* ===== verification/Nat64_Embed.thy ===== *)
theory Nat64_Embed
  imports Nat64 Ipaddr_Text
begin

section \<open>The embedding of the tests is the embedding of RFC 6052\<close>

text \<open>
  The tests of \<open>ssrf.rs\<close> build their NAT64 addresses with a bit loop, \<open>embed_nat64\<close>. It is shown to be
  the octet table of the RFC, so that the tests over all permitted lengths follow from the theorems of
  \<open>Nat64\<close>.
\<close>

unbundle bit_operations_syntax

definition v4_bits :: "ipv4 \<Rightarrow> u32" where
  "v4_bits v = (case v of V4 a b c d \<Rightarrow>
     push_bit 24 (ucast a) OR push_bit 16 (ucast b) OR push_bit 8 (ucast c) OR ucast d)"

definition v6_of_bits :: "u128 \<Rightarrow> ipv6" where
  "v6_of_bits bits = map (\<lambda>k. ucast (drop_bit k bits)) [112, 96, 80, 64, 48, 32, 16, 0]"

function embed_loop :: "u32 \<Rightarrow> u128 \<Rightarrow> nat \<Rightarrow> nat \<Rightarrow> u128" where
  "embed_loop v4n bits taken pos =
     (if taken < 32 then
        if 64 \<le> pos \<and> pos < 72 then embed_loop v4n bits taken 72
        else embed_loop v4n (bits OR push_bit (127 - pos) (ucast (drop_bit (31 - taken) v4n AND 1)))
               (taken + 1) (pos + 1)
      else bits)"
  by pat_completeness auto
termination
  by (relation "measure (\<lambda>(v4n, bits, taken, pos). 2 * (32 - taken) + (if 64 \<le> pos \<and> pos < 72 then 1 else 0))")
    auto

declare embed_loop.simps [simp del]

text \<open>\<open>None\<close> is the panic of \<open>unwrap\<close> on a prefix that is no IPv6 address.\<close>

definition embed_bits :: "ipv6 \<Rightarrow> u8 \<Rightarrow> ipv4 \<Rightarrow> ipv6" where
  "embed_bits p prefix_len v4 =
     v6_of_bits (embed_loop (v4_bits v4)
       (ipv6_bits p AND push_bit (128 - unat prefix_len) (NOT 0)) 0 (unat prefix_len))"

definition embed_nat64 :: "string \<Rightarrow> u8 \<Rightarrow> ipv4 \<Rightarrow> string option" where
  "embed_nat64 prefix prefix_len v4 =
     map_option (\<lambda>p. show_v6 (embed_bits p prefix_len v4)) (parse_ipv6 prefix)"

subsection \<open>Bit by bit\<close>

lemma bit_embed_step:
  "pos \<le> 127 \<Longrightarrow> bit (bits OR push_bit (127 - pos) (ucast (drop_bit s (v :: u32) AND 1)) :: u128) i
     \<longleftrightarrow> bit bits i \<or> i = 127 - pos \<and> bit v s"
  using bit_imp_le_length [of bits i]
  by (auto simp: bit_simps)

lemma bit_embed_loop:
  "taken \<le> 32 \<Longrightarrow> \<forall>k < 32 - taken. bit_source pos k \<le> 127 \<Longrightarrow>
   bit (embed_loop v bits taken pos) i \<longleftrightarrow>
     bit bits i \<or> (\<exists>k < 32 - taken. i = 127 - bit_source pos k \<and> bit v (31 - taken - k))"
proof (induction v bits taken pos rule: embed_loop.induct)
  case (1 v bits taken pos)
  show ?case
  proof (cases "taken < 32")
    case False
    then show ?thesis by (subst embed_loop.simps) simp
  next
    case True
    show ?thesis
    proof (cases "64 \<le> pos \<and> pos < 72")
      case T: True
      then have src: "bit_source pos k = bit_source 72 k" for k
        by (auto simp: bit_source_def)
      have "embed_loop v bits taken pos = embed_loop v bits taken 72"
        using True T by (subst embed_loop.simps) simp
      then show ?thesis using "1.IH"(1) [OF True T] "1.prems" by (simp only: src)
    next
      case F: False
      have src: "bit_source (Suc pos) k = bit_source pos (Suc k)" "bit_source pos 0 = pos" for k
        using F by (auto simp: bit_source_def)
      have pos: "pos \<le> 127" using "1.prems"(2) True src(2) by (metis zero_less_diff)
      have step: "embed_loop v bits taken pos = embed_loop v
          (bits OR push_bit (127 - pos) (ucast (drop_bit (31 - taken) v AND 1))) (taken + 1) (pos + 1)"
        using True F by (subst embed_loop.simps) auto
      have k: "(\<exists>k < 32 - taken. P k) \<longleftrightarrow> P 0 \<or> (\<exists>k < 31 - taken. P (Suc k))" for P
      proof -
        have "32 - taken = Suc (31 - taken)" using True by arith
        then show ?thesis by (simp only: Ex_less_Suc2)
      qed
      have "\<forall>k < 32 - (taken + 1). bit_source (pos + 1) k \<le> 127"
        using "1.prems"(2) by (simp add: src)
      then show ?thesis
        unfolding step k using "1.IH"(2) [OF True F] True
        by (simp add: bit_embed_step [OF pos] src)
    qed
  qed
qed

subsection \<open>Octet by octet\<close>

lemma bit_v4_bits: "m < 4 \<Longrightarrow> j < 8 \<Longrightarrow> bit (v4_bits v) (8 * (3 - m) + j) \<longleftrightarrow> bit (octets v ! m) j"
proof -
  assume m: "m < 4" and j: "j < 8"
  have *: "\<not> bit (x :: u8) (j + 8)" "\<not> bit x (j + 16)" "\<not> bit x (j + 24)" for x
    using bit_imp_le_length [of x] by fastforce+
  from m have "m = 0 \<or> m = 1 \<or> m = 2 \<or> m = 3" by linarith
  then show ?thesis
    using j by (cases v, elim disjE) (simp_all add: v4_bits_def bit_or_iff bit_push_bit_iff bit_unsigned_iff * add.commute)
qed

lemma length_v6_of_bits [simp]: "length (v6_of_bits x) = 8"
  by (simp add: v6_of_bits_def)

lemma bit_v6_of_bits: "k < 16 \<Longrightarrow> j < 8 \<Longrightarrow> bit (v6_octets (v6_of_bits x) ! k) j \<longleftrightarrow> bit x (8 * (15 - k) + j)"
proof -
  assume k: "k < 16" "j < 8"
  obtain m where m: "k = 2 * m \<or> k = Suc (2 * m)"
    by (metis evenE oddE Suc_eq_plus1)
  then have m8: "m < 8" using k by auto
  have seg: "v6_of_bits x ! m = ucast (drop_bit (16 * (7 - m)) x)"
  proof -
    have "m = 0 \<or> m = 1 \<or> m = 2 \<or> m = 3 \<or> m = 4 \<or> m = 5 \<or> m = 6 \<or> m = 7" using m8 by linarith
    then show ?thesis by (elim disjE) (simp_all add: v6_of_bits_def)
  qed
  from m show ?thesis
  proof
    assume e: "k = 2 * m"
    have "8 * (15 - k) + j = 16 * (7 - m) + (8 + j)" using e m8 by auto
    then show ?thesis
      using k m8 by (simp add: e v6_octets_nth seg bit_bytes) (simp add: bit_simps add.assoc)
  next
    assume e: "k = Suc (2 * m)"
    have "8 * (15 - k) + j = 16 * (7 - m) + j" using e m8 by auto
    then show ?thesis
      using k m8 by (simp add: e v6_octets_nth seg bit_bytes) (simp add: bit_simps)
  qed
qed

text \<open>Octet \<open>m\<close> of the IPv4 address goes to octet \<open>v4_place n m\<close> of the address.\<close>

definition v4_place :: "nat \<Rightarrow> nat \<Rightarrow> nat" where
  "v4_place n m = (if n + m < 8 \<or> 8 < n then n + m else n + m + 1)"

lemma bit_source_octets:
  assumes "4 \<le> n \<and> n \<le> 8 \<or> n = 12" "m < 4" "r < 8"
  shows "bit_source (8 * n) (8 * m + r) = 8 * v4_place n m + r"
proof -
  have "8 * n + (8 * m + r) < 64 \<longleftrightarrow> n + m < 8" using assms(3) by arith
  then show ?thesis using assms by (auto simp: bit_source_def v4_place_def)
qed

lemma source_position:
  assumes n: "4 \<le> n \<and> n \<le> 8 \<or> n = 12" and k: "k < 16" "j < 8"
  shows "(\<exists>q < 32. 8 * (15 - k) + j = 127 - bit_source (8 * n) q \<and> bit (v4_bits v) (31 - q))
    \<longleftrightarrow> (\<exists>m < 4. k = v4_place n m \<and> bit (octets v ! m) j)" (is "?l \<longleftrightarrow> ?r")
proof
  assume ?l
  then obtain q where q: "q < 32" "8 * (15 - k) + j = 127 - bit_source (8 * n) q" "bit (v4_bits v) (31 - q)"
    by blast
  define m r where "m = q div 8" and "r = q mod 8"
  then have qmr: "q = 8 * m + r" "m < 4" "r < 8" using q(1) by auto
  have p: "v4_place n m < 16" using n qmr(2) by (auto simp: v4_place_def)
  have "8 * (15 - k) + j = 127 - (8 * v4_place n m + r)"
    using q(2) bit_source_octets [OF n qmr(2,3)] qmr(1) by simp
  then have "8 * v4_place n m + r + j = 8 * k + 7" using k p qmr(3) by linarith
  then have kr: "k = v4_place n m" "r = 7 - j" using k(2) qmr(3) by presburger+
  have "31 - q = 8 * (3 - m) + j" using kr(2) qmr k(2) by arith
  then show ?r using q(3) bit_v4_bits [OF qmr(2) k(2)] kr(1) qmr(2) by auto
next
  assume ?r
  then obtain m where m: "m < 4" "k = v4_place n m" "bit (octets v ! m) j" by blast
  have "8 * (15 - k) + j = 127 - bit_source (8 * n) (8 * m + (7 - j))"
    using bit_source_octets [OF n m(1), of "7 - j"] k m(2) by simp
  moreover have "31 - (8 * m + (7 - j)) = 8 * (3 - m) + j" using m(1) k(2) by arith
  moreover have "8 * m + (7 - j) < 32" using m(1) by arith
  ultimately show ?l using m(3) bit_v4_bits [OF m(1) k(2)] by metis
qed

lemma embed_bits_octet:
  assumes p: "length p = 8" and l: "unat l = 8 * n" "4 \<le> n \<and> n \<le> 8 \<or> n = 12" and k: "k < 16" "j < 8"
  shows "bit (v6_octets (embed_bits p l v) ! k) j \<longleftrightarrow>
    k < n \<and> bit (v6_octets p ! k) j \<or> (\<exists>m < 4. k = v4_place n m \<and> bit (octets v ! m) j)"
proof -
  let ?P = "ipv6_bits p AND push_bit (128 - unat l) (NOT 0)"
  have "\<forall>q < 32 - 0. bit_source (8 * n) q \<le> 127"
    using l(2) by (auto simp: bit_source_def)
  then have loop: "bit (embed_loop (v4_bits v) ?P 0 (8 * n)) i \<longleftrightarrow>
      bit ?P i \<or> (\<exists>q < 32. i = 127 - bit_source (8 * n) q \<and> bit (v4_bits v) (31 - q))" for i
    by (subst bit_embed_loop) simp_all
  have pre: "bit ?P (8 * (15 - k) + j) \<longleftrightarrow> k < n \<and> bit (v6_octets p ! k) j"
  proof -
    have "bit (push_bit (128 - unat l) (NOT 0) :: u128) (8 * (15 - k) + j) \<longleftrightarrow> k < n"
      using l k by (auto simp: bit_simps)
    then show ?thesis using bit_octet [OF p k] by (simp only: bit_and_iff conj_commute)
  qed
  then show ?thesis
    using loop [of "8 * (15 - k) + j"] pre source_position [OF l(2) k, of v]
    unfolding embed_bits_def bit_v6_of_bits [OF k] l(1) by blast
qed

lemma less_16: "k < 16 \<Longrightarrow> k = 0 \<or> k = 1 \<or> k = 2 \<or> k = 3 \<or> k = 4 \<or> k = 5 \<or> k = 6 \<or> k = 7 \<or> k = 8
    \<or> k = 9 \<or> k = 10 \<or> k = 11 \<or> k = 12 \<or> k = 13 \<or> k = 14 \<or> k = (15 :: nat)"
  by presburger

lemma Ex_less_4: "(\<exists>m < 4. P m) \<longleftrightarrow> P 0 \<or> P 1 \<or> P 2 \<or> P (3 :: nat)"
  by (auto simp: numeral_eq_Suc Ex_less_Suc2)

lemma valid_octets:
  "4 \<le> n \<and> n \<le> 8 \<or> n = 12 \<longleftrightarrow> n = 4 \<or> n = 5 \<or> n = 6 \<or> n = 7 \<or> n = 8 \<or> n = (12 :: nat)"
  by auto

lemma embed_bits_rfc6052:
  assumes "length p = 8" "l \<in> set VALID_LENGTHS"
  shows "embed_bits p l v = rfc6052_embed l p v"
proof -
  obtain n where n: "unat l = 8 * n" "4 \<le> n \<and> n \<le> 8 \<or> n = 12"
    using valid_length_cases [OF assms(2)] by auto
  have len: "length (v6_octets p) = 16" using assms(1) by (simp add: length_v6_octets)
  have "v6_octets (embed_bits p l v) = v6_octets (rfc6052_embed l p v)"
  proof (rule nth_equalityI)
    fix k assume "k < length (v6_octets (embed_bits p l v))"
    then have k: "k < 16" by (simp add: length_v6_octets embed_bits_def)
    show "v6_octets (embed_bits p l v) ! k = v6_octets (rfc6052_embed l p v) ! k"
    proof (rule bit_word_eqI)
      fix j assume "j < LENGTH(8)"
      then have j: "j < 8" by simp
      show "bit (v6_octets (embed_bits p l v) ! k) j \<longleftrightarrow> bit (v6_octets (rfc6052_embed l p v) ! k) j"
        unfolding embed_bits_octet [OF assms(1) n k j] octets_embed(2) [OF assms] n(1)
        using n(2) [unfolded valid_octets] len j less_16 [OF k] by (cases v) (elim disjE exE; simp add: v4_place_def Ex_less_4 Let_def nth_append)
    qed
  qed (simp add: length_v6_octets embed_bits_def octets_embed(1) [OF assms])
  then show ?thesis by (simp add: v6_octets_inject)
qed

text \<open>An address built by the helper is read back as the address it denotes.\<close>

lemma embed_nat64_text:
  assumes "parse_ipv6 prefix = Some p" "l \<in> set VALID_LENGTHS" "embed_nat64 prefix l v = Some s"
  shows "parse_ip_addr s = Some (IpV6 (rfc6052_embed l p v))"
proof -
  have p: "length p = 8" using assms(1) by (rule parse_ipv6_length)
  have "s = show_ip (IpV6 (rfc6052_embed l p v))"
    using assms by (simp add: embed_nat64_def embed_bits_rfc6052 p)
  then show ?thesis
    using parse_show_ip [of "IpV6 (rfc6052_embed l p v)"] p assms(2) by (simp add: octets_embed ip_ok_def)
qed

end
