(* ===== verification/Tests_Ssrf.thy ===== *)
theory Tests_Ssrf
  imports Nat64_Embed
begin

section \<open>The unit tests of \<open>ssrf.rs\<close>\<close>

text \<open>
  The tests of the source as predicates on the model: each \<open>#[test]\<close> function is the conjunction of its
  assertions, and the lemma that it holds is the test passing. They are the program's own examples of
  what the classification means, so they check the definitions of \<open>Ssrf\<close> against the source
  independently of the theorems.
\<close>

subsection \<open>Classification of addresses\<close>

definition accepts_public_ipv4 :: bool where
  "accepts_public_ipv4 \<longleftrightarrow> is_public_address ''8.8.8.8'' False \<and> is_public_address ''1.1.1.1'' False
     \<and> is_public_address ''203.0.114.5'' False"

definition rejects_private_and_reserved_ipv4 :: bool where
  "rejects_private_and_reserved_ipv4 \<longleftrightarrow> \<not> is_public_address ''10.0.0.1'' False
     \<and> \<not> is_public_address ''192.168.1.1'' False \<and> \<not> is_public_address ''172.20.0.1'' False
     \<and> \<not> is_public_address ''169.254.1.1'' False \<and> \<not> is_public_address ''100.64.0.1'' False
     \<and> \<not> is_public_address ''0.0.0.0'' False \<and> \<not> is_public_address ''224.0.0.1'' False
     \<and> \<not> is_public_address ''255.255.255.255'' False \<and> \<not> is_public_address ''192.0.2.1'' False
     \<and> \<not> is_public_address ''198.18.0.1'' False \<and> \<not> is_public_address ''198.51.100.1'' False
     \<and> \<not> is_public_address ''203.0.113.1'' False"

definition loopback_default_vs_allowed :: bool where
  "loopback_default_vs_allowed \<longleftrightarrow> \<not> is_public_address ''127.0.0.1'' False \<and> is_public_address ''127.0.0.1'' True
     \<and> \<not> is_public_address ''::1'' False \<and> is_public_address ''::1'' True"

definition accepts_public_ipv6 :: bool where
  "accepts_public_ipv6 \<longleftrightarrow> is_public_address ''2606:4700:4700::1111'' False"

definition rejects_ula_and_multicast_ipv6 :: bool where
  "rejects_ula_and_multicast_ipv6 \<longleftrightarrow> \<not> is_public_address ''fd00::1'' False \<and> \<not> is_public_address ''fe80::1'' False
     \<and> \<not> is_public_address ''ff02::1'' False \<and> \<not> is_public_address ''::'' False"

definition rejects_ipv4_mapped_private_v6 :: bool where
  "rejects_ipv4_mapped_private_v6 \<longleftrightarrow> \<not> is_public_address ''::ffff:10.0.0.1'' False
     \<and> \<not> is_public_address ''::ffff:127.0.0.1'' False
     \<and> \<not> is_public_address ''0:0:0:0:0:ffff:0a00:0001'' False"

definition rejects_ipv4_compatible_private_v6 :: bool where
  "rejects_ipv4_compatible_private_v6 \<longleftrightarrow> \<not> is_public_address ''::10.0.0.1'' False
     \<and> \<not> is_public_address ''::169.254.169.254'' False \<and> \<not> is_public_address ''::127.0.0.1'' False
     \<and> is_public_address ''::8.8.8.8'' False"

definition rejects_6to4_embedding_private_v4 :: bool where
  "rejects_6to4_embedding_private_v4 \<longleftrightarrow> \<not> is_public_address ''2002:0a00:0001::'' False"

definition rejects_nat64_embedding_private_v4 :: bool where
  "rejects_nat64_embedding_private_v4 \<longleftrightarrow> \<not> is_public_address ''64:ff9b::0a00:0001'' False"

definition v6_from_octets :: "u8 list \<Rightarrow> string" where
  "v6_from_octets os = show_v6 (segments_of_octets os)"

definition rejects_nat64_well_known_various_private_v4 :: bool where
  "rejects_nat64_well_known_various_private_v4 \<longleftrightarrow> \<not> is_public_address ''64:ff9b::7f00:0001'' False
     \<and> \<not> is_public_address ''64:ff9b::a9fe:a9fe'' False \<and> \<not> is_public_address ''64:ff9b::0a00:0001'' False"

definition accepts_nat64_well_known_embedding_public_v4 :: bool where
  "accepts_nat64_well_known_embedding_public_v4 \<longleftrightarrow> is_public_address ''64:ff9b::0808:0808'' False"

definition accepts_custom_nsp_shaped_ipv6_no_speculative_false_block :: bool where
  "accepts_custom_nsp_shaped_ipv6_no_speculative_false_block \<longleftrightarrow>
     (let zeros = replicate 16 0;
          o32 = [0x20, 0x01, 0x0d, 0xb8] @ [0x0a, 0x00, 0x00, 0x01] @ drop 8 zeros;
          o64 = [0x20, 0x01, 0x0d, 0xb8, 0x00, 0x01, 0x00, 0x02] @ [0] @ [0xa9, 0xfe, 0xa9, 0xfe] @ drop 13 zeros;
          o48 = ([0x20, 0x01, 0x0d, 0xb8, 0xca, 0xfe] @ drop 6 zeros)[6 := 0x0a, 7 := 0x00, 9 := 0x00, 10 := 0x01];
          olo = [0x20, 0x01, 0x0d, 0xb8, 0xab, 0xcd, 0x00, 0x00] @ [0] @ [0x7f, 0x00, 0x00, 0x01] @ drop 13 zeros
      in list_all (\<lambda>os. is_public_address (v6_from_octets os) False) [o32, o64, o48, olo])"

definition accepts_genuine_public_ipv6_no_nat64_false_block :: bool where
  "accepts_genuine_public_ipv6_no_nat64_false_block \<longleftrightarrow> is_public_address ''2606:4700:4700::1111'' False
     \<and> is_public_address ''2001:4860:4860::8888'' False \<and> is_public_address ''2620:fe::fe'' False"

definition accepts_6to4_embedding_public_v4 :: bool where
  "accepts_6to4_embedding_public_v4 \<longleftrightarrow> is_public_address ''2002:0808:0808::'' False"

definition rejects_garbage :: bool where
  "rejects_garbage \<longleftrightarrow> \<not> is_public_address ''not-an-ip'' False \<and> \<not> is_public_address [] False
     \<and> \<not> is_public_address ''999.999.999.999'' False"

definition loopback_address_helper :: bool where
  "loopback_address_helper \<longleftrightarrow> is_loopback_address ''127.0.0.1'' \<and> is_loopback_address ''127.5.6.7''
     \<and> is_loopback_address ''::1'' \<and> is_loopback_address ''::ffff:127.0.0.1''
     \<and> \<not> is_loopback_address ''10.0.0.1'' \<and> \<not> is_loopback_address ''::ffff:8.8.8.8''"

text \<open>Each of them passes.\<close>

lemma classification_tests [simp]:
  "accepts_public_ipv4" "loopback_default_vs_allowed" "accepts_public_ipv6" "rejects_ula_and_multicast_ipv6"
  "rejects_ipv4_mapped_private_v6" "rejects_ipv4_compatible_private_v6" "rejects_6to4_embedding_private_v4"
  by code_simp+

lemma classification_tests_v4 [simp]: "rejects_private_and_reserved_ipv4"
  by code_simp

lemma classification_tests_nat64 [simp]:
  "rejects_nat64_embedding_private_v4" "rejects_nat64_well_known_various_private_v4"
  "accepts_nat64_well_known_embedding_public_v4" "accepts_genuine_public_ipv6_no_nat64_false_block"
  "accepts_6to4_embedding_public_v4" "rejects_garbage" "loopback_address_helper"
  by code_simp+

lemma is_public_text:
  "length a = 8 \<Longrightarrow> is_public_address_with_nat64 (show_v6 a) al pol = is_public_ipv6 a al pol"
  using parse_ip_addr_Some [OF parse_show_ip [of "IpV6 a"]]
  by (simp add: ip_ok_def is_public_address_with_nat64_def)

lemma octets_classified:
  assumes "length os = 16" "is_public_ipv6 (segments_of_octets os) al strict"
  shows "is_public_address (v6_from_octets os) al"
  using assms
  by (simp add: is_public_address_def v6_from_octets_def is_public_text length_segments_of_octets)

lemma custom_nsp_shaped_test [simp]: "accepts_custom_nsp_shaped_ipv6_no_speculative_false_block"
  unfolding accepts_custom_nsp_shaped_ipv6_no_speculative_false_block_def Let_def list.pred_inject
  by (intro conjI; (rule TrueI | simp; fail | rule octets_classified, simp, code_simp))

subsection \<open>Operator prefixes\<close>

text \<open>\<open>unwrap\<close> in a test: an error or \<open>None\<close> is a panic, which fails the test.\<close>

definition unwrapped :: "'e + 'a \<Rightarrow> ('a \<Rightarrow> bool) \<Rightarrow> bool" where
  "unwrapped r f = (case r of Inr x \<Rightarrow> f x | Inl _ \<Rightarrow> False)"

definition present :: "'a option \<Rightarrow> ('a \<Rightarrow> bool) \<Rightarrow> bool" where
  "present v f = (case v of Some x \<Rightarrow> f x | None \<Rightarrow> False)"

definition test_cidr :: "u8 \<Rightarrow> string" where
  "test_cidr len = ''2001:db8::/'' @ show_nat (unat len)"

definition nsp_parse_accepts_valid_lengths_and_masks_host_bits :: bool where
  "nsp_parse_accepts_valid_lengths_and_masks_host_bits \<longleftrightarrow>
     list_all (\<lambda>len. unwrapped (nsp_parse (test_cidr len)) (\<lambda>_. True)) [32, 40, 48, 56, 64, 96]
     \<and> unwrapped (nsp_parse ''2001:db8::/32'') (\<lambda>a.
         unwrapped (nsp_parse ''2001:db8:dead:beef::/32'') (\<lambda>b. a = b))"

definition nsp_parse_rejects_bad_input :: bool where
  "nsp_parse_rejects_bad_input \<longleftrightarrow>
     list_all (\<lambda>cidr. \<not> unwrapped (nsp_parse cidr) (\<lambda>_. True))
       [''2001:db8::/64x'', ''2001:db8::/33'', ''2001:db8::/128'', ''not-an-ip/32'', ''2001:db8::'', ''10.0.0.0/32'']"

definition policy_from_cidrs_is_all_or_nothing :: bool where
  "policy_from_cidrs_is_all_or_nothing \<longleftrightarrow>
     unwrapped (from_cidrs [''2001:db8::/32'', ''2001:db8:1::/48'']) (\<lambda>_. True)
     \<and> \<not> unwrapped (from_cidrs [''2001:db8::/32'', ''garbage'']) (\<lambda>_. True)
     \<and> unwrapped (from_cidrs []) policy_is_empty"

definition default_off_unchanged_for_nsp_shaped_addresses :: bool where
  "default_off_unchanged_for_nsp_shaped_addresses \<longleftrightarrow>
     present (embed_nat64 ''2001:db8::'' 32 (V4 10 0 0 1)) (\<lambda>private_embed.
       is_public_address private_embed False \<and> is_public_address_with_nat64 private_embed False strict)"

definition configured_nsp_rejects_embedded_private_v4_at_every_length :: bool where
  "configured_nsp_rejects_embedded_private_v4_at_every_length \<longleftrightarrow>
     (let private_v4s = [V4 10 0 0 1, V4 192 168 1 1, V4 169 254 169 254, V4 127 0 0 1, V4 100 64 0 1] in
      list_all (\<lambda>len. unwrapped (from_cidrs [test_cidr len]) (\<lambda>policy.
        list_all (\<lambda>v4. present (embed_nat64 ''2001:db8::'' len v4) (\<lambda>addr.
          \<not> is_public_address_with_nat64 addr False policy)) private_v4s)) [32, 40, 48, 56, 64, 96])"

definition configured_nsp_allows_embedded_public_v4_only_when_configured :: bool where
  "configured_nsp_allows_embedded_public_v4_only_when_configured \<longleftrightarrow>
     present (embed_nat64 ''2001:db8::'' 48 (V4 8 8 8 8)) (\<lambda>public_embed.
     unwrapped (from_cidrs [''2001:db8::/48'']) (\<lambda>policy.
       is_public_address_with_nat64 public_embed False policy \<and> is_public_address public_embed False
       \<and> present (embed_nat64 ''2001:db8::'' 48 (V4 192 168 0 5)) (\<lambda>private_embed.
           is_public_address private_embed False \<and> \<not> is_public_address_with_nat64 private_embed False policy)))"

definition configured_nsp_does_not_affect_addresses_outside_it :: bool where
  "configured_nsp_does_not_affect_addresses_outside_it \<longleftrightarrow>
     unwrapped (from_cidrs [''2001:db8:abcd::/48'']) (\<lambda>policy.
       is_public_address_with_nat64 ''2606:4700:4700::1111'' False policy
       \<and> present (embed_nat64 ''2001:db8:0001::'' 48 (V4 10 0 0 1)) (\<lambda>other.
           is_public_address_with_nat64 other False policy))"

definition well_known_prefix_still_decoded_regardless_of_policy :: bool where
  "well_known_prefix_still_decoded_regardless_of_policy \<longleftrightarrow>
     \<not> is_public_address_with_nat64 ''64:ff9b::a00:1'' False strict
     \<and> is_public_address_with_nat64 ''64:ff9b::808:808'' False strict
     \<and> unwrapped (from_cidrs [''2001:db8::/32'']) (\<lambda>unrelated.
         \<not> is_public_address_with_nat64 ''64:ff9b::a9fe:a9fe'' False unrelated)"

definition multiple_nsps_first_match_wins_and_each_is_honoured :: bool where
  "multiple_nsps_first_match_wins_and_each_is_honoured \<longleftrightarrow>
     unwrapped (from_cidrs [''2001:db8:1::/48'', ''2001:db8:2::/48'']) (\<lambda>policy.
       present (embed_nat64 ''2001:db8:1::'' 48 (V4 10 0 0 1)) (\<lambda>a. \<not> is_public_address_with_nat64 a False policy)
       \<and> present (embed_nat64 ''2001:db8:2::'' 48 (V4 192 168 0 1)) (\<lambda>a. \<not> is_public_address_with_nat64 a False policy))"

definition embed_helper_round_trips_via_decoder :: bool where
  "embed_helper_round_trips_via_decoder \<longleftrightarrow>
     list_all (\<lambda>len. present (embed_nat64 ''2001:db8::'' len (V4 192 0 2 33)) (\<lambda>s.
       present (parse_ipv6 s) (\<lambda>addr. unwrapped (nsp_parse (test_cidr len)) (\<lambda>nsp.
         nsp_embedded_v4 nsp addr = Some (V4 192 0 2 33))))) [32, 40, 48, 56, 64, 96]"

text \<open>The texts of the tests, and what the helper makes of them.\<close>

definition db8 :: ipv6 where
  "db8 = [0x2001, 0xdb8, 0, 0, 0, 0, 0, 0]"

lemma length_db8 [simp]: "length db8 = 8"
  by (simp add: db8_def)

lemma test_prefixes:
  "parse_ipv6 ''2001:db8::'' = Some db8" "parse_ipv6 ''2001:db8:0001::'' = Some (db8[2 := 1])"
  "parse_ipv6 ''2001:db8:1::'' = Some (db8[2 := 1])" "parse_ipv6 ''2001:db8:2::'' = Some (db8[2 := 2])"
  by code_simp+

lemma test_cidrs:
  "nsp_parse ''2001:db8::/32'' = nsp_new db8 32" "nsp_parse ''2001:db8:dead:beef::/32'' = nsp_new db8 32"
  "nsp_parse ''2001:db8::/48'' = nsp_new db8 48"
  by code_simp+

lemma test_cidrs_48:
  "nsp_parse ''2001:db8:1::/48'' = nsp_new (db8[2 := 1]) 48"
  "nsp_parse ''2001:db8:2::/48'' = nsp_new (db8[2 := 2]) 48"
  "nsp_parse ''2001:db8:abcd::/48'' = nsp_new (db8[2 := 0xabcd]) 48"
  by code_simp+

lemma nsp_parse_join:
  assumes "CHR ''/'' \<notin> set a" "parse_u8 (trim n) = Some l" "parse_ipv6 (trim a) = Some p"
  shows "nsp_parse (a @ ''/'' @ n) = nsp_new p l"
proof -
  have "split_once (CHR ''/'') (a @ ''/'' @ n) = Some (a, n)"
    using assms(1) by (simp add: split_once_def takeWhile_append dropWhile_append)
  then show ?thesis using assms(2,3) by (simp add: nsp_parse_def)
qed

lemma length_texts:
  "map show_nat [32, 40, 48, 56, 64, 96] = [''32'', ''40'', ''48'', ''56'', ''64'', ''96'']"
  "map trim [''32'', ''40'', ''48'', ''56'', ''64'', ''96''] = [''32'', ''40'', ''48'', ''56'', ''64'', ''96'']"
  "map parse_u8 [''32'', ''40'', ''48'', ''56'', ''64'', ''96''] = map Some [32, 40, 48, 56, 64, 96]"
  by code_simp+

lemma test_lengths: "\<forall>l \<in> set VALID_LENGTHS. parse_u8 (trim (show_nat (unat l))) = Some l"
  using length_texts by (simp add: VALID_LENGTHS_def del: show_nat.simps)

lemma test_cidr_parse:
  assumes "l \<in> set VALID_LENGTHS"
  shows "nsp_parse (test_cidr l) = Inr \<lparr>nsp_masked = mask_segments db8 l, nsp_prefix_len = l\<rparr>"
proof -
  have t: "trim ''2001:db8::'' = ''2001:db8::''" by code_simp
  have c: "test_cidr l = ''2001:db8::'' @ ''/'' @ show_nat (unat l)" by (simp add: test_cidr_def)
  have "nsp_parse (test_cidr l) = nsp_new db8 l"
    unfolding c using assms test_lengths test_prefixes(1) by (intro nsp_parse_join) (simp_all add: t)
  then show ?thesis using assms by (simp add: nsp_new_def)
qed

text \<open>The lists of the tests are the permitted lengths.\<close>

lemma all_lengths: "list_all P [32, 40, 48, 56, 64, 96] \<longleftrightarrow> (\<forall>l \<in> set VALID_LENGTHS. P l)"
  by (simp add: VALID_LENGTHS_def)

lemma lengths_valid: "32 \<in> set VALID_LENGTHS" "48 \<in> set VALID_LENGTHS"
  by (simp_all add: VALID_LENGTHS_def)

lemma length_embed: "parse_ipv6 prefix = Some p \<Longrightarrow> l \<in> set VALID_LENGTHS \<Longrightarrow> length (rfc6052_embed l p v) = 8"
  using parse_ipv6_length octets_embed(1) by blast

lemma embedded:
  assumes "parse_ipv6 prefix = Some p" "l \<in> set VALID_LENGTHS"
  shows "embed_nat64 prefix l v = Some (show_v6 (rfc6052_embed l p v))"
    and "parse_ipv6 (show_v6 (rfc6052_embed l p v)) = Some (rfc6052_embed l p v)"
    and "is_public_address_with_nat64 (show_v6 (rfc6052_embed l p v)) al pol
      = is_public_ipv6 (rfc6052_embed l p v) al pol"
  using assms embed_bits_rfc6052 [OF parse_ipv6_length [OF assms(1)]] is_public_text [OF length_embed [OF assms]]
    parse_ip_addr_Some [OF parse_show_ip [of "IpV6 (rfc6052_embed l p v)"]] length_embed [OF assms, of v]
  by (simp_all add: embed_nat64_def ip_ok_def)

lemma nsp_parse_lengths_test [simp]: "nsp_parse_accepts_valid_lengths_and_masks_host_bits"
  unfolding nsp_parse_accepts_valid_lengths_and_masks_host_bits_def all_lengths
  by (simp add: unwrapped_def test_cidr_parse test_cidrs nsp_new_def VALID_LENGTHS_def)

lemma nsp_parse_rejects_test [simp]: "nsp_parse_rejects_bad_input"
  by code_simp

lemma from_cidrs_test [simp]: "policy_from_cidrs_is_all_or_nothing"
proof -
  have "\<exists>e. nsp_parse ''garbage'' = Inl e" by (simp add: nsp_parse_def split_once_def)
  then show ?thesis
    by (auto simp: policy_from_cidrs_is_all_or_nothing_def unwrapped_def from_cidrs_def test_cidrs test_cidrs_48
        nsp_new_def VALID_LENGTHS_def policy_is_empty_def)
qed

lemma embed_round_trip_test [simp]: "embed_helper_round_trips_via_decoder"
  unfolding embed_helper_round_trips_via_decoder_def all_lengths
proof
  fix l assume l: "l \<in> set VALID_LENGTHS"
  let ?nsp = "\<lparr>nsp_masked = mask_segments db8 l, nsp_prefix_len = l\<rparr>"
  have "nsp_embedded_v4 ?nsp (rfc6052_embed l db8 v) = Some v" for v
    using l by (intro nsp_roundtrip) (simp_all add: nsp_new_def)
  then show "present (embed_nat64 ''2001:db8::'' l (V4 192 0 2 33)) (\<lambda>s.
       present (parse_ipv6 s) (\<lambda>addr. unwrapped (nsp_parse (test_cidr l)) (\<lambda>nsp.
         nsp_embedded_v4 nsp addr = Some (V4 192 0 2 33))))"
    by (simp add: present_def unwrapped_def test_cidr_parse [OF l] embedded [OF test_prefixes(1) l])
qed

text \<open>Addresses of 2001:db8::/32 are public unless a configured prefix says otherwise.\<close>

lemma db8_verdict:
  assumes "length a = 8" "a = 0x2001 # 0xdb8 # r"
  shows "is_public_ipv6 a al pol = (case policy_embedded_v4 pol a of Some v \<Rightarrow> is_public_ipv4 v al | None \<Rightarrow> True)"
proof -
  have "transition_v4 a = None" "a \<noteq> LOCALHOST" "a \<noteq> UNSPECIFIED" "list_all (\<lambda>b. \<not> in_block6 a b) refused_blocks6"
    using assms by (auto simp: transition_v4_def in_block6_96 in_block6_first LOCALHOST_def UNSPECIFIED_def
        refused_blocks6_def)
  then show ?thesis by (simp add: is_public_ipv6_classes [OF assms(1)])
qed

lemma embed_db8:
  assumes "l \<in> set VALID_LENGTHS" "p = db8 \<or> p = db8[2 := k]"
  shows "\<exists>a. rfc6052_embed l p v = 0x2001 # 0xdb8 # a"
proof -
  obtain s where "p = [0x2001, 0xdb8, s, 0, 0, 0, 0, 0]" using assms(2) by (auto simp: db8_def)
  then have o: "v6_octets p = [0x20, 0x01, 0x0d, 0xb8, high_byte s, low_byte s, 0, 0, 0, 0, 0, 0, 0, 0, 0, 0]"
    by (simp add: high_byte_def low_byte_def)
  show ?thesis
    using assms(1) unfolding rfc6052_embed_def o Let_def by (cases v) (auto simp: VALID_LENGTHS_def)
qed

lemma embed_db8_plain: "l \<in> set VALID_LENGTHS \<Longrightarrow> transition_v4 (rfc6052_embed l db8 v) = None"
  using embed_db8 [of l db8 0 v] octets_embed(1) [OF length_db8, of l v]
  by (auto simp: transition_v4_def in_block6_96 in_block6_first)

text \<open>Under its own prefix an embedded address is judged by the IPv4 address, under another prefix it is not.\<close>

lemma embed_verdict:
  assumes "parse_ipv6 prefix = Some p" "l \<in> set VALID_LENGTHS" "p = db8 \<or> p = db8[2 := k]"
  shows "is_public_address_with_nat64 (show_v6 (rfc6052_embed l p v)) al pol =
       (case policy_embedded_v4 pol (rfc6052_embed l p v) of Some v \<Rightarrow> is_public_ipv4 v al | None \<Rightarrow> True)"
proof -
  obtain r where r: "rfc6052_embed l p v = 0x2001 # 0xdb8 # r" using embed_db8 [OF assms(2,3)] by blast
  show ?thesis
    unfolding embedded(3) [OF assms(1,2)] by (rule db8_verdict [OF length_embed [OF assms(1,2)] r])
qed

lemmas plain_verdict = embed_verdict [OF test_prefixes(1) _ disjI1 [OF refl]]
lemmas verdicts_48 = plain_verdict [OF lengths_valid(2)] embed_verdict [OF test_prefixes(2) lengths_valid(2) disjI2 [OF refl]]
  embed_verdict [OF test_prefixes(4) lengths_valid(2) disjI2 [OF refl]]
lemmas embeds_48 = embedded(1) [OF test_prefixes(1) lengths_valid(2)] embedded(1) [OF test_prefixes(2) lengths_valid(2)]
  embedded(1) [OF test_prefixes(3) lengths_valid(2)] embedded(1) [OF test_prefixes(4) lengths_valid(2)]

lemma default_off_test [simp]: "default_off_unchanged_for_nsp_shaped_addresses"
  by (simp add: default_off_unchanged_for_nsp_shaped_addresses_def present_def is_public_address_def
      embedded(1) [OF test_prefixes(1) lengths_valid(1)] plain_verdict [OF lengths_valid(1)])

lemma test_v4s_private:
  "list_all (\<lambda>v. \<not> is_public_ipv4 v False)
     [V4 10 0 0 1, V4 192 168 1 1, V4 169 254 169 254, V4 127 0 0 1, V4 100 64 0 1]"
  by code_simp

lemma private_embeds_test [simp]: "configured_nsp_rejects_embedded_private_v4_at_every_length"
  unfolding configured_nsp_rejects_embedded_private_v4_at_every_length_def all_lengths Let_def
proof
  fix l assume l: "l \<in> set VALID_LENGTHS"
  let ?nsp = "\<lparr>nsp_masked = mask_segments db8 l, nsp_prefix_len = l\<rparr>"
  have p: "from_cidrs [test_cidr l] = Inr (with_nsps [?nsp])"
    by (simp add: from_cidrs_def test_cidr_parse [OF l] with_nsps_def)
  have "present (embed_nat64 ''2001:db8::'' l v) (\<lambda>addr. \<not> is_public_address_with_nat64 addr False (with_nsps [?nsp]))"
    if "v \<in> set [V4 10 0 0 1, V4 192 168 1 1, V4 169 254 169 254, V4 127 0 0 1, V4 100 64 0 1]" for v
  proof -
    have "\<not> is_public_ipv6 (rfc6052_embed l db8 v) False (with_nsps [?nsp])"
      using l that test_v4s_private unfolding list_all_iff
      by (intro embedded_private_refused length_db8 embed_db8_plain) (simp add: nsp_new_def, assumption, blast)
    then show ?thesis by (simp add: present_def embedded [OF test_prefixes(1) l])
  qed
  then show "unwrapped (from_cidrs [test_cidr l]) (\<lambda>policy.
      list_all (\<lambda>v4. present (embed_nat64 ''2001:db8::'' l v4) (\<lambda>addr.
        \<not> is_public_address_with_nat64 addr False policy))
      [V4 10 0 0 1, V4 192 168 1 1, V4 169 254 169 254, V4 127 0 0 1, V4 100 64 0 1])"
    unfolding p unwrapped_def list_all_iff by simp
qed

definition nsp_of :: "ipv6 \<Rightarrow> nat64_nsp" where
  "nsp_of p = \<lparr>nsp_masked = mask_segments p 48, nsp_prefix_len = 48\<rparr>"

lemma nsp_of_parsed: "nsp_new p 48 = Inr (nsp_of p)"
  by (simp add: nsp_new_def nsp_of_def VALID_LENGTHS_def)

lemma own_prefix: "length p = 8 \<Longrightarrow> nsp_embedded_v4 (nsp_of p) (rfc6052_embed 48 p v) = Some v"
  by (rule nsp_roundtrip [OF _ nsp_of_parsed])

lemma other_prefix:
  "nsp_embedded_v4 (nsp_of (db8[2 := 0xabcd])) (rfc6052_embed 48 (db8[2 := 1]) (V4 10 0 0 1)) = None"
  "nsp_embedded_v4 (nsp_of (db8[2 := 1])) (rfc6052_embed 48 (db8[2 := 2]) (V4 192 168 0 1)) = None"
  by code_simp+

lemma policies_48:
  "from_cidrs [''2001:db8::/48''] = Inr \<lparr>nsps = [nsp_of db8]\<rparr>"
  "from_cidrs [''2001:db8:abcd::/48''] = Inr \<lparr>nsps = [nsp_of (db8[2 := 0xabcd])]\<rparr>"
  "from_cidrs [''2001:db8:1::/48'', ''2001:db8:2::/48''] = Inr \<lparr>nsps = [nsp_of (db8[2 := 1]), nsp_of (db8[2 := 2])]\<rparr>"
  by (simp_all add: from_cidrs_def test_cidrs test_cidrs_48 nsp_of_parsed)

lemma public_and_private:
  "is_public_ipv4 (V4 8 8 8 8) False" "\<not> is_public_ipv4 (V4 192 168 0 5) False"
  "\<not> is_public_ipv4 (V4 10 0 0 1) False" "\<not> is_public_ipv4 (V4 192 168 0 1) False"
  by simp_all

lemma only_when_configured_test [simp]: "configured_nsp_allows_embedded_public_v4_only_when_configured"
  by (simp add: configured_nsp_allows_embedded_public_v4_only_when_configured_def present_def unwrapped_def
      policies_48 embeds_48 verdicts_48 is_public_address_def policy_embedded_v4_def own_prefix
      del: is_public_ipv4.simps) (simp add: public_and_private strict_def)

lemma outside_test [simp]: "configured_nsp_does_not_affect_addresses_outside_it"
proof -
  have "is_public_address_with_nat64 ''2606:4700:4700::1111'' False \<lparr>nsps = [nsp_of (db8[2 := 0xabcd])]\<rparr>"
    by code_simp
  then show ?thesis
    by (simp add: configured_nsp_does_not_affect_addresses_outside_it_def present_def unwrapped_def policies_48
        embeds_48 verdicts_48 policy_embedded_v4_def other_prefix)
qed

lemma multiple_test [simp]: "multiple_nsps_first_match_wins_and_each_is_honoured"
  by (simp add: multiple_nsps_first_match_wins_and_each_is_honoured_def present_def unwrapped_def policies_48
      embeds_48 verdicts_48 policy_embedded_v4_def own_prefix other_prefix del: is_public_ipv4.simps)
    (simp add: public_and_private)

lemma well_known_test [simp]: "well_known_prefix_still_decoded_regardless_of_policy"
proof -
  have "\<not> is_public_address_with_nat64 ''64:ff9b::a9fe:a9fe'' False
      \<lparr>nsps = [\<lparr>nsp_masked = mask_segments db8 32, nsp_prefix_len = 32\<rparr>]\<rparr>"
    "\<not> is_public_address_with_nat64 ''64:ff9b::a00:1'' False strict"
    "is_public_address_with_nat64 ''64:ff9b::808:808'' False strict"
    by code_simp+
  then show ?thesis
    by (simp add: well_known_prefix_still_decoded_regardless_of_policy_def unwrapped_def from_cidrs_def test_cidrs
        nsp_new_def VALID_LENGTHS_def)
qed

end
