(* ===== verification/Locking.thy ===== *)
theory Locking
  imports Replay
begin

section \<open>The mutex of the replay store\<close>

text \<open>
  \<open>mark\<close> and \<open>contains\<close> are modelled as atomic functions of a clock reading. In the source they are
  not: each takes the mutex, then samples the clock, then reads or updates the map, and other threads
  and the clock go on in between. Here the methods are taken in these steps, by any number of threads
  under any schedule, and shown to be linearizable: the calls have taken effect one after the other, at
  the instants their clock was sampled, with the results of the atomic functions. That the clock is
  sampled with the lock held is what makes the instants increase along this order, which every theorem
  about histories of the store relies on.
\<close>

subsection \<open>The methods in steps\<close>

datatype store_op = Op_mark string nat | Op_contains string

datatype store_result = Mark_result "(string, mark_result) outcome" | Contains_result "(string, bool) outcome"

definition run_op :: "store_op \<Rightarrow> nat \<Rightarrow> mem_store \<Rightarrow> store_result \<times> mem_store" where
  "run_op op now s =
     (case op of
        Op_mark jti ttl \<Rightarrow> (case mark now jti ttl s of (r, s') \<Rightarrow> (Mark_result r, s'))
      | Op_contains jti \<Rightarrow> (case contains now jti s of (r, s') \<Rightarrow> (Contains_result r, s')))"

text \<open>A call with the instant it was made: waiting for the lock, holding it, holding it with a clock sample.\<close>

datatype phase = Idle | Wants store_op nat | Holds store_op nat | Sampled store_op nat nat

type_synonym store_event = "nat \<times> nat \<times> store_op \<times> store_result"

record lock_world =
  lw_now :: nat
  lw_store :: mem_store
  lw_holder :: "nat option"
  lw_phase :: "nat \<Rightarrow> phase"
  lw_log :: "store_event list"

definition lock_start :: "nat \<Rightarrow> nat \<Rightarrow> lock_world" where
  "lock_start now max_entries =
     \<lparr>lw_now = now, lw_store = with_clock max_entries, lw_holder = None, lw_phase = (\<lambda>_. Idle), lw_log = []\<rparr>"

datatype lock_move = Tick nat | Call nat store_op | Go nat

text \<open>
  \<open>take_effect\<close>: the body of the method on the sampled instant, the result and the release of the
  guard. A poisoned mutex answers at once: \<open>lock()\<close> is the error and no clock is sampled.
\<close>

definition take_effect :: "nat \<Rightarrow> store_op \<Rightarrow> nat \<Rightarrow> nat \<Rightarrow> lock_world \<Rightarrow> lock_world" where
  "take_effect i op called t w =
     (case run_op op t (lw_store w) of (r, s) \<Rightarrow>
        w\<lparr>lw_store := s, lw_holder := None, lw_phase := (lw_phase w)(i := Idle),
          lw_log := lw_log w @ [(called, t, op, r)]\<rparr>)"

fun lock_turn :: "lock_move \<Rightarrow> lock_world \<Rightarrow> lock_world" where
  "lock_turn (Tick d) w = w\<lparr>lw_now := lw_now w + d\<rparr>"
| "lock_turn (Call i op) w =
     (if lw_phase w i = Idle then w\<lparr>lw_phase := (lw_phase w)(i := Wants op (lw_now w))\<rparr> else w)"
| "lock_turn (Go i) w =
     (case lw_phase w i of
        Idle \<Rightarrow> w
      | Wants op called \<Rightarrow>
          (if lw_holder w \<noteq> None then w
           else if ms_poisoned (lw_store w) then take_effect i op called (lw_now w) w
           else w\<lparr>lw_holder := Some i, lw_phase := (lw_phase w)(i := Holds op called)\<rparr>)
      | Holds op called \<Rightarrow> w\<lparr>lw_phase := (lw_phase w)(i := Sampled op called (lw_now w))\<rparr>
      | Sampled op called t \<Rightarrow> take_effect i op called t w)"

subsection \<open>Sequential histories\<close>

fun sequential :: "mem_store \<Rightarrow> store_event list \<Rightarrow> mem_store \<Rightarrow> bool" where
  "sequential s [] s' \<longleftrightarrow> s = s'"
| "sequential s ((called, t, op, r) # l) s' \<longleftrightarrow>
     (case run_op op t s of (r', s1) \<Rightarrow> r = r' \<and> sequential s1 l s')"

definition event_time :: "store_event \<Rightarrow> nat" where
  "event_time e = fst (snd e)"

lemma sequential_snoc:
  "sequential s (l @ [(called, t, op, r)]) s' \<longleftrightarrow> (\<exists>s1. sequential s l s1 \<and> run_op op t s1 = (r, s'))"
  by (induction s l s' rule: sequential.induct) (auto split: prod.splits)

text \<open>The marks of a sequential history with increasing instants are a history of the atomic store.\<close>

fun mark_events :: "store_event list \<Rightarrow> mark_event list" where
  "mark_events [] = []"
| "mark_events ((called, t, Op_mark jti ttl, Mark_result r) # l) = mark_events l @ [(t, jti, ttl, r)]"
| "mark_events (_ # l) = mark_events l"

lemma mark_events_snoc:
  "mark_events (l @ [e]) = mark_events [e] @ mark_events l"
  by (induction l rule: mark_events.induct) auto

lemma sequential_history:
  assumes "sequential s0 l s" "sorted (map event_time l)" "\<forall>e \<in> set l. event_time e \<le> now"
  shows "store_history mark contains s0 s now (mark_events l)"
  using assms
proof (induction l arbitrary: s now rule: rev_induct)
  case Nil
  then show ?case by (simp add: store_history.start)
next
  case (snoc e l)
  obtain called t op r where e: "e = (called, t, op, r)" by (cases e)
  obtain s1 where s1: "sequential s0 l s1" "run_op op t s1 = (r, s)"
    using snoc.prems(1) unfolding e sequential_snoc by blast
  have "store_history mark contains s0 s1 t (mark_events l)"
    using snoc.prems(2) by (intro snoc.IH s1(1)) (auto simp: sorted_append e event_time_def)
  moreover have "t \<le> now" using snoc.prems(3) by (simp add: e event_time_def)
  ultimately have "store_history mark contains s0 s t (mark_events (l @ [e]))"
    using s1(2) unfolding mark_events_snoc e
    by (cases op) (auto simp: run_op_def split: prod.splits
        intro: store_history.mark_call store_history.contains_call)
  then show ?case using \<open>t \<le> now\<close> by (rule store_history.tick)
qed

subsection \<open>Every schedule is linearizable\<close>

definition phase_ok :: "lock_world \<Rightarrow> nat \<Rightarrow> bool" where
  "phase_ok w i =
     (case lw_phase w i of
        Idle \<Rightarrow> lw_holder w \<noteq> Some i
      | Wants op called \<Rightarrow> called \<le> lw_now w \<and> lw_holder w \<noteq> Some i
      | Holds op called \<Rightarrow> called \<le> lw_now w \<and> lw_holder w = Some i
      | Sampled op called t \<Rightarrow> called \<le> t \<and> t \<le> lw_now w \<and> lw_holder w = Some i
          \<and> (\<forall>e \<in> set (lw_log w). event_time e \<le> t))"

definition linear :: "nat \<Rightarrow> lock_world \<Rightarrow> bool" where
  "linear n w \<longleftrightarrow>
     sequential (with_clock n) (lw_log w) (lw_store w) \<and> sorted (map event_time (lw_log w))
     \<and> (\<forall>(called, t, op, r) \<in> set (lw_log w). called \<le> t \<and> t \<le> lw_now w)"

definition lock_inv :: "nat \<Rightarrow> lock_world \<Rightarrow> bool" where
  "lock_inv n w \<longleftrightarrow> linear n w \<and> (\<forall>i. phase_ok w i)"

lemma linear_times: "linear n w \<Longrightarrow> e \<in> set (lw_log w) \<Longrightarrow> event_time e \<le> lw_now w"
  by (auto simp: linear_def event_time_def)

lemma take_effect_inv:
  assumes "lock_inv n w" "called \<le> t" "t \<le> lw_now w" "\<forall>e \<in> set (lw_log w). event_time e \<le> t"
    and h: "\<forall>j. lw_holder w = Some j \<longrightarrow> j = i"
  shows "lock_inv n (take_effect i op called t w)"
proof -
  obtain r s where r: "run_op op t (lw_store w) = (r, s)" by fastforce
  have "linear n (take_effect i op called t w)"
    using assms r by (auto simp: lock_inv_def linear_def take_effect_def sequential_snoc sorted_append
        event_time_def)
  moreover have "phase_ok (take_effect i op called t w) j" for j
  proof (cases "j = i")
    case False
    have "phase_ok w j" using assms(1) by (simp add: lock_inv_def)
    then show ?thesis using False h r
      by (auto simp: phase_ok_def take_effect_def split: phase.splits)
  qed (simp add: phase_ok_def take_effect_def r)
  ultimately show ?thesis by (simp add: lock_inv_def)
qed

lemma lock_turn_inv:
  assumes "lock_inv n w"
  shows "lock_inv n (lock_turn m w)"
proof (cases m)
  case (Tick d)
  then show ?thesis
    using assms by (fastforce simp: lock_inv_def linear_def phase_ok_def split: phase.splits)
next
  case (Call i op)
  then show ?thesis
    using assms by (fastforce simp: lock_inv_def linear_def phase_ok_def split: phase.splits)
next
  case (Go i)
  have i: "phase_ok w i" and all: "\<And>j. phase_ok w j" and l: "linear n w"
    using assms by (simp_all add: lock_inv_def)
  show ?thesis
  proof (cases "lw_phase w i")
    case Idle
    then show ?thesis using assms Go by simp
  next
    case (Wants op called)
    show ?thesis
    proof (cases "lw_holder w")
      case None
      show ?thesis
      proof (cases "ms_poisoned (lw_store w)")
        case True
        then show ?thesis
          using take_effect_inv [OF assms, of called "lw_now w" i op] linear_times [OF l] i Wants None Go
          by (simp add: phase_ok_def)
      next
        case False
        have "phase_ok (lock_turn m w) j" for j
          using all [of j] i Wants None Go False by (auto simp: phase_ok_def split: phase.splits)
        then show ?thesis using l Wants None Go False by (simp add: lock_inv_def linear_def)
      qed
    qed (use assms Go Wants in simp)
  next
    case (Holds op called)
    have "phase_ok (lock_turn m w) j" for j
      using all [of j] i Holds Go linear_times [OF l] by (auto simp: phase_ok_def split: phase.splits)
    then show ?thesis using l Holds Go by (simp add: lock_inv_def linear_def)
  next
    case (Sampled op called t)
    then show ?thesis
      using take_effect_inv [OF assms, of called t i op] i Go by (simp add: phase_ok_def)
  qed
qed

lemma schedule_inv: "lock_inv n (fold lock_turn moves (lock_start now n))"
proof -
  have "lock_inv n w \<Longrightarrow> lock_inv n (fold lock_turn moves w)" for w
    by (induction moves arbitrary: w) (auto intro: lock_turn_inv)
  moreover have "lock_inv n (lock_start now n)"
    by (simp add: lock_inv_def linear_def phase_ok_def lock_start_def)
  ultimately show ?thesis by blast
qed

text \<open>C11: The replay store is linearizable. Under any schedule of any number of threads calling \<open>mark\<close>
  and \<open>contains\<close>, each in its steps of taking the lock, sampling the clock and acting, and whatever time
  passes between the steps, the finished calls are a sequential history of the atomic operations: every
  result is that of the atomic operation on the store left by the previous one, the instants increase
  along it, and each lies between its call and now. The atomic store's history theorems therefore hold of
  the concurrent store.\<close>

theorem replay_store_linearizable:
  "let w = fold lock_turn moves (lock_start now n) in
   linear n w \<and> store_history mark contains (with_clock n) (lw_store w) (lw_now w) (mark_events (lw_log w))"
proof -
  let ?w = "fold lock_turn moves (lock_start now n)"
  have "linear n ?w" using schedule_inv [of n moves now] by (simp add: lock_inv_def)
  moreover from this have
    "store_history mark contains (with_clock n) (lw_store ?w) (lw_now ?w) (mark_events (lw_log ?w))"
    using linear_times by (intro sequential_history) (auto simp: linear_def)
  ultimately show ?thesis by simp
qed

text \<open>
  Without poison a thread whose turn comes is never stuck: whoever holds the lock finishes in two of its
  own turns, and then the lock is free.
\<close>

lemma holder_releases:
  assumes "lock_inv n w" "lw_holder w = Some i"
  shows "lw_holder (lock_turn (Go i) (lock_turn (Go i) w)) = None"
proof -
  have "phase_ok w i" using assms(1) by (simp add: lock_inv_def)
  then show ?thesis
    using assms(2) by (auto simp: phase_ok_def take_effect_def split: phase.splits prod.splits)
qed

end
