(* ===== verification/Tests_Replay.thy ===== *)
theory Tests_Replay
  imports Locking
begin

section \<open>The unit tests of \<open>replay.rs\<close>\<close>

text \<open>
  The tests of the replay store as predicates. A test is a script of calls with the answers it asserts;
  between them time passes, by \<open>advance\<close> where the test drives a fake clock and by arbitrary delays where
  it uses the real one, so that those tests are proved for every speed of the machine that stays within
  the window. The base is the arbitrary instant the clock starts from.
\<close>

subsection \<open>Scripts\<close>

datatype script_step =
    Mark_is string nat mark_result
  | Mark_fails string nat
  | Contains_is string bool
  | Advance_by nat

fun script_passes :: "nat \<Rightarrow> mem_store \<Rightarrow> script_step list \<Rightarrow> bool" where
  "script_passes now s [] = True"
| "script_passes now s (Mark_is jti ttl r # rest) =
     (case mark now jti ttl s of (q, s') \<Rightarrow> q = Ok r \<and> script_passes now s' rest)"
| "script_passes now s (Mark_fails jti ttl # rest) =
     (case mark now jti ttl s of (q, s') \<Rightarrow> (\<exists>e. q = Err e) \<and> script_passes now s' rest)"
| "script_passes now s (Contains_is jti b # rest) =
     (case contains now jti s of (q, s') \<Rightarrow> q = Ok b \<and> script_passes now s' rest)"
| "script_passes now s (Advance_by d # rest) = script_passes (now + d) s rest"

abbreviation secs :: "nat \<Rightarrow> nat" where
  "secs n \<equiv> n * 10 ^ 9"

text \<open>A clock base from which the tests' windows are representable.\<close>

definition base_ok :: "nat \<Rightarrow> bool" where
  "base_ok base \<longleftrightarrow> base + secs 1000 \<le> instant_max"

subsection \<open>The tests\<close>

definition first_mark_is_new_second_is_replay :: "nat \<Rightarrow> nat \<Rightarrow> bool" where
  "first_mark_is_new_second_is_replay base d =
     script_passes base (with_window (secs 305))
       [Mark_is ''jti-1'' (secs 305) New, Advance_by d, Mark_is ''jti-1'' (secs 305) Replay]"

definition distinct_jtis_are_independent :: "nat \<Rightarrow> nat \<Rightarrow> bool" where
  "distinct_jtis_are_independent base d =
     script_passes base (with_window (secs 305))
       [Mark_is ''a'' (secs 305) New, Advance_by d, Mark_is ''b'' (secs 305) New]"

definition expired_jti_is_fresh_again :: "nat \<Rightarrow> bool" where
  "expired_jti_is_fresh_again base =
     script_passes base (with_clock 100000)
       [Mark_is ''e'' (secs 20) New, Advance_by (secs 60), Mark_is ''e'' (secs 20) New]"

definition jti_remembered_for_the_full_ttl_window :: "nat \<Rightarrow> bool" where
  "jti_remembered_for_the_full_ttl_window base =
     script_passes base (with_clock 100000)
       [Mark_is ''f'' (secs 100) New, Advance_by (secs 99), Mark_is ''f'' (secs 100) Replay,
        Advance_by (secs 2), Mark_is ''f'' (secs 100) New]"

definition fake_clock_drives_expiry_exactly_at_the_boundary :: "nat \<Rightarrow> bool" where
  "fake_clock_drives_expiry_exactly_at_the_boundary base =
     script_passes base (with_clock 100000)
       [Mark_is ''b'' (secs 60) New, Advance_by (secs 60 - 1), Mark_is ''b'' (secs 60) Replay,
        Advance_by 2, Mark_is ''b'' (secs 60) New]"

definition nonpositive_ttl_is_fresh_not_stored :: "nat \<Rightarrow> nat \<Rightarrow> bool" where
  "nonpositive_ttl_is_fresh_not_stored base d =
     script_passes base (with_window (secs 305)) [Mark_is ''z'' 0 New, Advance_by d, Mark_is ''z'' 0 New]"

definition fails_closed_at_capacity_never_evicts_live_jti :: "nat \<Rightarrow> nat \<Rightarrow> nat \<Rightarrow> nat \<Rightarrow> bool" where
  "fails_closed_at_capacity_never_evicts_live_jti base d1 d2 d3 =
     script_passes base (new_store 2 (secs 305))
       [Mark_is ''a'' (secs 305) New, Advance_by d1, Mark_is ''b'' (secs 305) New, Advance_by d2,
        Mark_fails ''c'' (secs 305), Advance_by d3, Mark_is ''a'' (secs 305) Replay]"

definition capacity_prune_frees_expired_entries :: "nat \<Rightarrow> bool" where
  "capacity_prune_frees_expired_entries base =
     script_passes base (with_clock 2)
       [Mark_is ''a'' (secs 20) New, Mark_is ''b'' (secs 20) New, Advance_by (secs 60), Mark_is ''c'' (secs 20) New]"

definition contains_is_false_for_unseen_jti :: "nat \<Rightarrow> bool" where
  "contains_is_false_for_unseen_jti base =
     script_passes base (with_window (secs 305)) [Contains_is ''never-seen'' False]"

definition contains_is_true_after_mark :: "nat \<Rightarrow> nat \<Rightarrow> bool" where
  "contains_is_true_after_mark base d =
     script_passes base (with_window (secs 305))
       [Mark_is ''seen'' (secs 305) New, Advance_by d, Contains_is ''seen'' True]"

definition contains_is_false_after_expiry :: "nat \<Rightarrow> bool" where
  "contains_is_false_after_expiry base =
     script_passes base (with_clock 100000)
       [Mark_is ''g'' (secs 20) New, Contains_is ''g'' True, Advance_by (secs 60), Contains_is ''g'' False]"

definition contains_does_not_mark_so_next_mark_is_new :: "nat \<Rightarrow> nat \<Rightarrow> bool" where
  "contains_does_not_mark_so_next_mark_is_new base d =
     script_passes base (with_window (secs 305))
       [Contains_is ''probe-then-mark'' False, Contains_is ''probe-then-mark'' False,
        Contains_is ''probe-then-mark'' False, Mark_is ''probe-then-mark'' (secs 305) New, Advance_by d,
        Contains_is ''probe-then-mark'' True]"

definition contains_then_mark_pre_check_optimization_flow :: "nat \<Rightarrow> nat \<Rightarrow> nat \<Rightarrow> bool" where
  "contains_then_mark_pre_check_optimization_flow base d1 d2 =
     script_passes base (with_window (secs 305))
       [Contains_is ''flow'' False, Mark_is ''flow'' (secs 305) New, Advance_by d1,
        Contains_is ''flow'' True, Advance_by d2, Mark_is ''flow'' (secs 305) Replay]"

lemmas script_simps = mark_def contains_def with_window_def new_store_def with_clock_def cap_def usize_max_def
  prune_expired_def base_ok_def instant_max_def

lemma driven_tests:
  assumes "base_ok base"
  shows "expired_jti_is_fresh_again base" "jti_remembered_for_the_full_ttl_window base"
    "fake_clock_drives_expiry_exactly_at_the_boundary base" "capacity_prune_frees_expired_entries base"
    "contains_is_false_for_unseen_jti base" "contains_is_false_after_expiry base"
  using assms
  by (simp_all add: script_simps expired_jti_is_fresh_again_def jti_remembered_for_the_full_ttl_window_def
      fake_clock_drives_expiry_exactly_at_the_boundary_def capacity_prune_frees_expired_entries_def
      contains_is_false_for_unseen_jti_def contains_is_false_after_expiry_def)

lemma real_clock_tests:
  assumes "base_ok base" "d + d' + d'' < secs 305"
  shows "first_mark_is_new_second_is_replay base d" "distinct_jtis_are_independent base d"
    "nonpositive_ttl_is_fresh_not_stored base d" "contains_is_true_after_mark base d"
    "contains_does_not_mark_so_next_mark_is_new base d"
    "contains_then_mark_pre_check_optimization_flow base d d'"
    "fails_closed_at_capacity_never_evicts_live_jti base d d' d''"
  using assms
  by (simp_all add: script_simps first_mark_is_new_second_is_replay_def distinct_jtis_are_independent_def
      nonpositive_ttl_is_fresh_not_stored_def contains_is_true_after_mark_def
      contains_does_not_mark_so_next_mark_is_new_def contains_then_mark_pre_check_optimization_flow_def
      fails_closed_at_capacity_never_evicts_live_jti_def)

subsection \<open>The threaded tests\<close>

text \<open>
  Sixteen threads race on one \<open>jti\<close>, marking it or probing and marking it; here any number of threads
  under any schedule of the steps of \<open>Locking\<close>.
\<close>

definition news :: "store_event list \<Rightarrow> nat" where
  "news l = length (filter (\<lambda>(called, t, op, r). r = Mark_result (Ok New)) l)"

definition concurrent_same_jti_only_one_is_new :: "nat \<Rightarrow> lock_move list \<Rightarrow> bool" where
  "concurrent_same_jti_only_one_is_new base moves \<longleftrightarrow>
     news (lw_log (fold lock_turn moves (lock_start base 100000))) = 1"

definition concurrent_contains_and_mark_are_consistent :: "nat \<Rightarrow> lock_move list \<Rightarrow> bool" where
  "concurrent_contains_and_mark_are_consistent base moves \<longleftrightarrow>
     (let w = fold lock_turn moves (lock_start base 100000) in
      news (lw_log w) = 1 \<and> fst (contains (lw_now w) ''c-race'' (lw_store w)) = Ok True)"

definition about :: "string \<Rightarrow> nat \<Rightarrow> store_op \<Rightarrow> bool" where
  "about jti ttl op \<longleftrightarrow> op = Op_mark jti ttl \<or> op = Op_contains jti"

fun move_about :: "string \<Rightarrow> nat \<Rightarrow> lock_move \<Rightarrow> bool" where
  "move_about jti ttl (Call i op) = about jti ttl op"
| "move_about jti ttl _ = True"

text \<open>Only these operations, and none before the clock's base.\<close>

definition racing :: "string \<Rightarrow> nat \<Rightarrow> nat \<Rightarrow> lock_world \<Rightarrow> bool" where
  "racing jti ttl base w \<longleftrightarrow> base \<le> lw_now w
     \<and> (\<forall>e \<in> set (lw_log w). base \<le> event_time e \<and> about jti ttl (fst (snd (snd e))))
     \<and> (\<forall>i. case lw_phase w i of
          Idle \<Rightarrow> True | Wants op c \<Rightarrow> about jti ttl op | Holds op c \<Rightarrow> about jti ttl op
        | Sampled op c t \<Rightarrow> about jti ttl op \<and> base \<le> t)"

lemma racing_effect:
  "racing jti ttl base w \<Longrightarrow> about jti ttl op \<Longrightarrow> base \<le> t \<Longrightarrow> racing jti ttl base (take_effect i op c t w)"
  by (auto simp: racing_def take_effect_def event_time_def split: prod.splits)

lemma racing_turn:
  assumes "racing jti ttl base w" "move_about jti ttl m"
  shows "racing jti ttl base (lock_turn m w)"
proof (cases m)
  case (Tick d)
  then show ?thesis using assms by (auto simp: racing_def)
next
  case (Call i op)
  then show ?thesis using assms by (auto simp: racing_def)
next
  case (Go i)
  have i: "case lw_phase w i of
          Idle \<Rightarrow> True | Wants op c \<Rightarrow> about jti ttl op | Holds op c \<Rightarrow> about jti ttl op
        | Sampled op c t \<Rightarrow> about jti ttl op \<and> base \<le> t" and b: "base \<le> lw_now w"
    using assms(1) by (auto simp: racing_def)
  show ?thesis
  proof (cases "lw_phase w i")
    case (Wants op c)
    then show ?thesis
      using assms(1) Go i b racing_effect [OF assms(1), of op "lw_now w" i c] by (auto simp: racing_def)
  next
    case (Holds op c)
    then show ?thesis using assms(1) Go i b by (auto simp: racing_def)
  qed (use assms(1) Go i racing_effect in auto)
qed

lemma racing_schedule:
  assumes "list_all (move_about jti ttl) moves"
  shows "racing jti ttl base (fold lock_turn moves (lock_start base n))"
proof -
  have "racing jti ttl base w \<Longrightarrow> racing jti ttl base (fold lock_turn moves w)" for w
    using assms by (induction moves arbitrary: w) (auto intro: racing_turn)
  moreover have "racing jti ttl base (lock_start base n)" by (simp add: racing_def lock_start_def)
  ultimately show ?thesis by blast
qed

text \<open>A sequential history of these operations: once the entry is there, nothing changes.\<close>

lemma after_the_winner:
  assumes "ms_entries s = [(jti, expiry)]" "\<not> ms_poisoned s"
    and "\<forall>e \<in> set l. event_time e < expiry \<and> about jti ttl (fst (snd (snd e)))" and "sequential s l s'"
  shows "news l = 0 \<and> s' = s"
  using assms(3,4)
proof (induction l)
  case (Cons e l)
  obtain c t op r where e: "e = (c, t, op, r)" by (cases e)
  have "run_op op t s = (case op of Op_mark _ _ \<Rightarrow> Mark_result (Ok Replay) | Op_contains _ \<Rightarrow> Contains_result (Ok True), s)"
    using assms(1,2) Cons.prems(1) e
    by (auto simp: run_op_def about_def mark_def contains_def event_time_def)
  then show ?case
    using Cons e by (auto simp: news_def split: store_op.splits)
qed (simp add: news_def)

lemma one_winner:
  assumes s: "ms_entries s = []" "\<not> ms_poisoned s" "0 < cap s" and ttl: "0 < ttl"
    and "\<forall>e \<in> set l. base \<le> event_time e \<and> event_time e < base + ttl
      \<and> event_time e + ttl \<le> instant_max \<and> about jti ttl (fst (snd (snd e)))"
    and "sequential s l s'" and "\<exists>e \<in> set l. fst (snd (snd e)) = Op_mark jti ttl"
  shows "news l = 1 \<and> (\<exists>expiry. ms_entries s' = [(jti, expiry)] \<and> base + ttl \<le> expiry) \<and> \<not> ms_poisoned s'"
  using assms(5-7)
proof (induction l)
  case (Cons e l)
  obtain c t op r where e: "e = (c, t, op, r)" by (cases e)
  have t: "base \<le> t" "t + ttl \<le> instant_max" using Cons.prems(1) by (simp_all add: e event_time_def)
  have "op = Op_mark jti ttl \<or> op = Op_contains jti" using Cons.prems(1) by (simp add: e about_def)
  then show ?case
  proof
    assume op: "op = Op_contains jti"
    then have "run_op op t s = (Contains_result (Ok False), s)"
      using s by (simp add: run_op_def contains_def)
    then have "r = Contains_result (Ok False)" "sequential s l s'" using Cons.prems(2) e by auto
    then show ?thesis using Cons e op by (simp add: news_def)
  next
    assume op: "op = Op_mark jti ttl"
    let ?s = "s\<lparr>ms_entries := [(jti, t + ttl)]\<rparr>"
    have "run_op op t s = (Mark_result (Ok New), ?s)"
      using s ttl t by (simp add: op run_op_def mark_def)
    then have "r = Mark_result (Ok New)" "sequential ?s l s'" using Cons.prems(2) e by auto
    moreover have "\<forall>e \<in> set l. event_time e < t + ttl \<and> about jti ttl (fst (snd (snd e)))"
      using Cons.prems(1) t by fastforce
    ultimately have "news l = 0" "s' = ?s" using after_the_winner [of ?s jti "t + ttl" l ttl s'] s(2) by auto
    then show ?thesis using \<open>r = _\<close> e t s(2) by (simp add: news_def)
  qed
qed simp

lemma race_outcome:
  assumes "base_ok base" and "list_all (move_about jti (secs 305)) moves"
    and "w = fold lock_turn moves (lock_start base 100000)" and "lw_now w < base + secs 305"
    and "\<exists>e \<in> set (lw_log w). fst (snd (snd e)) = Op_mark jti (secs 305)"
  shows "news (lw_log w) = 1" "fst (contains (lw_now w) jti (lw_store w)) = Ok True"
proof -
  have l: "linear 100000 w" and r: "racing jti (secs 305) base w"
    using schedule_inv [of 100000 moves base] racing_schedule [OF assms(2)] assms(3)
    by (simp_all add: lock_inv_def)
  have s: "sequential (with_clock 100000) (lw_log w) (lw_store w)" using l by (simp add: linear_def)
  have t: "\<forall>e \<in> set (lw_log w). base \<le> event_time e \<and> event_time e < base + secs 305
      \<and> event_time e + secs 305 \<le> instant_max \<and> about jti (secs 305) (fst (snd (snd e)))"
    using r linear_times [OF l] assms(1,4) unfolding racing_def base_ok_def by fastforce
  have "ms_entries (with_clock 100000) = []" "\<not> ms_poisoned (with_clock 100000)" "0 < cap (with_clock 100000)"
    by (simp_all add: with_clock_def cap_def usize_max_def)
  from one_winner [OF this _ t s assms(5)] obtain expiry where
    "news (lw_log w) = 1" "ms_entries (lw_store w) = [(jti, expiry)]" "base + secs 305 \<le> expiry"
    "\<not> ms_poisoned (lw_store w)" by auto
  then show "news (lw_log w) = 1" "fst (contains (lw_now w) jti (lw_store w)) = Ok True"
    using assms(4) by (simp_all add: contains_def)
qed

lemma threaded_tests:
  assumes "base_ok base" "lw_now (fold lock_turn moves (lock_start base 100000)) < base + secs 305"
  shows "list_all (move_about ''race'' (secs 305)) moves \<Longrightarrow>
      \<exists>e \<in> set (lw_log (fold lock_turn moves (lock_start base 100000))). fst (snd (snd e)) = Op_mark ''race'' (secs 305) \<Longrightarrow>
      concurrent_same_jti_only_one_is_new base moves"
    and "list_all (move_about ''c-race'' (secs 305)) moves \<Longrightarrow>
      \<exists>e \<in> set (lw_log (fold lock_turn moves (lock_start base 100000))). fst (snd (snd e)) = Op_mark ''c-race'' (secs 305) \<Longrightarrow>
      concurrent_contains_and_mark_are_consistent base moves"
  using race_outcome [OF assms(1) _ refl assms(2)]
  by (simp_all add: concurrent_same_jti_only_one_is_new_def concurrent_contains_and_mark_are_consistent_def Let_def)

text \<open>
  The contended probe: thread 0 holds the lock, thread 1 calls \<open>contains\<close> and tries any number of times,
  the clock is advanced past the entry's expiry, the lock is released, and the probe reads false.
\<close>

definition contains_samples_clock_after_lock_so_expiry_under_contention_reads_false :: "nat \<Rightarrow> nat \<Rightarrow> bool" where
  "contains_samples_clock_after_lock_so_expiry_under_contention_reads_false base tries \<longleftrightarrow>
     (let w = fold lock_turn
        ([Call 0 (Op_mark ''contended'' (secs 20)), Go 0, Go 0, Go 0,
          Call 0 (Op_contains ''contended''), Go 0, Go 0, Go 0,
          Call 0 (Op_contains ''other''), Go 0, Call 1 (Op_contains ''contended'')]
         @ replicate tries (Go 1) @ [Tick (secs 60), Go 0, Go 0, Go 1, Go 1, Go 1])
        (lock_start base 100000)
      in map (\<lambda>(called, t, op, r). (op, r)) (lw_log w) =
        [(Op_mark ''contended'' (secs 20), Mark_result (Ok New)),
         (Op_contains ''contended'', Contains_result (Ok True)),
         (Op_contains ''other'', Contains_result (Ok False)),
         (Op_contains ''contended'', Contains_result (Ok False))])"

lemma blocked_tries:
  assumes "lw_phase w 1 = Wants op c" "lw_holder w = Some 0"
  shows "fold lock_turn (replicate n (Go 1)) w = w"
  using assms by (induction n) simp_all

lemma contended_probe_test:
  assumes "base_ok base"
  shows "contains_samples_clock_after_lock_so_expiry_under_contention_reads_false base tries"
proof -
  define before where "before = fold lock_turn
        [Call 0 (Op_mark ''contended'' (secs 20)), Go 0, Go 0, Go 0,
          Call 0 (Op_contains ''contended''), Go 0, Go 0, Go 0,
          Call 0 (Op_contains ''other''), Go 0, Call 1 (Op_contains ''contended'')] (lock_start base 100000)"
  have b: "lw_phase before 1 = Wants (Op_contains ''contended'') base" "lw_phase before 0 = Holds (Op_contains ''other'') base"
      "lw_holder before = Some 0" "lw_now before = base"
      "lw_store before = \<lparr>ms_entries = [(''contended'', base + secs 20)], ms_max_entries = 100000, ms_poisoned = False\<rparr>"
      "map (\<lambda>(called, t, op, r). (op, r)) (lw_log before) =
        [(Op_mark ''contended'' (secs 20), Mark_result (Ok New)), (Op_contains ''contended'', Contains_result (Ok True))]"
    using assms by (simp_all add: before_def lock_start_def take_effect_def run_op_def script_simps)
  have "fold lock_turn (replicate tries (Go 1)) before = before" by (rule blocked_tries [OF b(1,3)])
  then show ?thesis
    unfolding contains_samples_clock_after_lock_so_expiry_under_contention_reads_false_def Let_def fold_append comp_apply
      before_def [symmetric]
    using b by (simp add: take_effect_def run_op_def contains_def)
qed

text \<open>The stub whose backend is always down.\<close>

definition always_err_mark :: "'s mark_op" where
  "always_err_mark now jti ttl s = (Err ''backend down'', s)"

definition always_err_contains :: "'s contains_op" where
  "always_err_contains now jti s = (Err ''backend down'', s)"

definition backend_error_propagates :: bool where
  "backend_error_propagates \<longleftrightarrow> (\<forall>now. \<exists>e. fst (always_err_mark now ''x'' (secs 1) ()) = Err e)"

lemma backend_error_test: backend_error_propagates
  by (simp add: backend_error_propagates_def always_err_mark_def)

end
