(* ===== verification/Tests_Sharing.thy ===== *)
theory Tests_Sharing
  imports Config
begin

section \<open>The shared key sets of \<open>StaticJwksProvider\<close>\<close>

text \<open>
  The static provider keeps each key set behind an \<open>Arc\<close> and hands out clones of it. Elsewhere an \<open>Arc\<close>
  is its value; here it is an address in a heap, for the test that compares pointers. The provider over
  the heap refines the one over values.
\<close>

record arc_heap =
  next_arc :: nat
  cells :: "nat \<rightharpoonup> jwk list"

definition arc_from :: "jwk list \<Rightarrow> arc_heap \<Rightarrow> nat \<times> arc_heap" where
  "arc_from keys h = (next_arc h, \<lparr>next_arc = Suc (next_arc h), cells = (cells h)(next_arc h \<mapsto> keys)\<rparr>)"

text \<open>\<open>Arc::clone\<close> is the same allocation; \<open>Arc::ptr_eq\<close> compares allocations.\<close>

definition arc_clone :: "nat \<Rightarrow> nat" where
  "arc_clone a = a"

definition ptr_eq :: "nat \<Rightarrow> nat \<Rightarrow> bool" where
  "ptr_eq a b \<longleftrightarrow> a = b"

type_synonym shared_provider = "string \<rightharpoonup> nat"

definition shared_with_issuer :: "string \<Rightarrow> jwk list \<Rightarrow> shared_provider \<times> arc_heap \<Rightarrow> shared_provider \<times> arc_heap" where
  "shared_with_issuer issuer keys = (\<lambda>(p, h). case arc_from keys h of (a, h') \<Rightarrow> (p(issuer \<mapsto> a), h'))"

definition shared_keys_for :: "shared_provider \<Rightarrow> string \<Rightarrow> (string, nat) outcome" where
  "shared_keys_for p issuer =
     ok_or (map_option arc_clone (p issuer)) (''no JWKS configured for issuer '' @ issuer)"

subsection \<open>Refinement\<close>

definition heap_ok :: "shared_provider \<times> arc_heap \<Rightarrow> bool" where
  "heap_ok = (\<lambda>(p, h). \<forall>a \<in> ran p. a < next_arc h \<and> a \<in> dom (cells h))"

definition behind :: "shared_provider \<times> arc_heap \<Rightarrow> static_provider" where
  "behind = (\<lambda>(p, h). \<lparr>entries = (\<lambda>issuer. Option.bind (p issuer) (cells h))\<rparr>)"

lemma shared_with_issuer_refines:
  assumes "heap_ok s"
  shows "heap_ok (shared_with_issuer issuer keys s)"
    and "behind (shared_with_issuer issuer keys s) = with_issuer issuer keys (behind s)"
proof -
  obtain p h where s: "s = (p, h)" by fastforce
  have old: "a < next_arc h" "a \<in> dom (cells h)" if "p i = Some a" for i a
    using assms ranI [of p i a] that by (auto simp: heap_ok_def s)
  then show "heap_ok (shared_with_issuer issuer keys s)"
    by (fastforce simp: heap_ok_def s shared_with_issuer_def arc_from_def ran_def split: if_splits)
  show "behind (shared_with_issuer issuer keys s) = with_issuer issuer keys (behind s)"
    using old(1) by (auto simp: behind_def s shared_with_issuer_def arc_from_def with_issuer_def fun_eq_iff
        split: bind_split)
qed

lemma shared_keys_for_refines:
  assumes "heap_ok (p, h)"
  shows "static_keys_for (behind (p, h)) issuer w =
    (and_then (shared_keys_for p issuer) (\<lambda>a. ok_or (cells h a) []), w)"
proof (cases "p issuer")
  case (Some a)
  then obtain ks where "cells h a = Some ks" using assms ranI [of p issuer a] by (auto simp: heap_ok_def)
  then show ?thesis using Some by (simp add: static_keys_for_def behind_def shared_keys_for_def arc_clone_def)
qed (simp add: static_keys_for_def behind_def shared_keys_for_def)

subsection \<open>The test\<close>

definition static_provider_shares_one_arc_allocation_across_calls :: "jwk \<Rightarrow> bool" where
  "static_provider_shares_one_arc_allocation_across_calls key \<longleftrightarrow>
     (case shared_with_issuer ''https://idp'' [key] (Map.empty, \<lparr>next_arc = 0, cells = Map.empty\<rparr>) of (p, h) \<Rightarrow>
        case (shared_keys_for p ''https://idp'', shared_keys_for p ''https://idp'') of
          (Ok a, Ok b) \<Rightarrow> map_option length (cells h a) = Some 1 \<and> ptr_eq a b
        | _ \<Rightarrow> False)"

lemma sharing_test: "static_provider_shares_one_arc_allocation_across_calls key"
  by (simp add: static_provider_shares_one_arc_allocation_across_calls_def shared_with_issuer_def arc_from_def
      shared_keys_for_def arc_clone_def ptr_eq_def)

end
