(* ===== verification/Tests_Clock.thy ===== *)
theory Tests_Clock
  imports Tests_Replay
begin

section \<open>The clocks of the tests of \<open>replay.rs\<close>\<close>

text \<open>
  The scripts of the tests read one clock that only the test moves. Here are the two clocks the source
  builds for that, as state machines: \<open>FakeClock\<close>, and \<open>SignalingClock\<close>, which sends one message when it
  is first read after it was armed. Run on them, the scripts are those of \<open>Tests_Replay\<close>, and the contended
  probe of the test fails on a store that reads the clock before it has the lock.
\<close>

subsection \<open>\<open>FakeClock\<close>\<close>

record fake_clock =
  fake_base :: nat
  fake_offset :: nat

definition fake_new :: "nat \<Rightarrow> fake_clock" where
  "fake_new real_now = \<lparr>fake_base = real_now, fake_offset = 0\<rparr>"

definition fake_advance :: "nat \<Rightarrow> fake_clock \<Rightarrow> fake_clock" where
  "fake_advance d c = c\<lparr>fake_offset := fake_offset c + d\<rparr>"

text \<open>\<open>Instant + Duration\<close> panics when the sum is no instant.\<close>

definition fake_now :: "fake_clock \<Rightarrow> (string, nat) outcome" where
  "fake_now c =
     (if fake_base c + fake_offset c \<le> instant_max then Ok (fake_base c + fake_offset c) else Panic)"

definition store_with :: "nat \<Rightarrow> fake_clock \<Rightarrow> mem_store \<times> fake_clock" where
  "store_with max_entries clock = (with_clock max_entries, clock)"

text \<open>A test over a shared fake clock.\<close>

fun test_run :: "mem_store \<times> fake_clock \<Rightarrow> script_step list \<Rightarrow> bool" where
  "test_run (s, c) [] = True"
| "test_run (s, c) (Advance_by d # rest) = test_run (s, fake_advance d c) rest"
| "test_run (s, c) (Mark_is jti ttl r # rest) =
     (case fake_now c of
        Ok now \<Rightarrow> (case mark now jti ttl s of (q, s') \<Rightarrow> q = Ok r \<and> test_run (s', c) rest) | _ \<Rightarrow> False)"
| "test_run (s, c) (Mark_fails jti ttl # rest) =
     (case fake_now c of
        Ok now \<Rightarrow> (case mark now jti ttl s of (q, s') \<Rightarrow> (\<exists>e. q = Err e) \<and> test_run (s', c) rest) | _ \<Rightarrow> False)"
| "test_run (s, c) (Contains_is jti b # rest) =
     (case fake_now c of
        Ok now \<Rightarrow> (case contains now jti s of (q, s') \<Rightarrow> q = Ok b \<and> test_run (s', c) rest) | _ \<Rightarrow> False)"

definition total_advance :: "script_step list \<Rightarrow> nat" where
  "total_advance script = sum_list (map (\<lambda>x. case x of Advance_by d \<Rightarrow> d | _ \<Rightarrow> 0) script)"

lemma test_run_script:
  assumes "fake_base c + fake_offset c + total_advance script \<le> instant_max"
  shows "test_run (s, c) script = script_passes (fake_base c + fake_offset c) s script"
  using assms
proof (induction script arbitrary: s c)
  case (Cons x script)
  have now: "fake_now c = Ok (fake_base c + fake_offset c)"
    using Cons.prems by (simp add: fake_now_def total_advance_def)
  show ?case
  proof (cases x)
    case (Advance_by d)
    have "test_run (s, fake_advance d c) script =
        script_passes (fake_base (fake_advance d c) + fake_offset (fake_advance d c)) s script"
      using Cons.prems by (intro Cons.IH) (simp add: total_advance_def fake_advance_def Advance_by)
    then show ?thesis by (simp add: Advance_by fake_advance_def add.assoc)
  qed (use Cons now in \<open>auto simp: total_advance_def split: prod.splits\<close>)
qed simp

text \<open>So the tests that drive the clock run on a fake clock made at \<open>base\<close>.\<close>

lemma test_run_fake:
  assumes "base_ok base" "total_advance script \<le> secs 1000"
  shows "test_run (store_with n (fake_new base)) script = script_passes base (with_clock n) script"
  using test_run_script [of "fake_new base" script "with_clock n"] assms
  by (simp add: store_with_def fake_new_def base_ok_def)

subsection \<open>\<open>SignalingClock\<close>\<close>

text \<open>The sender is there until it is taken for the one message; \<open>sig_received\<close> counts what arrives.\<close>

record signaling_clock =
  sig_base :: nat
  sig_offset :: nat
  sig_armed :: bool
  sig_fired :: bool
  sig_tx :: bool
  sig_received :: nat

definition signaling_new :: "nat \<Rightarrow> signaling_clock" where
  "signaling_new real_now = \<lparr>sig_base = real_now, sig_offset = 0, sig_armed = False, sig_fired = False,
     sig_tx = True, sig_received = 0\<rparr>"

definition signaling_advance :: "nat \<Rightarrow> signaling_clock \<Rightarrow> signaling_clock" where
  "signaling_advance d c = c\<lparr>sig_offset := sig_offset c + d\<rparr>"

definition signaling_arm :: "signaling_clock \<Rightarrow> signaling_clock" where
  "signaling_arm c = c\<lparr>sig_armed := True\<rparr>"

definition signaling_now :: "signaling_clock \<Rightarrow> (string, nat) outcome \<times> signaling_clock" where
  "signaling_now c =
     (if instant_max < sig_base c + sig_offset c then (Panic, c)
      else (Ok (sig_base c + sig_offset c),
        if sig_armed c \<and> \<not> sig_fired c then
          (if sig_tx c then c\<lparr>sig_fired := True, sig_tx := False, sig_received := Suc (sig_received c)\<rparr>
           else c\<lparr>sig_fired := True\<rparr>)
        else c))"

text \<open>One message, at the first read after arming, and the value read is the one before it.\<close>

inductive clock_use :: "signaling_clock \<Rightarrow> bool" where
  made: "clock_use (signaling_new base)"
| advanced: "clock_use c \<Longrightarrow> clock_use (signaling_advance d c)"
| armed: "clock_use c \<Longrightarrow> clock_use (signaling_arm c)"
| read: "clock_use c \<Longrightarrow> clock_use (snd (signaling_now c))"

lemma clock_use_inv:
  "clock_use c \<Longrightarrow> (sig_tx c \<longleftrightarrow> \<not> sig_fired c) \<and> sig_received c = (if sig_fired c then 1 else 0)
     \<and> (sig_fired c \<longrightarrow> sig_armed c)"
  by (induction rule: clock_use.induct)
    (auto simp: signaling_new_def signaling_advance_def signaling_arm_def signaling_now_def)

lemma signals_once:
  assumes "clock_use c"
  shows "sig_received c \<le> 1" and "\<not> sig_armed c \<Longrightarrow> sig_received c = 0"
    and "sig_armed c \<Longrightarrow> sig_base c + sig_offset c \<le> instant_max \<Longrightarrow> sig_received (snd (signaling_now c)) = 1"
  using clock_use_inv [OF assms] by (auto simp: signaling_now_def split: if_splits)

text \<open>
  The probe of the test in the two orders of reading the clock and taking the lock: the main thread
  holds the lock, advances past the expiry, and releases; a read before the lock has the old time.
\<close>

definition probe_after_lock :: "mem_store \<Rightarrow> signaling_clock \<Rightarrow> (string, bool) outcome" where
  "probe_after_lock s c =
     and_then (fst (signaling_now (signaling_advance (secs 60) (signaling_arm c))))
       (\<lambda>now. fst (contains now ''contended'' s))"

definition probe_before_lock :: "mem_store \<Rightarrow> signaling_clock \<Rightarrow> (string, bool) outcome" where
  "probe_before_lock s c =
     (case signaling_now (signaling_arm c) of (q, c') \<Rightarrow> and_then q (\<lambda>now. fst (contains now ''contended'' s)))"

lemma contended_probe_orders:
  assumes "base_ok base"
    and s: "s = snd (mark base ''contended'' (secs 20) (with_clock 100000))" and c: "c = signaling_new base"
  shows "probe_after_lock s c = Ok False" "probe_before_lock s c = Ok True"
    "sig_received (snd (signaling_now (signaling_arm c))) = 1"
  using assms
  by (simp_all add: probe_after_lock_def probe_before_lock_def signaling_new_def signaling_now_def signaling_arm_def
      signaling_advance_def script_simps)

end
