(* ===== verification/Spec2Isabelle.thy ===== *)
theory Spec2Isabelle
  imports Concurrent Effects Well_Formed Robustness Shim_Main Key_Cache Nat64 Listing Server_Runs Tests_Core
    Tests_Verifier Tests_Fetch Tests_Ssrf Tests_Replay Tests_Text Tests_Sharing Tests_Clock
begin

text \<open>
  \<^bold>\<open>A verification of solid-oidc-verifier.\<close>

  The crate verifies the credentials of a Solid resource server: a JWT access token of a trusted
  issuer, bound to a DPoP key or to a TLS client certificate, with replay protection, an SSRF-guarded
  key and profile fetch, and the WebID-to-issuer check. This development is a shallow embedding of its
  sources (\<open>src/src/*.rs\<close>): every function is an executable HOL function of the same name and
  branches, every \<open>Err\<close> and panic is a value.

  \<^bold>\<open>Layout.\<close> In the order of the imports:

  \<^item> \<open>Prelude\<close>: results (\<open>outcome\<close>), operations on a world (\<open>io\<close>) and what they preserve and cost,
    \<open>i64\<close>/\<open>u64\<close> arithmetic in both build profiles, strings, quoting.
  \<^item> \<open>Errors\<close> (error.rs), \<open>Json\<close> (the \<open>serde_json\<close> values matched on), \<open>Crates\<close> (the third-party code
    as parameters, and the JWK record), \<open>Samples\<close> (concrete parameters for witnesses).
  \<^item> \<open>Jwk\<close> (jwk.rs), \<open>Jwt\<close> (jwt.rs), \<open>Replay\<close> (replay.rs).
  \<^item> \<open>Ipaddr\<close> and \<open>Ipaddr_Text\<close> (the std address types, parser and \<open>Display\<close>), \<open>Ssrf\<close> and
    \<open>Nat64\<close> (ssrf.rs), \<open>Webid\<close> (webid.rs), \<open>Net\<close> (net.rs).
  \<^item> \<open>Config\<close> and \<open>Providers\<close> (config.rs, and the network resolver of webid.rs), \<open>Key_Cache\<close> (the key
    cache with its two critical sections interleaved).
  \<^item> \<open>Verifier\<close> (verifier.rs), \<open>Acceptance\<close> (what each step accepts), \<open>Verifier_Samples\<close>,
    \<open>Guarantees\<close> (what an acceptance means), \<open>Failures\<close> (replay, issuer check, rejections),
    \<open>Exactness\<close> (exactly which requests are accepted), \<open>Robustness\<close> (no leak of backend detail, no
    panic), \<open>Well_Formed\<close> (the type of a result), \<open>Passage\<close> (what \<open>verify\<close> keeps of the world),
    \<open>Effects\<close> (which requests change the replay store, and how).
  \<^item> \<open>Locking\<close> (the store's lock, clock and map steps interleaved), \<open>Calls\<close> (\<open>verify\<close> taken apart into
    its outside calls, with the lemma that running it on recorded answers is running it in the world),
    \<open>Replay_Safety\<close> (replay protection end to end, one verification among arbitrary events) and
    \<open>Concurrent\<close> (any number of verifications in flight on one store).
  \<^item> \<open>Resolver\<close> (the DNS dispatch thread of net.rs as a step relation) and \<open>Shim\<close> (the production
    constructors and \<open>examples/cth_shim.rs\<close>: environment, wiring and HTTP handler) with \<open>Shim_Main\<close> (its
    \<open>main\<close>: bind address, the std socket address parser, routes) and \<open>Server_Runs\<close> (any number of
    connections served at once on the real providers: published keys, one acceptance per proof, an answer
    to every request).
  \<^item> \<open>Url_Rules\<close> (the documented behaviour of the \<open>url\<close> crate as one predicate, with a reader of printed
    URLs), \<open>Url_Texts\<close> (under it: the \<open>htu\<close> comparison, the profile URL, the discovery URL) and
    \<open>Listing\<close> (the contract of a WebID resolver, and what a strict acceptance rests on).
  \<^item> \<open>Tests_Core\<close>, \<open>Tests_Verifier\<close>, \<open>Tests_Urls\<close>, \<open>Tests_Fetch\<close>, \<open>Tests_Ssrf\<close>, \<open>Tests_Replay\<close>,
    \<open>Tests_Text\<close>, \<open>Tests_Sharing\<close>: the unit tests of the sources as predicates of their names, each proved
    of the model; \<open>Tests_Clock\<close> has the clocks the tests of the store build; \<open>Nat64_Embed\<close> is the RFC
    6052 embedding one of them uses, shown inverse to the extraction in ssrf.rs.

  \<^bold>\<open>How the parts interact.\<close> \<open>verify\<close> reads the scheme and the unverified issuer, asks a
  \<open>jwks_provider\<close> for keys, verifies signatures with \<open>verify_signature\<close>, checks claims against a
  clock, the proof with \<open>validate_dpop_proof\<close>, marks the proof's \<open>jti\<close> in a replay store and asks a
  \<open>webid_resolver\<close> for the issuers of the WebID. The provider and the resolver fetch through \<open>get\<close>,
  which classifies every address with \<open>is_public_address_with_nat64\<close>. All of them act on one world of
  arbitrary type, passed in the order of the calls; \<open>Verifier\<close> is parametric in the providers.

  \<^bold>\<open>Interfaces.\<close> \<open>replay_store\<close> (interpreted by the in-memory store), \<open>jwks_provider\<close> (interpreted by the
  static and by the network provider) and \<open>webid_profiles\<close> (interpreted by the network resolver) are
  locales; the facts about histories of calls and about the verifier as a client are proved inside them.

  \<^bold>\<open>Parameters.\<close> The records of \<open>Crates\<close>, \<open>Webid\<close> and \<open>Net\<close> stand for base64, SHA-256, \<open>serde_json\<close>,
  \<open>jsonwebtoken\<close>, \<open>p521\<close>, \<open>url\<close>, \<open>oxttl\<close> and \<open>reqwest\<close>. Theorems hold for all of their values, except
  where a hypothesis names what is used of them: \<open>url_rules\<close> for the texts of URLs. The flag \<open>overflow_checks\<close> is the build profile: the
  arithmetic of the time checks panics with it and wraps without it.

  \<^bold>\<open>Bounds and fuel.\<close> The redirect loop \<open>get_hops\<close> recurses on the number of hops, \<open>max_redirects + 1\<close>,
  as the source's range loop does. The NAT64 bit loop terminates by a measure on the bits taken and the
  position. Nothing else is bounded artificially. Clock readings below \<open>2 ^ 62\<close> seconds and tolerances
  below \<open>2 ^ 61\<close> are the sanity conditions \<open>sane_clock\<close> and \<open>sane_tolerance\<close>; what happens outside them
  follows from the same definitions.

  \<^bold>\<open>State and concurrency.\<close> The replay store is a record whose calls are atomic (a mutex guards them), and
  \<open>store_history\<close> generates every concurrent history. \<open>Replay_Safety\<close> puts a verifier, its two clocks and
  other users of the store into one world whose agenda of events runs between any two calls. The clocks are
  separate: the store reads a monotonic one (\<open>Instant\<close>), the freshness check the system clock
  (\<open>SystemTime\<close>), which an event may set to any value, before the epoch too. What is proved of two
  acceptances of one proof without a condition on the system clock is in terms of the monotonic one; that
  the second straddles the end of the window is proved when the system clock is not set back, and two
  evaluated runs show that the bound is reached and that the condition is needed. The resolver
  thread is \<open>dispatch_step\<close>: submissions, dispatches and completions in any order. \<open>key_step\<close> interleaves
  the lookups, fetches and stores of concurrent \<open>keys_for\<close> calls. That store calls may be taken as atomic
  is proved in \<open>Locking\<close>: every schedule of their lock, clock and map steps is a sequential history.
  \<open>Calls\<close> gives \<open>verify\<close> as a machine that stops at each outside call; \<open>Concurrent\<close> runs a pool of such
  machines, a turn at a time, on one store and two clocks. \<open>Server_Runs\<close> does the same for the wired
  server, where the key provider is the network one with its cache: \<open>server_step\<close> opens a connection,
  makes one call of one connection, or lets the outside move (time, network, a poisoned lock), and
  invariants of all reachable states are proved by rule induction.

  \<^bold>\<open>Not modelled.\<close> The integration tests under \<open>tests/\<close>, which need real keys and sockets; the crate root
  \<open>lib.rs\<close>, which only re-exports; the refresh of a key set by two connections at once as more than one
  step in \<open>Server_Runs\<close> (it is taken apart in \<open>Key_Cache\<close>); the socket and the shutdown signal of the shim; the third-party crates named above.
\<close>

end
